(* ===== verification/KNL_Prelude.thy ===== *)
theory KNL_Prelude
  imports Main "HOL-Library.AList" "HOL-Library.Multiset" "HOL-Library.List_Lexorder" "HOL-Library.Char_ord"
begin

text \<open>
  What every theory of the development shares: error and panic values, the
  result type of a Go function that returns an error, the state-passing
  procedures of the code that talks to the cluster, loops that stop at the first
  error, and Go maps with string keys.

  \<^item> An \<open>error\<close> is a \<open>goerr\<close>: \<open>Errorf format args wrapped\<close> is
    \<open>fmt.Errorf(format, args..., wrapped)\<close> with its arguments unformatted (only those
    that are strings or names; the wrapped error of a \<open>%w\<close> verb is the last component).
    \<open>NotFoundErr\<close> is an error for which \<open>apierrors.IsNotFound\<close> is true,
    \<open>ApiErr\<close> any other error of the API client, \<open>LibErr\<close> an error of the Go
    standard library or of another package.
  \<^item> A \<open>fault\<close> is what ends a call without a result: a returned error, or a run-time
    panic (nil dereference, failed type assertion, explicit \<open>panic\<close>).
  \<^item> A Go map is an association list with distinct keys. Its order stands for the order in
    which a \<open>range\<close> loop visits it, which Go leaves open; a theorem about all association
    lists is a theorem about all visiting orders.
\<close>

named_theorems result_simps \<open>rewrite rules for the result type and its loops\<close>
named_theorems gomap_simps \<open>rewrite rules for Go maps as association lists\<close>

section \<open>Errors, panics and results\<close>

datatype goerr =
    Errorf string "string list" "goerr option"
  | NotFoundErr string
  | ApiErr string
  | LibErr string string

datatype fault = Err goerr | Panic string

type_synonym 'a result = "fault + 'a"

definition errf :: "string \<Rightarrow> string list \<Rightarrow> 'a result" where
  "errf fmt args = Inl (Err (Errorf fmt args None))"

definition bindr :: "'a result \<Rightarrow> ('a \<Rightarrow> 'b result) \<Rightarrow> 'b result" where
  "bindr m f = (case m of Inl e \<Rightarrow> Inl e | Inr x \<Rightarrow> f x)"

definition failif :: "bool \<Rightarrow> string \<Rightarrow> string list \<Rightarrow> unit result" where
  "failif b fmt args = (if b then errf fmt args else Inr ())"

definition wrapf :: "string \<Rightarrow> string list \<Rightarrow> 'a result \<Rightarrow> 'a result" where
  "wrapf fmt args m =
     (case m of Inl (Err e) \<Rightarrow> Inl (Err (Errorf fmt args (Some e)))
              | Inl (Panic p) \<Rightarrow> Inl (Panic p) | Inr x \<Rightarrow> Inr x)"

text \<open>Reading through a pointer: a nil pointer is a run-time panic.\<close>

definition deref :: "'a option \<Rightarrow> 'a result" where
  "deref p = (case p of None \<Rightarrow> Inl (Panic ''nil pointer dereference'') | Some x \<Rightarrow> Inr x)"

definition ok :: "'a result \<Rightarrow> bool" where
  "ok m = (case m of Inl _ \<Rightarrow> False | Inr _ \<Rightarrow> True)"

definition panics :: "'a result \<Rightarrow> bool" where
  "panics m = (case m of Inl (Panic _) \<Rightarrow> True | _ \<Rightarrow> False)"

text \<open>A \<open>Must\<close> function panics where the plain one returns an error; so does an index out of range.\<close>

definition must :: "'a result \<Rightarrow> 'a result" where
  "must m = (case m of Inl (Err _) \<Rightarrow> Inl (Panic ''unexpected error'') | _ \<Rightarrow> m)"

definition at :: "'a list \<Rightarrow> nat \<Rightarrow> 'a result" where
  "at xs i = (if i < length xs then Inr (xs ! i) else Inl (Panic ''index out of range''))"

lemma bindr_Inl [simp]: "bindr (Inl e) f = Inl e"
  by (simp add: bindr_def)

lemma bindr_Inr [simp]: "bindr (Inr x) f = f x"
  by (simp add: bindr_def)

lemma bindr_eq_Inr [result_simps]:
  "bindr m f = Inr y \<longleftrightarrow> (\<exists>x. m = Inr x \<and> f x = Inr y)"
  by (cases m) auto

lemma bindr_eq_Inl [result_simps]:
  "bindr m f = Inl e \<longleftrightarrow> m = Inl e \<or> (\<exists>x. m = Inr x \<and> f x = Inl e)"
  by (cases m) auto

lemma bindr_assoc: "bindr (bindr m f) g = bindr m (\<lambda>x. bindr (f x) g)"
  by (cases m) auto

lemma bindr_cong [fundef_cong]:
  "m = m' \<Longrightarrow> (\<And>x. m' = Inr x \<Longrightarrow> f x = f' x) \<Longrightarrow> bindr m f = bindr m' f'"
  by (cases m') (auto simp: bindr_def)

lemma failif_eq [result_simps]: "failif b fmt args = Inr u \<longleftrightarrow> \<not> b"
  by (simp add: failif_def errf_def)

lemma failif_simps [simp]: "failif False fmt args = Inr ()" "failif True fmt args = errf fmt args"
  by (simp_all add: failif_def)

lemma errf_neq_Inr [simp]: "errf fmt args \<noteq> Inr x" "Inr x \<noteq> errf fmt args"
  by (simp_all add: errf_def)

lemma ok_errf [simp]: "ok (errf fmt args) = False"
  by (simp add: ok_def errf_def)

lemma wrapf_Inr [simp]: "wrapf fmt args (Inr x) = Inr x"
  by (simp add: wrapf_def)

lemma wrapf_eq_Inr [result_simps]: "wrapf fmt args m = Inr x \<longleftrightarrow> m = Inr x"
  by (auto simp: wrapf_def split: sum.splits fault.splits)

lemma deref_simps [simp]:
  "deref (Some x) = Inr x" "deref None = Inl (Panic ''nil pointer dereference'')"
  by (simp_all add: deref_def)

lemma deref_eq_Inr [result_simps]: "deref p = Inr x \<longleftrightarrow> p = Some x"
  by (cases p) auto

lemma must_Inr [simp]: "must (Inr x) = Inr x"
  by (simp add: must_def)

lemma must_eq_Inr [result_simps]: "must m = Inr x \<longleftrightarrow> m = Inr x"
  by (auto simp: must_def split: sum.splits fault.splits)

lemma at_simps [simp]: "at (x # xs) 0 = Inr x" "at (x # xs) (Suc i) = at xs i"
  by (simp_all add: at_def)

lemma at_eq_Inr [result_simps]: "at xs i = Inr x \<longleftrightarrow> i < length xs \<and> xs ! i = x"
  by (simp add: at_def)

lemma ok_simps [simp]: "ok (Inr x)" "\<not> ok (Inl e)"
  by (simp_all add: ok_def)

lemma ok_iff: "ok m \<longleftrightarrow> (\<exists>x. m = Inr x)"
  by (cases m) auto

lemma ok_unit: "ok m \<longleftrightarrow> m = Inr ()"
  by (cases m) auto

lemma ok_bindr [result_simps]: "ok (bindr m f) \<longleftrightarrow> (\<exists>x. m = Inr x \<and> ok (f x))"
  by (cases m) auto

lemma ok_wrapf [result_simps]: "ok (wrapf fmt args m) \<longleftrightarrow> ok m"
  by (auto simp: wrapf_def split: sum.splits fault.splits)

lemma ok_failif [result_simps]: "ok (failif b fmt args) \<longleftrightarrow> \<not> b"
  by (simp add: failif_def errf_def)

lemma panics_simps [simp]:
  "panics (Inl (Panic p))" "\<not> panics (Inl (Err e))" "\<not> panics (Inr x)" "\<not> panics (errf fmt args)"
  by (simp_all add: panics_def errf_def)

lemma panics_bindr [result_simps]:
  "panics (bindr m f) \<longleftrightarrow> panics m \<or> (\<exists>x. m = Inr x \<and> panics (f x))"
  by (cases m) (auto simp: panics_def split: fault.splits)

lemma panics_wrapf [result_simps]: "panics (wrapf fmt args m) \<longleftrightarrow> panics m"
  by (auto simp: wrapf_def panics_def split: sum.splits fault.splits)

lemma panics_failif [result_simps]: "\<not> panics (failif b fmt args)"
  by (simp add: failif_def)

lemma panics_deref [result_simps]: "panics (deref p) \<longleftrightarrow> p = None"
  by (cases p) auto

section \<open>Loops that stop at the first error\<close>

fun each :: "('a \<Rightarrow> unit result) \<Rightarrow> 'a list \<Rightarrow> unit result" where
  "each f [] = Inr ()"
| "each f (x # xs) = bindr (f x) (\<lambda>_. each f xs)"

fun foldm :: "('a \<Rightarrow> 's \<Rightarrow> 's result) \<Rightarrow> 'a list \<Rightarrow> 's \<Rightarrow> 's result" where
  "foldm f [] s = Inr s"
| "foldm f (x # xs) s = bindr (f x s) (foldm f xs)"

fun mapr :: "('a \<Rightarrow> 'b result) \<Rightarrow> 'a list \<Rightarrow> 'b list result" where
  "mapr f [] = Inr []"
| "mapr f (x # xs) = bindr (f x) (\<lambda>y. bindr (mapr f xs) (\<lambda>ys. Inr (y # ys)))"

lemma each_cong [fundef_cong]:
  "xs = ys \<Longrightarrow> (\<And>x. x \<in> set ys \<Longrightarrow> f x = g x) \<Longrightarrow> each f xs = each g ys"
  by (induction xs arbitrary: ys) auto

lemma foldm_cong [fundef_cong]:
  "xs = ys \<Longrightarrow> s = t \<Longrightarrow> (\<And>x u. x \<in> set ys \<Longrightarrow> f x u = g x u) \<Longrightarrow> foldm f xs s = foldm g ys t"
proof (induction xs arbitrary: ys s t)
  case (Cons x xs)
  then show ?case by (auto intro!: bindr_cong)
qed auto

lemma each_eq_ok [result_simps]: "each f xs = Inr u \<longleftrightarrow> (\<forall>x\<in>set xs. f x = Inr ())"
  by (induction xs) (auto simp: result_simps)

lemma ok_each [result_simps]: "ok (each f xs) \<longleftrightarrow> (\<forall>x\<in>set xs. ok (f x))"
  by (auto simp: ok_unit each_eq_ok)

lemma panics_each: "panics (each f xs) \<Longrightarrow> \<exists>x\<in>set xs. panics (f x)"
  by (induction xs) (auto simp: result_simps)

lemma each_append: "each f (xs @ ys) = bindr (each f xs) (\<lambda>_. each f ys)"
  by (induction xs) (auto simp: bindr_assoc)

lemma foldm_append: "foldm f (xs @ ys) s = bindr (foldm f xs s) (foldm f ys)"
proof (induction xs arbitrary: s)
  case (Cons x xs)
  have "foldm f (xs @ ys) = (\<lambda>u. bindr (foldm f xs u) (foldm f ys))"
    by (rule ext) (rule Cons.IH)
  then show ?case by (simp add: bindr_assoc)
qed simp

lemma foldm_invariant:
  assumes "foldm f xs s = Inr t" and "P s"
    and "\<And>x u v. x \<in> set xs \<Longrightarrow> P u \<Longrightarrow> f x u = Inr v \<Longrightarrow> P v"
  shows "P t"
  using assms
proof (induction xs arbitrary: s)
  case (Cons x xs)
  from Cons.prems(1) obtain v where v: "f x s = Inr v" "foldm f xs v = Inr t"
    by (auto simp: result_simps)
  have "P v" using Cons.prems(2,3) v(1) by auto
  then show ?case using Cons.IH [OF v(2)] Cons.prems(3) by auto
qed simp

lemma foldm_ok:
  assumes "P s" and "\<And>x u. x \<in> set xs \<Longrightarrow> P u \<Longrightarrow> \<exists>v. f x u = Inr v \<and> P v"
  shows "\<exists>t. foldm f xs s = Inr t \<and> P t"
  using assms
proof (induction xs arbitrary: s)
  case (Cons x xs)
  from Cons.prems obtain v where "f x s = Inr v" "P v" by fastforce
  then show ?case using Cons.IH [of v] Cons.prems(2) by auto
qed simp

lemma foldm_no_panic:
  assumes "P s" and "\<And>x u. x \<in> set xs \<Longrightarrow> P u \<Longrightarrow> \<not> panics (f x u)"
    and "\<And>x u v. x \<in> set xs \<Longrightarrow> P u \<Longrightarrow> f x u = Inr v \<Longrightarrow> P v"
  shows "\<not> panics (foldm f xs s)"
  using assms
proof (induction xs arbitrary: s)
  case (Cons x xs)
  have "\<not> panics (f x s)" using Cons.prems by simp
  moreover have "\<not> panics (foldm f xs v)" if "f x s = Inr v" for v
  proof (rule Cons.IH)
    show "P v" using Cons.prems(1,3) that by auto
    show "\<not> panics (f y u)" if "y \<in> set xs" "P u" for y u
      using Cons.prems(2) that by simp
    show "P w" if "y \<in> set xs" "P u" "f y u = Inr w" for y u w
      using Cons.prems(3) [of y u w] that by simp
  qed
  ultimately show ?case by (simp add: panics_bindr)
qed simp

lemma mapr_eq_ok [result_simps]:
  "mapr f xs = Inr ys \<longleftrightarrow> list_all2 (\<lambda>x y. f x = Inr y) xs ys"
  by (induction xs arbitrary: ys) (auto simp: result_simps list_all2_Cons1)

section \<open>Procedures over a state\<close>

text \<open>
  A procedure returns its result and the state it leaves; an error keeps the changes made
  before it, as the cluster does.
\<close>

type_synonym ('s, 'a) proc = "'s \<Rightarrow> 'a result \<times> 's"

definition retp :: "'a \<Rightarrow> ('s, 'a) proc" where
  "retp x s = (Inr x, s)"

definition liftp :: "'a result \<Rightarrow> ('s, 'a) proc" where
  "liftp r s = (r, s)"

definition bindp :: "('s, 'a) proc \<Rightarrow> ('a \<Rightarrow> ('s, 'b) proc) \<Rightarrow> ('s, 'b) proc" where
  "bindp m f s = (case m s of (Inl e, s') \<Rightarrow> (Inl e, s') | (Inr x, s') \<Rightarrow> f x s')"

definition wrapp :: "string \<Rightarrow> string list \<Rightarrow> ('s, 'a) proc \<Rightarrow> ('s, 'a) proc" where
  "wrapp fmt args m s = (case m s of (r, s') \<Rightarrow> (wrapf fmt args r, s'))"

fun eachp :: "('a \<Rightarrow> ('s, unit) proc) \<Rightarrow> 'a list \<Rightarrow> ('s, unit) proc" where
  "eachp f [] = retp ()"
| "eachp f (x # xs) = bindp (f x) (\<lambda>_. eachp f xs)"

fun foldp :: "('a \<Rightarrow> 'b \<Rightarrow> ('s, 'b) proc) \<Rightarrow> 'a list \<Rightarrow> 'b \<Rightarrow> ('s, 'b) proc" where
  "foldp f [] b = retp b"
| "foldp f (x # xs) b = bindp (f x b) (foldp f xs)"

text \<open>A call whose error the code drops.\<close>

definition ignored :: "('s, 'a) proc \<Rightarrow> ('s, unit) proc" where
  "ignored m s = (Inr (), snd (m s))"

text \<open>A call whose error decides what is done next.\<close>

definition catchp :: "('s, 'a) proc \<Rightarrow> (fault \<Rightarrow> ('s, 'b) proc) \<Rightarrow> ('a \<Rightarrow> ('s, 'b) proc) \<Rightarrow> ('s, 'b) proc" where
  "catchp m h f s = (case m s of
      (Inl (Panic p), s') \<Rightarrow> (Inl (Panic p), s')
    | (Inl (Err e), s') \<Rightarrow> h (Err e) s'
    | (Inr x, s') \<Rightarrow> f x s')"

text \<open>\<open>log.Fatal\<close> ends the process, so nothing catches it.\<close>

definition fatal :: "('s, 'a) proc \<Rightarrow> ('s, 'a) proc" where
  "fatal m s = (case m s of (Inl (Err _), s') \<Rightarrow> (Inl (Panic ''log.Fatal''), s') | q \<Rightarrow> q)"

lemma bindp_simps [simp]:
  "m s = (Inl e, s') \<Longrightarrow> bindp m f s = (Inl e, s')"
  "m s = (Inr x, s') \<Longrightarrow> bindp m f s = f x s'"
  by (simp_all add: bindp_def)

lemma retp_simp [simp]: "retp x s = (Inr x, s)"
  by (simp add: retp_def)

lemma liftp_simp [simp]: "liftp r s = (r, s)"
  by (simp add: liftp_def)

lemma bindp_retp [simp]: "bindp (retp x) f = f x"
  by (rule ext) (simp add: bindp_def)

lemma bindp_eq_ok [result_simps]:
  "bindp m f s = (Inr y, t) \<longleftrightarrow> (\<exists>x u. m s = (Inr x, u) \<and> f x u = (Inr y, t))"
  by (auto simp: bindp_def split: prod.splits sum.splits)

lemma wrapp_eq_ok [result_simps]: "wrapp fmt args m s = (Inr y, t) \<longleftrightarrow> m s = (Inr y, t)"
  by (auto simp: wrapp_def wrapf_eq_Inr split: prod.splits)

lemma snd_wrapp [simp]: "snd (wrapp fmt args m s) = snd (m s)"
  by (auto simp: wrapp_def split: prod.splits)

text \<open>An invariant of the state that every step keeps is kept by a sequence, whatever it returns.\<close>

definition keeps :: "('s \<Rightarrow> 's \<Rightarrow> bool) \<Rightarrow> ('s, 'a) proc \<Rightarrow> bool" where
  "keeps R m \<longleftrightarrow> (\<forall>s. R s (snd (m s)))"

lemma keepsI: "(\<And>s. R s (snd (m s))) \<Longrightarrow> keeps R m"
  by (simp add: keeps_def)

lemma keepsD: "keeps R m \<Longrightarrow> m s = (r, t) \<Longrightarrow> R s t"
  by (metis keeps_def snd_conv)

lemma keeps_bindp:
  assumes "keeps R m" and "\<And>x. keeps R (f x)" and "transp R"
  shows "keeps R (bindp m f)"
proof (rule keepsI)
  fix s
  obtain r t where m: "m s = (r, t)" by fastforce
  have "R s t" using keepsD [OF assms(1) m] .
  then show "R s (snd (bindp m f s))"
    using m assms(2,3) by (cases r) (auto simp: keeps_def dest: transpD)
qed

lemma keeps_retp [simp]: "reflp R \<Longrightarrow> keeps R (retp x)"
  by (simp add: keeps_def reflpD)

lemma keeps_liftp [simp]: "reflp R \<Longrightarrow> keeps R (liftp r)"
  by (simp add: keeps_def reflpD)

lemma keeps_wrapp: "keeps R m \<Longrightarrow> keeps R (wrapp fmt args m)"
  by (simp add: keeps_def)

lemma keeps_bindp_liftp:
  assumes "\<And>x. r = Inr x \<Longrightarrow> keeps R (f x)" and "reflp R"
  shows "keeps R (bindp (liftp r) f)"
proof (cases r)
  case (Inl e)
  then show ?thesis using assms(2) by (simp add: keeps_def reflpD bindp_def)
next
  case (Inr x)
  then show ?thesis using assms(1) by (simp add: keeps_def bindp_def)
qed

lemma keeps_catchp:
  assumes "keeps R m" and "\<And>e. keeps R (h e)" and "\<And>x. keeps R (f x)" and "transp R"
  shows "keeps R (catchp m h f)"
proof (rule keepsI)
  fix s
  obtain r t where m: "m s = (r, t)" by fastforce
  have "R s t" using keepsD [OF assms(1) m] .
  then show "R s (snd (catchp m h f s))"
    using m assms(2-4) by (auto simp: keeps_def catchp_def split: sum.split fault.split intro: transpD [OF assms(4)])
qed

lemma keeps_ignored: "keeps R m \<Longrightarrow> keeps R (ignored m)"
  by (simp add: keeps_def ignored_def)

lemma keeps_weaken: "keeps R m \<Longrightarrow> (\<And>s t. R s t \<Longrightarrow> Q s t) \<Longrightarrow> keeps Q m"
  by (simp add: keeps_def)

lemma keeps_eachp:
  assumes "\<And>x. x \<in> set xs \<Longrightarrow> keeps R (f x)" and "reflp R" and "transp R"
  shows "keeps R (eachp f xs)"
  using assms by (induction xs) (auto intro!: keeps_bindp)

lemma keeps_foldp:
  assumes "\<And>x b. x \<in> set xs \<Longrightarrow> keeps R (f x b)" and "reflp R" and "transp R"
  shows "keeps R (foldp f xs b)"
  using assms by (induction xs arbitrary: b) (auto intro!: keeps_bindp)

section \<open>Go maps\<close>

type_synonym 'v gomap = "(string \<times> 'v) list"

definition wfmap :: "('k \<times> 'v) list \<Rightarrow> bool" where
  "wfmap m \<longleftrightarrow> distinct (map fst m)"

text \<open>A nil map reads as an empty one.\<close>

definition entries :: "('k \<times> 'v) list option \<Rightarrow> ('k \<times> 'v) list" where
  "entries m = (case m of None \<Rightarrow> [] | Some xs \<Rightarrow> xs)"

lemma entries_simps [simp]: "entries None = []" "entries (Some xs) = xs"
  by (simp_all add: entries_def)

lemma wfmap_Nil [simp]: "wfmap []"
  by (simp add: wfmap_def)

lemma wfmap_update [simp]: "wfmap m \<Longrightarrow> wfmap (AList.update k v m)"
  by (simp add: wfmap_def distinct_update)

lemma map_of_update [gomap_simps]: "map_of (AList.update k v m) = (map_of m)(k \<mapsto> v)"
  by (rule update_conv')

lemma keys_update [gomap_simps]: "fst ` set (AList.update k v m) = insert k (fst ` set m)"
  by (simp add: dom_map_of_conv_image_fst [symmetric] map_of_update)

lemma wfmap_map_of: "wfmap m \<Longrightarrow> map_of m k = Some v \<longleftrightarrow> (k, v) \<in> set m"
  by (auto simp: wfmap_def)

lemma update_same: "map_of m k = Some v \<Longrightarrow> AList.update k v m = m"
  by (induction m) auto

text \<open>\<open>GetSortedKeySlice\<close>: the keys in byte order (common.go).\<close>

definition GetSortedKeySlice :: "'v gomap \<Rightarrow> string list" where
  "GetSortedKeySlice m = sort (map fst m)"

lemma set_GetSortedKeySlice [simp]: "set (GetSortedKeySlice m) = fst ` set m"
  by (simp add: GetSortedKeySlice_def)

lemma sorted_GetSortedKeySlice [simp]: "sorted (GetSortedKeySlice m)"
  by (simp add: GetSortedKeySlice_def)

lemma length_GetSortedKeySlice [simp]: "length (GetSortedKeySlice m) = length m"
  by (simp add: GetSortedKeySlice_def)

lemma distinct_GetSortedKeySlice [simp]: "distinct (GetSortedKeySlice m) \<longleftrightarrow> wfmap m"
  by (simp add: GetSortedKeySlice_def wfmap_def)

lemma GetSortedKeySlice_perm:
  "mset (map fst m) = mset (map fst m') \<Longrightarrow> GetSortedKeySlice m = GetSortedKeySlice m'"
  by (metis GetSortedKeySlice_def mset_sort properties_for_sort sorted_sort)

end
