(* ===== verification/Go_Strings.thy ===== *)
theory Go_Strings
  imports KNL_Prelude
begin

text \<open>
  The functions of Go's \<open>strings\<close>, \<open>strconv\<close>, \<open>fmt\<close> and \<open>path/filepath\<close> packages that
  the repository uses, on byte strings. Case mapping and white space are those of ASCII: a
  byte above 127 is left alone. \<open>int\<close> is Go's 64-bit \<open>int\<close>, and \<open>Atoi\<close> refuses
  what does not fit it.
\<close>

named_theorems gostr_simps \<open>rewrite rules for Go's string functions\<close>

section \<open>Case, white space, prefixes\<close>

definition lower_char :: "char \<Rightarrow> char" where
  "lower_char c =
     (let n = (of_char c :: nat) in if 65 \<le> n \<and> n \<le> 90 then char_of (n + 32) else c)"

definition ToLower :: "string \<Rightarrow> string" where
  "ToLower s = map lower_char s"

definition is_space :: "char \<Rightarrow> bool" where
  "is_space c = (let n = (of_char c :: nat) in n = 32 \<or> (9 \<le> n \<and> n \<le> 13))"

definition TrimSpace :: "string \<Rightarrow> string" where
  "TrimSpace s = rev (dropWhile is_space (rev (dropWhile is_space s)))"

definition HasPrefix :: "string \<Rightarrow> string \<Rightarrow> bool" where
  "HasPrefix s p \<longleftrightarrow> take (length p) s = p"

definition CutPrefix :: "string \<Rightarrow> string \<Rightarrow> string option" where
  "CutPrefix s p = (if HasPrefix s p then Some (drop (length p) s) else None)"

definition TrimPrefix :: "string \<Rightarrow> string \<Rightarrow> string" where
  "TrimPrefix s p = (if HasPrefix s p then drop (length p) s else s)"

text \<open>\<open>strings.Index(s, c)\<close> for a one-byte separator.\<close>

definition IndexByte :: "string \<Rightarrow> char \<Rightarrow> nat option" where
  "IndexByte s c =
     (let n = length (takeWhile (\<lambda>x. x \<noteq> c) s) in if n < length s then Some n else None)"

lemma HasPrefix_iff: "HasPrefix s p \<longleftrightarrow> (\<exists>r. s = p @ r)"
  by (metis HasPrefix_def append_eq_conv_conj append_take_drop_id)

lemma HasPrefix_append [simp]: "HasPrefix (p @ r) p"
  by (simp add: HasPrefix_def)

lemma CutPrefix_Some: "CutPrefix s p = Some r \<longleftrightarrow> s = p @ r"
  by (auto simp: CutPrefix_def HasPrefix_def) (metis append_take_drop_id)

lemma length_ToLower [simp]: "length (ToLower s) = length s"
  by (simp add: ToLower_def)

lemma ToLower_append [simp]: "ToLower (s @ t) = ToLower s @ ToLower t"
  by (simp add: ToLower_def)

lemma lower_char_idem [simp]: "lower_char (lower_char c) = lower_char c"
  by (auto simp: lower_char_def Let_def)

lemma ToLower_idem [simp]: "ToLower (ToLower s) = ToLower s"
  by (simp add: ToLower_def)

section \<open>Split, Fields, Join\<close>

text \<open>
  \<open>strings.Split(s, sep)\<close> for a non-empty separator: left to right, matches not
  overlapping. The counter skips the rest of a match.
\<close>

fun split_go :: "string \<Rightarrow> nat \<Rightarrow> string \<Rightarrow> string \<Rightarrow> string list" where
  "split_go sep k acc [] = [rev acc]"
| "split_go sep (Suc k) acc (c # cs) = split_go sep k acc cs"
| "split_go sep 0 acc (c # cs) =
     (if HasPrefix (c # cs) sep then rev acc # split_go sep (length sep - 1) [] cs
      else split_go sep 0 (c # acc) cs)"

definition Split :: "string \<Rightarrow> string \<Rightarrow> string list" where
  "Split s sep = split_go sep 0 [] s"

fun Join :: "string list \<Rightarrow> string \<Rightarrow> string" where
  "Join [] sep = []"
| "Join [x] sep = x"
| "Join (x # y # ys) sep = x @ sep @ Join (y # ys) sep"

fun fields_go :: "(char \<Rightarrow> bool) \<Rightarrow> string \<Rightarrow> string \<Rightarrow> string list" where
  "fields_go p acc [] = (if acc = [] then [] else [rev acc])"
| "fields_go p acc (c # cs) =
     (if p c then (if acc = [] then fields_go p [] cs else rev acc # fields_go p [] cs)
      else fields_go p (c # acc) cs)"

definition FieldsFunc :: "string \<Rightarrow> (char \<Rightarrow> bool) \<Rightarrow> string list" where
  "FieldsFunc s p = fields_go p [] s"

definition Fields :: "string \<Rightarrow> string list" where
  "Fields s = FieldsFunc s is_space"

lemma split_go_nonempty [simp]: "split_go sep k acc s \<noteq> []"
  by (induction sep k acc s rule: split_go.induct) auto

lemma Join_Cons: "ys \<noteq> [] \<Longrightarrow> Join (x # ys) sep = x @ sep @ Join ys sep"
  by (cases ys) auto

lemma Join_split_go:
  assumes "sep \<noteq> []" and "k \<le> length s"
  shows "Join (split_go sep k acc s) sep = rev acc @ drop k s"
  using assms
proof (induction sep k acc s rule: split_go.induct)
  case (3 sep acc c cs)
  show ?case
  proof (cases "HasPrefix (c # cs) sep")
    case True
    then obtain r where r: "c # cs = sep @ r" by (auto simp: HasPrefix_iff)
    have len: "length sep - 1 \<le> length cs"
      using r "3.prems"(1) by (metis Suc_length_conv Suc_eq_plus1 diff_le_mono le_add1 length_Cons
          length_append diff_Suc_1)
    have "drop (length sep - 1) cs = r"
      using r "3.prems"(1) by (cases sep) auto
    with True len "3.IH"(1) "3.prems"(1)
    have "Join (split_go sep 0 acc (c # cs)) sep = rev acc @ sep @ r"
      by (simp add: Join_Cons)
    with r show ?thesis by simp
  next
    case False
    with "3.IH"(2) "3.prems" show ?thesis by simp
  qed
qed auto

lemma Join_Split: "sep \<noteq> [] \<Longrightarrow> Join (Split s sep) sep = s"
  by (simp add: Split_def Join_split_go)

lemma fields_go_sound:
  assumes "f \<in> set (fields_go p acc s)" and "\<forall>c\<in>set acc. \<not> p c"
  shows "f \<noteq> [] \<and> (\<forall>c\<in>set f. \<not> p c)"
  using assms
proof (induction s arbitrary: acc)
  case Nil
  then have "acc \<noteq> [] \<and> f = rev acc" by (cases "acc = []") simp_all
  with Nil(2) show ?case by simp
next
  case (Cons c cs)
  show ?case
  proof (cases "p c")
    case True
    show ?thesis
    proof (cases "acc = []")
      case True
      with \<open>p c\<close> Cons.prems(1) have "f \<in> set (fields_go p [] cs)" by simp
      then show ?thesis by (rule Cons.IH) simp
    next
      case False
      with \<open>p c\<close> Cons.prems(1) have "f = rev acc \<or> f \<in> set (fields_go p [] cs)" by simp
      then show ?thesis
      proof
        assume "f = rev acc"
        with False Cons.prems(2) show ?thesis by simp
      next
        assume "f \<in> set (fields_go p [] cs)"
        then show ?thesis by (rule Cons.IH) simp
      qed
    qed
  next
    case False
    with Cons.prems have "f \<in> set (fields_go p (c # acc) cs)" by simp
    then show ?thesis by (rule Cons.IH) (use False Cons.prems(2) in simp)
  qed
qed

lemma FieldsFunc_sound: "f \<in> set (FieldsFunc s p) \<Longrightarrow> f \<noteq> [] \<and> (\<forall>c\<in>set f. \<not> p c)"
  unfolding FieldsFunc_def using fields_go_sound [of f p "[]" s] by simp

lemma TrimSpace_id: "\<forall>c\<in>set s. \<not> is_space c \<Longrightarrow> TrimSpace s = s"
proof -
  assume s: "\<forall>c\<in>set s. \<not> is_space c"
  have keep: "dropWhile is_space t = t" if "\<forall>c\<in>set t. \<not> is_space c" for t
    using that by (cases t) auto
  have "\<forall>c\<in>set (rev s). \<not> is_space c" using s by simp
  from keep [OF this] keep [OF s] show ?thesis unfolding TrimSpace_def by simp
qed

lemma fields_go_dropWhile: "fields_go p [] (dropWhile p s) = fields_go p [] s"
  by (induction s) auto

lemma fields_go_trailing: "\<forall>c\<in>set t. p c \<Longrightarrow> fields_go p acc (s @ t) = fields_go p acc s"
proof (induction s arbitrary: acc)
  case Nil
  then show ?case
  proof (induction t arbitrary: acc)
    case (Cons c t)
    have "fields_go p [] t = []" using Cons.prems Cons.IH [of "[]"] by simp
    with Cons.prems show ?case by simp
  qed simp
qed simp

lemma Fields_TrimSpace [simp]: "Fields (TrimSpace s) = Fields s"
proof -
  let ?d = "dropWhile is_space s"
  have "?d = TrimSpace s @ rev (takeWhile is_space (rev ?d))"
    unfolding TrimSpace_def by (metis rev_append rev_rev_ident takeWhile_dropWhile_id)
  moreover have "\<forall>c\<in>set (rev (takeWhile is_space (rev ?d))). is_space c"
    by (auto dest: set_takeWhileD)
  ultimately have "fields_go is_space [] ?d = fields_go is_space [] (TrimSpace s)"
    by (metis fields_go_trailing)
  then show ?thesis by (simp add: Fields_def FieldsFunc_def fields_go_dropWhile)
qed

lemma fields_go_word: "\<forall>c\<in>set w. \<not> p c \<Longrightarrow> p c' \<Longrightarrow> acc \<noteq> [] \<or> w \<noteq> [] \<Longrightarrow>
    fields_go p acc (w @ c' # s) = (rev acc @ w) # fields_go p [] s"
  by (induction w arbitrary: acc) auto

lemma Fields_word: "w \<noteq> [] \<Longrightarrow> \<forall>c\<in>set w. \<not> is_space c \<Longrightarrow> Fields (w @ CHR '' '' # s) = w # Fields s"
  using fields_go_word [of w is_space "CHR '' ''" "[]" s]
  by (simp add: Fields_def FieldsFunc_def is_space_def)

section \<open>Numbers in a base\<close>

function digits_of :: "nat \<Rightarrow> nat \<Rightarrow> nat list" where
  "digits_of b n = (if b < 2 \<or> n < b then [n] else digits_of b (n div b) @ [n mod b])"
  by pat_completeness auto
termination
  by (relation "measure snd") auto

declare digits_of.simps [simp del]

definition value_of :: "nat \<Rightarrow> nat list \<Rightarrow> nat" where
  "value_of b ds = foldl (\<lambda>a d. a * b + d) 0 ds"

lemma value_of_snoc [simp]: "value_of b (ds @ [d]) = value_of b ds * b + d"
  by (simp add: value_of_def)

lemma value_of_digits_of: "value_of b (digits_of b n) = n"
proof (induction b n rule: digits_of.induct)
  case (1 b n)
  show ?case
  proof (cases "b < 2 \<or> n < b")
    case True
    then show ?thesis by (subst digits_of.simps) (auto simp: value_of_def)
  next
    case False
    with 1 show ?thesis by (subst digits_of.simps) auto
  qed
qed

lemma digits_of_less: "2 \<le> b \<Longrightarrow> d \<in> set (digits_of b n) \<Longrightarrow> d < b"
proof (induction b n rule: digits_of.induct)
  case (1 b n)
  then show ?case
    by (cases "n < b") (auto simp: digits_of.simps [of b n])
qed

lemma digits_of_nonempty [simp]: "digits_of b n \<noteq> []"
  by (subst digits_of.simps) simp

lemma digits_of_length:
  assumes "2 \<le> b" and "n < b ^ k" and "0 < k"
  shows "length (digits_of b n) \<le> k"
  using assms
proof (induction k arbitrary: n)
  case (Suc k)
  show ?case
  proof (cases "n < b")
    case True
    then show ?thesis by (subst digits_of.simps) simp
  next
    case False
    then have "0 < k" using Suc.prems by (cases k) auto
    have "n div b < b ^ k"
      using Suc.prems by (simp add: less_mult_imp_div_less mult.commute)
    then have "length (digits_of b (n div b)) \<le> k"
      using Suc.IH Suc.prems(1) \<open>0 < k\<close> by simp
    with False Suc.prems(1) show ?thesis by (subst digits_of.simps) simp
  qed
qed simp

lemma digits_of_inj: "digits_of b m = digits_of b n \<Longrightarrow> m = n"
  by (metis value_of_digits_of)

section \<open>Printing and reading integers\<close>

text \<open>The digits Go prints: \<open>0-9\<close>, then \<open>a-z\<close>, then \<open>A-Z\<close> (bases up to 62).\<close>

definition digit_char :: "nat \<Rightarrow> char" where
  "digit_char d = char_of (if d < 10 then d + 48 else if d < 36 then d + 87 else d + 29)"

definition digit_val :: "char \<Rightarrow> nat option" where
  "digit_val c =
     (let n = (of_char c :: nat)
      in if 48 \<le> n \<and> n \<le> 57 then Some (n - 48) else None)"

definition show_base :: "nat \<Rightarrow> nat \<Rightarrow> string" where
  "show_base b n = map digit_char (digits_of b n)"

definition show_nat :: "nat \<Rightarrow> string" where
  "show_nat n = show_base 10 n"

definition Itoa :: "int \<Rightarrow> string" where
  "Itoa i = (if i < 0 then CHR ''-'' # show_nat (nat (- i)) else show_nat (nat i))"

definition int64_max :: int where
  "int64_max = 9223372036854775807"

definition int64_min :: int where
  "int64_min = - 9223372036854775808"

fun read_digits :: "string \<Rightarrow> nat \<Rightarrow> nat option" where
  "read_digits [] a = Some a"
| "read_digits (c # cs) a =
     (case digit_val c of None \<Rightarrow> None | Some d \<Rightarrow> read_digits cs (a * 10 + d))"

definition Atoi :: "string \<Rightarrow> int result" where
  "Atoi s =
     (let bad = Inl (Err (LibErr ''strconv.Atoi'' s));
          neg = (s \<noteq> [] \<and> hd s = CHR ''-'');
          body = (if s \<noteq> [] \<and> (hd s = CHR ''-'' \<or> hd s = CHR ''+'') then tl s else s)
      in if body = [] then bad
         else case read_digits body 0 of
                None \<Rightarrow> bad
              | Some n \<Rightarrow>
                  (let i = (if neg then - int n else int n)
                   in if int64_min \<le> i \<and> i \<le> int64_max then Inr i else bad))"

lemma of_char_digit_char [simp]:
  "d < 62 \<Longrightarrow> (of_char (digit_char d) :: nat) =
     (if d < 10 then d + 48 else if d < 36 then d + 87 else d + 29)"
  by (auto simp: digit_char_def)

lemma digit_char_inj: "d < 62 \<Longrightarrow> e < 62 \<Longrightarrow> digit_char d = digit_char e \<Longrightarrow> d = e"
  by (drule arg_cong [where f = "of_char :: char \<Rightarrow> nat"]) (auto split: if_splits)

lemma digit_val_digit_char [simp]: "d < 10 \<Longrightarrow> digit_val (digit_char d) = Some d"
  by (simp add: digit_val_def)

lemma digit_char_neq_dash [simp]:
  "d < 62 \<Longrightarrow> digit_char d \<noteq> CHR ''-''" "d < 62 \<Longrightarrow> digit_char d \<noteq> CHR ''+''"
  by (auto dest!: arg_cong [where f = "of_char :: char \<Rightarrow> nat"] split: if_splits)

lemma show_base_inj:
  assumes "2 \<le> b" "b \<le> 62" and "show_base b m = show_base b n"
  shows "m = n"
proof -
  have "inj_on digit_char (set (digits_of b m) \<union> set (digits_of b n))"
    using assms(1,2) digits_of_less by (intro inj_onI) (fastforce intro: digit_char_inj)
  with assms(3) have "digits_of b m = digits_of b n"
    unfolding show_base_def by (metis map_injective inj_on_map_eq_map)
  then show ?thesis by (rule digits_of_inj)
qed

lemma show_nat_inj [simp]: "show_nat m = show_nat n \<longleftrightarrow> m = n"
  by (auto simp: show_nat_def dest: show_base_inj [rotated 2])

lemma show_nat_nonempty [simp]: "show_nat n \<noteq> []"
  by (simp add: show_nat_def show_base_def)

lemma show_nat_chars: "c \<in> set (show_nat n) \<Longrightarrow> \<exists>d<10. c = digit_char d"
  by (auto simp: show_nat_def show_base_def dest: digits_of_less [rotated])

lemma show_nat_no_dash [simp]: "CHR ''-'' \<notin> set (show_nat n)" "CHR ''+'' \<notin> set (show_nat n)"
proof -
  have "c \<noteq> CHR ''-'' \<and> c \<noteq> CHR ''+''" if mem: "c \<in> set (show_nat n)" for c
  proof -
    obtain d where "d < 10" "c = digit_char d" using show_nat_chars [OF mem] by blast
    then show ?thesis using digit_char_neq_dash [of d] by simp
  qed
  then show "CHR ''-'' \<notin> set (show_nat n)" "CHR ''+'' \<notin> set (show_nat n)" by blast+
qed

lemma read_digits_snoc:
  "read_digits (s @ [c]) a =
     (case read_digits s a of None \<Rightarrow> None
      | Some v \<Rightarrow> (case digit_val c of None \<Rightarrow> None | Some d \<Rightarrow> Some (v * 10 + d)))"
  by (induction s a rule: read_digits.induct) (auto split: option.splits)

lemma read_digits_show: "\<forall>d\<in>set ds. d < 10 \<Longrightarrow> read_digits (map digit_char ds) 0 = Some (value_of 10 ds)"
  by (induction ds rule: rev_induct) (auto simp: read_digits_snoc value_of_def)

lemma read_digits_show_nat [simp]: "read_digits (show_nat n) 0 = Some n"
proof -
  have "\<forall>d\<in>set (digits_of 10 n). d < 10" using digits_of_less [of 10] by simp
  then show ?thesis
    by (simp add: show_nat_def show_base_def read_digits_show value_of_digits_of)
qed

lemma hd_show_nat [simp]: "hd (show_nat n) \<noteq> CHR ''-''" "hd (show_nat n) \<noteq> CHR ''+''"
  using show_nat_no_dash [of n] by (metis hd_in_set show_nat_nonempty)+

lemma Itoa_inj: "Itoa i = Itoa j \<longleftrightarrow> i = j"
proof -
  have "CHR ''-'' # s \<noteq> show_nat n" for s n
    by (metis hd_show_nat(1) list.sel(1))
  then show ?thesis by (auto simp: Itoa_def) (metis)+
qed

lemma Atoi_Itoa:
  assumes "int64_min \<le> i" "i \<le> int64_max"
  shows "Atoi (Itoa i) = Inr i"
  using assms by (auto simp: Atoi_def Itoa_def Let_def)

lemma Atoi_bounds: "Atoi s = Inr i \<Longrightarrow> int64_min \<le> i \<and> i \<le> int64_max"
  by (auto simp: Atoi_def Let_def split: option.splits if_splits)

lemma Atoi_not_panics [simp]: "\<not> panics (Atoi s)"
  by (auto simp: Atoi_def Let_def split: option.splits)

lemma is_space_digit [simp]: "d < 10 \<Longrightarrow> \<not> is_space (digit_char d)"
  by (simp add: is_space_def digit_char_def Let_def)

lemma TrimSpace_Itoa [simp]: "TrimSpace (Itoa i) = Itoa i"
  by (rule TrimSpace_id) (auto simp: Itoa_def is_space_def dest!: show_nat_chars simp: digit_char_def Let_def)

lemma ToLower_Itoa: "0 \<le> i \<Longrightarrow> ToLower (Itoa i) = Itoa i"
  by (auto simp: Itoa_def ToLower_def lower_char_def Let_def digit_char_def dest!: show_nat_chars
      intro!: map_idI)

text \<open>\<open>%X\<close> of an \<open>int\<close>: upper-case hexadecimal, a minus sign for a negative value.\<close>

definition upper_hex :: "nat \<Rightarrow> char" where
  "upper_hex d = char_of (if d < 10 then d + 48 else d + 55)"

definition show_X :: "int \<Rightarrow> string" where
  "show_X i = (if i < 0 then [CHR ''-''] else []) @ map upper_hex (digits_of 16 (nat \<bar>i\<bar>))"

text \<open>A string that prints a pair of numbers with a dash between them reads back uniquely.\<close>

lemma dash_pair_inj:
  assumes "CHR ''-'' \<notin> set a" "CHR ''-'' \<notin> set c"
    and "a @ CHR ''-'' # b = c @ CHR ''-'' # d"
  shows "a = c \<and> b = d"
  using assms
proof (induction a arbitrary: c)
  case Nil
  then show ?case by (cases c) auto
next
  case (Cons x a)
  then show ?case by (cases c) auto
qed

section \<open>Paths\<close>

text \<open>\<open>filepath.Clean\<close> and \<open>filepath.Join\<close> on Unix.\<close>

fun clean_go :: "bool \<Rightarrow> string list \<Rightarrow> string list \<Rightarrow> string list" where
  "clean_go rooted acc [] = rev acc"
| "clean_go rooted acc (e # es) =
     (if e = [] \<or> e = ''.'' then clean_go rooted acc es
      else if e = ''..'' then
        (case acc of
           [] \<Rightarrow> (if rooted then clean_go rooted [] es else clean_go rooted [''..''] es)
         | a # as \<Rightarrow> (if a = ''..'' then clean_go rooted (''..'' # acc) es else clean_go rooted as es))
      else clean_go rooted (e # acc) es)"

definition Clean :: "string \<Rightarrow> string" where
  "Clean p =
     (let rooted = HasPrefix p ''/''; es = clean_go rooted [] (Split p ''/'')
      in if rooted then CHR ''/'' # Join es ''/''
         else if es = [] then ''.'' else Join es ''/'')"

definition JoinPath :: "string list \<Rightarrow> string" where
  "JoinPath es =
     (let ne = filter (\<lambda>e. e \<noteq> []) es in if ne = [] then [] else Clean (Join ne ''/''))"

end
