(* ===== verification/Go_Regexp.thy ===== *)
theory Go_Regexp
  imports Go_Strings
begin

text \<open>
  The part of Go's \<open>regexp\<close> that the repository uses: a pattern anchored at both ends,
  without captures or flags, so that \<open>MatchString\<close> decides membership in a regular
  language. Matching is by derivatives; \<open>lang\<close> is the meaning of a pattern and
  \<open>matches_iff\<close> says that the matcher decides it.
\<close>

datatype rexp =
    Nul
  | Eps
  | Cls "char \<Rightarrow> bool"
  | Alt rexp rexp
  | Seq rexp rexp
  | Star rexp

fun nullable :: "rexp \<Rightarrow> bool" where
  "nullable Nul = False"
| "nullable Eps = True"
| "nullable (Cls p) = False"
| "nullable (Alt r s) = (nullable r \<or> nullable s)"
| "nullable (Seq r s) = (nullable r \<and> nullable s)"
| "nullable (Star r) = True"

fun deriv :: "char \<Rightarrow> rexp \<Rightarrow> rexp" where
  "deriv c Nul = Nul"
| "deriv c Eps = Nul"
| "deriv c (Cls p) = (if p c then Eps else Nul)"
| "deriv c (Alt r s) = Alt (deriv c r) (deriv c s)"
| "deriv c (Seq r s) =
     (if nullable r then Alt (Seq (deriv c r) s) (deriv c s) else Seq (deriv c r) s)"
| "deriv c (Star r) = Seq (deriv c r) (Star r)"

fun matches :: "rexp \<Rightarrow> string \<Rightarrow> bool" where
  "matches r [] = nullable r"
| "matches r (c # cs) = matches (deriv c r) cs"

definition conc :: "string set \<Rightarrow> string set \<Rightarrow> string set" where
  "conc A B = {a @ b |a b. a \<in> A \<and> b \<in> B}"

primrec lang :: "rexp \<Rightarrow> string set" where
  "lang Nul = {}"
| "lang Eps = {[]}"
| "lang (Cls p) = {[c] |c. p c}"
| "lang (Alt r s) = lang r \<union> lang s"
| "lang (Seq r s) = conc (lang r) (lang s)"
| "lang (Star r) = {concat ws |ws. set ws \<subseteq> lang r}"

lemma in_conc: "w \<in> conc A B \<longleftrightarrow> (\<exists>a b. w = a @ b \<and> a \<in> A \<and> b \<in> B)"
  by (simp add: conc_def)

lemma in_star: "w \<in> lang (Star r) \<longleftrightarrow> (\<exists>ws. w = concat ws \<and> set ws \<subseteq> lang r)"
  by simp

lemma nullable_iff: "nullable r \<longleftrightarrow> [] \<in> lang r"
proof (induction r)
  case (Star r)
  have "[] \<in> lang (Star r)" unfolding in_star by (rule exI [of _ "[]"]) simp
  then show ?case by simp
qed (auto simp: conc_def)

lemma Cons_in_conc:
  "c # w \<in> conc A B \<longleftrightarrow> (\<exists>u v. w = u @ v \<and> c # u \<in> A \<and> v \<in> B) \<or> ([] \<in> A \<and> c # w \<in> B)"
proof
  assume "c # w \<in> conc A B"
  then obtain a b where "c # w = a @ b" "a \<in> A" "b \<in> B" unfolding in_conc by blast
  then show "(\<exists>u v. w = u @ v \<and> c # u \<in> A \<and> v \<in> B) \<or> ([] \<in> A \<and> c # w \<in> B)"
    by (cases a) auto
next
  assume "(\<exists>u v. w = u @ v \<and> c # u \<in> A \<and> v \<in> B) \<or> ([] \<in> A \<and> c # w \<in> B)"
  then have "\<exists>a b. c # w = a @ b \<and> a \<in> A \<and> b \<in> B"
    by (metis append_Cons append_Nil)
  then show "c # w \<in> conc A B" unfolding in_conc .
qed

lemma Cons_in_star:
  "c # w \<in> lang (Star r) \<longleftrightarrow> (\<exists>u v. w = u @ v \<and> c # u \<in> lang r \<and> v \<in> lang (Star r))"
proof
  assume "c # w \<in> lang (Star r)"
  then obtain ws where ws: "c # w = concat ws" "set ws \<subseteq> lang r" by auto
  then show "\<exists>u v. w = u @ v \<and> c # u \<in> lang r \<and> v \<in> lang (Star r)"
  proof (induction ws)
    case (Cons x ws)
    show ?case
    proof (cases x)
      case Nil
      with Cons show ?thesis by simp
    next
      case (Cons d u)
      with Cons.prems have "w = u @ concat ws" "c # u \<in> lang r" "set ws \<subseteq> lang r" by auto
      then show ?thesis by auto
    qed
  qed simp
next
  assume "\<exists>u v. w = u @ v \<and> c # u \<in> lang r \<and> v \<in> lang (Star r)"
  then obtain u ws where "w = u @ concat ws" "c # u \<in> lang r" "set ws \<subseteq> lang r" by auto
  then have "c # w = concat ((c # u) # ws)" "set ((c # u) # ws) \<subseteq> lang r" by auto
  then show "c # w \<in> lang (Star r)" unfolding in_star by blast
qed

lemma deriv_iff: "w \<in> lang (deriv c r) \<longleftrightarrow> c # w \<in> lang r"
proof (induction r arbitrary: w)
  case (Seq r s)
  then show ?case by (auto simp: Cons_in_conc nullable_iff) (auto simp: conc_def)
next
  case (Star r)
  have "w \<in> lang (deriv c (Star r)) \<longleftrightarrow> (\<exists>u v. w = u @ v \<and> c # u \<in> lang r \<and> v \<in> lang (Star r))"
    using Star.IH by (auto simp: conc_def)
  then show ?case by (simp only: Cons_in_star)
qed auto

lemma matches_iff: "matches r s \<longleftrightarrow> s \<in> lang r"
  by (induction r s rule: matches.induct) (simp_all add: nullable_iff deriv_iff)

section \<open>The operators of the pattern syntax\<close>

abbreviation Lit :: "char \<Rightarrow> rexp" where
  "Lit c \<equiv> Cls (\<lambda>x. x = c)"

abbreviation Opt :: "rexp \<Rightarrow> rexp" where
  "Opt r \<equiv> Alt Eps r"

text \<open>\<open>r{1,2}\<close>.\<close>

abbreviation OneTwo :: "rexp \<Rightarrow> rexp" where
  "OneTwo r \<equiv> Seq r (Opt r)"

definition is_digit :: "char \<Rightarrow> bool" where
  "is_digit c = (let n = (of_char c :: nat) in 48 \<le> n \<and> n \<le> 57)"

definition is_lower :: "char \<Rightarrow> bool" where
  "is_lower c = (let n = (of_char c :: nat) in 97 \<le> n \<and> n \<le> 122)"

definition is_alnum :: "char \<Rightarrow> bool" where
  "is_alnum c = (let n = (of_char c :: nat)
     in (48 \<le> n \<and> n \<le> 57) \<or> (65 \<le> n \<and> n \<le> 90) \<or> (97 \<le> n \<and> n \<le> 122))"

text \<open>The interface module SR-SIM uses: \<open>^e\d{1,2}((-[a-z]\d{1,2})?-\d{1,2}){1,2}$\<close> (srsim.go).\<close>

definition srsimPortRegex :: rexp where
  "srsimPortRegex =
     Seq (Lit (CHR ''e''))
       (Seq (OneTwo (Cls is_digit))
         (OneTwo
           (Seq (Opt (Seq (Lit (CHR ''-'')) (Seq (Cls is_lower) (OneTwo (Cls is_digit)))))
             (Seq (Lit (CHR ''-'')) (OneTwo (Cls is_digit))))))"

text \<open>\<open>fqdnRegex\<close> of common.go: labels of letters, digits and inner hyphens, joined by dots.\<close>

definition fqdnLabel :: rexp where
  "fqdnLabel =
     Alt (Cls is_alnum)
       (Seq (Cls is_alnum) (Seq (Star (Cls (\<lambda>c. is_alnum c \<or> c = CHR ''-''))) (Cls is_alnum)))"

definition fqdnRegex :: rexp where
  "fqdnRegex = Seq (Star (Seq fqdnLabel (Lit (CHR ''.'')))) fqdnLabel"

section \<open>What the FQDN pattern accepts\<close>

definition good_label :: "string \<Rightarrow> bool" where
  "good_label l \<longleftrightarrow>
     l \<noteq> [] \<and> is_alnum (hd l) \<and> is_alnum (last l) \<and> (\<forall>c\<in>set l. is_alnum c \<or> c = CHR ''-'')"

lemma lang_Star_Cls: "lang (Star (Cls p)) = {w. \<forall>c\<in>set w. p c}"
proof -
  have "concat ws \<in> {w. \<forall>c\<in>set w. p c}" if "set ws \<subseteq> lang (Cls p)" for ws
    using that by (induction ws) auto
  moreover have "w \<in> lang (Star (Cls p))" if "\<forall>c\<in>set w. p c" for w
  proof -
    have "concat (map (\<lambda>c. [c]) w) = w" by (induction w) auto
    moreover have "set (map (\<lambda>c. [c]) w) \<subseteq> lang (Cls p)" using that by auto
    ultimately show ?thesis unfolding in_star by metis
  qed
  ultimately show ?thesis by (auto simp del: lang.simps(3))
qed

lemma lang_fqdnLabel: "l \<in> lang fqdnLabel \<longleftrightarrow> good_label l"
proof
  assume "l \<in> lang fqdnLabel"
  then consider c where "l = [c]" "is_alnum c"
    | a w b where "l = a # w @ [b]" "is_alnum a" "is_alnum b" "w \<in> lang (Star (Cls (\<lambda>c. is_alnum c \<or> c = CHR ''-'')))"
    unfolding fqdnLabel_def by (auto simp: conc_def simp del: lang.simps(6))
  then show "good_label l"
    by cases (auto simp: good_label_def lang_Star_Cls simp del: lang.simps(6))
next
  assume l: "good_label l"
  show "l \<in> lang fqdnLabel"
  proof (cases "tl l")
    case Nil
    with l obtain c where "l = [c]" "is_alnum c" by (cases l) (auto simp: good_label_def)
    then show ?thesis by (simp add: fqdnLabel_def)
  next
    case (Cons y ys)
    with l obtain a where a: "l = a # tl l" "is_alnum a" by (cases l) (auto simp: good_label_def)
    define w where "w = butlast (tl l)"
    define b where "b = last (tl l)"
    have tl: "tl l = w @ [b]" using Cons by (simp add: w_def b_def)
    have "is_alnum b" using l a Cons tl by (metis b_def good_label_def last.simps list.discI)
    moreover have "\<forall>c\<in>set w. is_alnum c \<or> c = CHR ''-''"
      using l a(1) tl unfolding good_label_def by (metis Un_iff set_append set_subset_Cons subset_iff)
    then have "w \<in> lang (Star (Cls (\<lambda>c. is_alnum c \<or> c = CHR ''-'')))"
      by (simp add: lang_Star_Cls del: lang.simps)
    ultimately have "l = [a] @ w @ [b] \<and> [a] \<in> lang (Cls is_alnum) \<and> [b] \<in> lang (Cls is_alnum) \<and>
        w \<in> lang (Star (Cls (\<lambda>c. is_alnum c \<or> c = CHR ''-'')))"
      using a tl by simp
    then show ?thesis
      unfolding fqdnLabel_def lang.simps(4,5) conc_def by blast
  qed
qed

lemma good_label_no_dot: "good_label l \<Longrightarrow> CHR ''.'' \<notin> set l"
  by (auto simp: good_label_def is_alnum_def)

lemma Join_dots: "concat (map (\<lambda>w. w @ ''.'') ls) @ l = Join (ls @ [l]) ''.''"
  by (induction ls) (auto simp: Join_Cons)

lemma lang_Star_Seq:
  "w \<in> lang (Star (Seq r (Lit c))) \<longleftrightarrow>
     (\<exists>ls. set ls \<subseteq> lang r \<and> w = concat (map (\<lambda>x. x @ [c]) ls))"
proof
  assume "w \<in> lang (Star (Seq r (Lit c)))"
  then obtain ws where ws: "w = concat ws" "set ws \<subseteq> lang (Seq r (Lit c))" by auto
  from ws(2) have "\<exists>ls. set ls \<subseteq> lang r \<and> concat ws = concat (map (\<lambda>x. x @ [c]) ls)"
  proof (induction ws)
    case (Cons x ws)
    then obtain ls a where "set ls \<subseteq> lang r" "concat ws = concat (map (\<lambda>x. x @ [c]) ls)"
      "x = a @ [c]" "a \<in> lang r" by (auto simp: conc_def)
    then show ?case by (intro exI [of _ "a # ls"]) auto
  qed simp
  with ws(1) show "\<exists>ls. set ls \<subseteq> lang r \<and> w = concat (map (\<lambda>x. x @ [c]) ls)" by simp
next
  assume "\<exists>ls. set ls \<subseteq> lang r \<and> w = concat (map (\<lambda>x. x @ [c]) ls)"
  then obtain ls where "set ls \<subseteq> lang r" "w = concat (map (\<lambda>x. x @ [c]) ls)" by blast
  moreover have "set (map (\<lambda>x. x @ [c]) ls) \<subseteq> lang (Seq r (Lit c))"
    using calculation(1) by (auto simp: conc_def)
  ultimately show "w \<in> lang (Star (Seq r (Lit c)))" unfolding in_star by blast
qed

text \<open>
  The pattern accepts exactly the dot-joined non-empty lists of good labels. A single label is
  enough, and no bound is put on a label's length.
\<close>

lemma lang_fqdnRegex: "w \<in> lang fqdnRegex \<longleftrightarrow> (\<exists>ls. ls \<noteq> [] \<and> list_all good_label ls \<and> w = Join ls ''.'')"
proof
  assume "w \<in> lang fqdnRegex"
  then obtain u l where "w = u @ l" "u \<in> lang (Star (Seq fqdnLabel (Lit (CHR ''.''))))" "l \<in> lang fqdnLabel"
    unfolding fqdnRegex_def lang.simps(5) conc_def by blast
  then obtain ls where "set ls \<subseteq> lang fqdnLabel" "w = concat (map (\<lambda>x. x @ ''.'') ls) @ l" "l \<in> lang fqdnLabel"
    unfolding lang_Star_Seq by blast
  then have "list_all good_label (ls @ [l])" "w = Join (ls @ [l]) ''.''"
    by (auto simp: list_all_iff lang_fqdnLabel Join_dots)
  then show "\<exists>ls. ls \<noteq> [] \<and> list_all good_label ls \<and> w = Join ls ''.''" by blast
next
  assume "\<exists>ls. ls \<noteq> [] \<and> list_all good_label ls \<and> w = Join ls ''.''"
  then obtain ls where ls: "ls \<noteq> []" "list_all good_label ls" "w = Join ls ''.''" by blast
  obtain ks l where k: "ls = ks @ [l]" using ls(1) by (metis rev_exhaust)
  have "w = concat (map (\<lambda>x. x @ ''.'') ks) @ l" using ls(3) k by (simp add: Join_dots)
  moreover have "concat (map (\<lambda>x. x @ ''.'') ks) \<in> lang (Star (Seq fqdnLabel (Lit (CHR ''.''))))"
    unfolding lang_Star_Seq using ls(2) k
    by (intro exI [of _ ks]) (auto simp: list_all_iff lang_fqdnLabel)
  moreover have "l \<in> lang fqdnLabel" using ls(2) k by (simp add: lang_fqdnLabel)
  ultimately show "w \<in> lang fqdnRegex" unfolding fqdnRegex_def lang.simps(5) conc_def by blast
qed

end
