(* ===== verification/Go_Net.thy ===== *)
theory Go_Net
  imports Go_Regexp "HOL-Library.Word"
begin

text \<open>
  The parsers of Go's \<open>net\<close> and \<open>net/netip\<close> packages that the validators rely on, with
  the control flow of the standard library (Go 1.25): \<open>netip.ParseAddr\<close>,
  \<open>netip.ParsePrefix\<close>, \<open>net.ParseIP\<close>, \<open>net.ParseMAC\<close>, \<open>net.SplitHostPort\<close> and
  \<open>HardwareAddr.String\<close>. The octets of an address are kept as natural numbers below
  256; a hardware address is a list of bytes.
\<close>

section \<open>IP addresses\<close>

datatype addr = V4 "nat list" | V6 "nat list" string

definition Is4 :: "addr \<Rightarrow> bool" where
  "Is4 a = (case a of V4 _ \<Rightarrow> True | V6 _ _ \<Rightarrow> False)"

definition Is4In6 :: "addr \<Rightarrow> bool" where
  "Is4In6 a = (case a of V4 _ \<Rightarrow> False | V6 b _ \<Rightarrow> take 12 b = replicate 10 0 @ [255, 255])"

definition IsMulticast :: "addr \<Rightarrow> bool" where
  "IsMulticast a =
     (case a of
        V4 b \<Rightarrow> hd b div 16 = 14
      | V6 b _ \<Rightarrow> if Is4In6 a then (b ! 12) div 16 = 14 else hd b = 255)"

definition wf_addr :: "addr \<Rightarrow> bool" where
  "wf_addr a = (case a of V4 b \<Rightarrow> length b = 4 \<and> list_all (\<lambda>x. x < 256) b
                        | V6 b _ \<Rightarrow> length b = 16 \<and> list_all (\<lambda>x. x < 256) b)"

text \<open>
  \<open>parseIPv4Fields\<close>: the loop over the string with the value and digit count of the current
  octet and the octets already stored. The last argument says whether the previous character
  was a dot (or there was none), which is where a field has no digit.
\<close>

fun ip4_go :: "string \<Rightarrow> nat \<Rightarrow> nat \<Rightarrow> nat list \<Rightarrow> bool \<Rightarrow> nat list option" where
  "ip4_go [] val digLen fs atDot = (if length fs < 3 then None else Some (fs @ [val]))"
| "ip4_go (c # cs) val digLen fs atDot =
     (case digit_val c of
        Some d \<Rightarrow>
          if digLen = 1 \<and> val = 0 then None
          else if val * 10 + d > 255 then None
          else ip4_go cs (val * 10 + d) (digLen + 1) fs False
      | None \<Rightarrow>
          if c = CHR ''.'' then
            if atDot \<or> cs = [] then None
            else if length fs = 3 then None
            else ip4_go cs 0 0 (fs @ [val]) True
          else None)"

definition parseIPv4Fields :: "string \<Rightarrow> nat list option" where
  "parseIPv4Fields s = ip4_go s 0 0 [] True"

definition hex_val :: "char \<Rightarrow> nat option" where
  "hex_val c = (let n = (of_char c :: nat)
     in if 48 \<le> n \<and> n \<le> 57 then Some (n - 48)
        else if 97 \<le> n \<and> n \<le> 102 then Some (n - 87)
        else if 65 \<le> n \<and> n \<le> 70 then Some (n - 55) else None)"

definition hex_number :: "string \<Rightarrow> nat" where
  "hex_number s = foldl (\<lambda>a c. a * 16 + the (hex_val c)) 0 s"

text \<open>
  One round of the loop of \<open>parseIPv6\<close>: a hexadecimal group, or the embedded dotted quad,
  and the colon after it. It fails, ends the loop, or leaves the rest of the string, the
  octets and the place of the ellipsis for the next round.
\<close>

datatype ip6_round = Bad | Stop "nat list" "nat option" | More string "nat list" "nat option"

definition ip6_group :: "string \<Rightarrow> nat list \<Rightarrow> nat option \<Rightarrow> ip6_round" where
  "ip6_group s ip ell =
     (let ds = takeWhile (\<lambda>c. hex_val c \<noteq> None) s; off = length ds; s1 = drop off s
      in if off > 4 \<or> off = 0 then Bad
         else if s1 \<noteq> [] \<and> hd s1 = CHR ''.'' then
           if ell = None \<and> length ip \<noteq> 12 then Bad
           else if length ip + 4 > 16 then Bad
           else (case parseIPv4Fields s of None \<Rightarrow> Bad | Some b \<Rightarrow> Stop (ip @ b) ell)
         else
           let v = hex_number ds; ip' = ip @ [v div 256, v mod 256]
           in if s1 = [] then Stop ip' ell
              else if hd s1 \<noteq> CHR '':'' then Bad
              else if tl s1 = [] then Bad
              else if hd (tl s1) = CHR '':'' then
                if ell \<noteq> None then Bad
                else if tl (tl s1) = [] then Stop ip' (Some (length ip'))
                else More (tl (tl s1)) ip' (Some (length ip'))
              else More (tl s1) ip' ell)"

text \<open>The loop, with the number of 16-bit groups that still fit as the recursion argument.\<close>

fun ip6_go :: "nat \<Rightarrow> string \<Rightarrow> nat list \<Rightarrow> nat option \<Rightarrow> (string \<times> nat list \<times> nat option) option" where
  "ip6_go 0 s ip ell = Some (s, ip, ell)"
| "ip6_go (Suc k) s ip ell =
     (case ip6_group s ip ell of
        Bad \<Rightarrow> None
      | Stop ip' ell' \<Rightarrow> Some ([], ip', ell')
      | More s' ip' ell' \<Rightarrow> ip6_go k s' ip' ell')"

lemma ip6_go_numeral:
  "ip6_go (numeral n) s ip ell =
     (case ip6_group s ip ell of
        Bad \<Rightarrow> None
      | Stop ip' ell' \<Rightarrow> Some ([], ip', ell')
      | More s' ip' ell' \<Rightarrow> ip6_go (pred_numeral n) s' ip' ell')"
  by (simp add: numeral_eq_Suc)

definition parseIPv6 :: "string \<Rightarrow> addr option" where
  "parseIPv6 inp =
     (let s0 = takeWhile (\<lambda>c. c \<noteq> CHR ''%'') inp; hasZone = length s0 < length inp;
          zone = drop (length s0 + 1) inp
      in if hasZone \<and> zone = [] then None
         else
           let lead = HasPrefix s0 ''::''; s = (if lead then drop 2 s0 else s0)
           in if lead \<and> s = [] then Some (V6 (replicate 16 0) zone)
              else case ip6_go 8 s [] (if lead then Some 0 else None) of
                     None \<Rightarrow> None
                   | Some (rest, ip, ell) \<Rightarrow>
                       if rest \<noteq> [] then None
                       else if length ip < 16 then
                         (case ell of None \<Rightarrow> None
                          | Some e \<Rightarrow>
                              Some (V6 (take e ip @ replicate (16 - length ip) 0 @ drop e ip) zone))
                       else if ell \<noteq> None then None
                       else Some (V6 ip zone))"

definition ParseAddr :: "string \<Rightarrow> addr result" where
  "ParseAddr s =
     (let bad = Inl (Err (LibErr ''netip.ParseAddr'' s));
          rest = dropWhile (\<lambda>c. c \<noteq> CHR ''.'' \<and> c \<noteq> CHR '':'' \<and> c \<noteq> CHR ''%'') s
      in case rest of
           [] \<Rightarrow> bad
         | c # _ \<Rightarrow>
             if c = CHR ''.'' then (case parseIPv4Fields s of None \<Rightarrow> bad | Some b \<Rightarrow> Inr (V4 b))
             else if c = CHR '':'' then (case parseIPv6 s of None \<Rightarrow> bad | Some a \<Rightarrow> Inr a)
             else bad)"

definition MustParseAddr :: "string \<Rightarrow> addr result" where
  "MustParseAddr s = (case ParseAddr s of Inl _ \<Rightarrow> Inl (Panic ''netip.MustParseAddr'') | Inr a \<Rightarrow> Inr a)"

definition ParseIP :: "string \<Rightarrow> addr option" where
  "ParseIP s =
     (case ParseAddr s of Inl _ \<Rightarrow> None
      | Inr a \<Rightarrow> (case a of V6 _ z \<Rightarrow> if z \<noteq> [] then None else Some a | V4 _ \<Rightarrow> Some a))"

text \<open>\<open>LastIndexByte\<close>: the parts before and after the last occurrence.\<close>

definition cut_last :: "char \<Rightarrow> string \<Rightarrow> (string \<times> string) option" where
  "cut_last c s =
     (let after = takeWhile (\<lambda>x. x \<noteq> c) (rev s)
      in if length after = length s then None
         else Some (take (length s - length after - 1) s, rev after))"

type_synonym prefix = "addr \<times> int"

definition ParsePrefix :: "string \<Rightarrow> prefix result" where
  "ParsePrefix s =
     (let bad = Inl (Err (LibErr ''netip.ParsePrefix'' s))
      in case cut_last (CHR ''/'') s of
           None \<Rightarrow> bad
         | Some (ipStr, bitsStr) \<Rightarrow>
             (case ParseAddr ipStr of
                Inl _ \<Rightarrow> bad
              | Inr ip \<Rightarrow>
                  if (case ip of V4 _ \<Rightarrow> False | V6 _ z \<Rightarrow> z \<noteq> []) then bad
                  else if length bitsStr > 1 \<and>
                    ((of_char (hd bitsStr) :: nat) < 49 \<or> (of_char (hd bitsStr) :: nat) > 57) then bad
                  else (case Atoi bitsStr of
                          Inl _ \<Rightarrow> bad
                        | Inr bits \<Rightarrow>
                            if bits < 0 \<or> bits > (if Is4 ip then 32 else 128) then bad
                            else Inr (ip, bits))))"

definition MustParsePrefix :: "string \<Rightarrow> prefix result" where
  "MustParsePrefix s =
     (case ParsePrefix s of Inl _ \<Rightarrow> Inl (Panic ''netip.MustParsePrefix'') | Inr p \<Rightarrow> Inr p)"

definition prefix_IsValid :: "prefix \<Rightarrow> bool" where
  "prefix_IsValid p \<longleftrightarrow> 0 \<le> snd p \<and> snd p \<le> (if Is4 (fst p) then 32 else 128)"

lemma ip4_go_wf:
  "ip4_go s val dl fs atDot = Some b \<Longrightarrow> val < 256 \<Longrightarrow> length fs \<le> 3 \<Longrightarrow> list_all (\<lambda>x. x < 256) fs \<Longrightarrow>
     length b = 4 \<and> list_all (\<lambda>x. x < 256) b"
  by (induction s val dl fs atDot rule: ip4_go.induct) (auto split: if_splits option.splits)

lemma parseIPv4Fields_wf:
  "parseIPv4Fields s = Some b \<Longrightarrow> length b = 4 \<and> list_all (\<lambda>x. x < 256) b"
  unfolding parseIPv4Fields_def by (rule ip4_go_wf) auto

text \<open>Characters of a dotted-quad: digits and dots only.\<close>

lemma ip4_go_chars: "ip4_go s val dl fs atDot = Some b \<Longrightarrow> c \<in> set s \<Longrightarrow> digit_val c \<noteq> None \<or> c = CHR ''.''"
  by (induction s val dl fs atDot rule: ip4_go.induct) (auto split: if_splits option.splits)

text \<open>The octets and the place of the ellipsis stay in range.\<close>

definition ip6_inv :: "nat list \<Rightarrow> nat option \<Rightarrow> bool" where
  "ip6_inv ip ell \<longleftrightarrow> length ip \<le> 16 \<and> list_all (\<lambda>x. x < 256) ip \<and> (\<forall>e. ell = Some e \<longrightarrow> e \<le> length ip)"

lemma hex_val_less: "hex_val c = Some d \<Longrightarrow> d < 16"
  by (auto simp: hex_val_def Let_def split: if_splits)

lemma hex_number_snoc: "hex_number (s @ [c]) = hex_number s * 16 + the (hex_val c)"
  by (simp add: hex_number_def)

lemma hex_number_less: "list_all (\<lambda>c. hex_val c \<noteq> None) s \<Longrightarrow> hex_number s < 16 ^ length s"
proof (induction s rule: rev_induct)
  case Nil
  then show ?case by (simp add: hex_number_def)
next
  case (snoc c s)
  then obtain d where "hex_val c = Some d" "d < 16" by (auto dest: hex_val_less)
  with snoc show ?case by (auto simp: hex_number_snoc)
qed

lemma hex_group_less:
  assumes "length (takeWhile (\<lambda>c. hex_val c \<noteq> None) s) \<le> 4"
  shows "hex_number (takeWhile (\<lambda>c. hex_val c \<noteq> None) s) div 256 < 256"
proof -
  have "hex_number (takeWhile (\<lambda>c. hex_val c \<noteq> None) s) < 16 ^ length (takeWhile (\<lambda>c. hex_val c \<noteq> None) s)"
    by (rule hex_number_less) (auto simp: list_all_iff dest: set_takeWhileD)
  also have "(16::nat) ^ length (takeWhile (\<lambda>c. hex_val c \<noteq> None) s) \<le> 16 ^ 4"
    using assms by (rule power_increasing) simp
  finally show ?thesis by simp
qed

lemma ip6_group_Stop:
  assumes "ip6_group s ip ell = Stop ip' ell'" and "ip6_inv ip ell" and "length ip \<le> 14"
  shows "ip6_inv ip' ell'"
  using assms hex_group_less [of s] parseIPv4Fields_wf [of s]
  unfolding ip6_group_def ip6_inv_def Let_def
  by (simp split: if_split_asm option.split_asm) (auto simp: list_all_iff)

lemma ip6_group_More:
  assumes "ip6_group s ip ell = More s' ip' ell'" and "ip6_inv ip ell" and "length ip \<le> 14"
  shows "ip6_inv ip' ell' \<and> length ip' = length ip + 2"
  using assms hex_group_less [of s]
  unfolding ip6_group_def ip6_inv_def Let_def
  by (simp split: if_split_asm option.split_asm) auto

lemma ip6_go_inv:
  "ip6_go k s ip ell = Some (r, ip', ell') \<Longrightarrow> ip6_inv ip ell \<Longrightarrow> length ip + 2 * k = 16 \<Longrightarrow> ip6_inv ip' ell'"
proof (induction k s ip ell rule: ip6_go.induct)
  case (2 k s ip ell)
  then have len: "length ip \<le> 14" by simp
  show ?case
  proof (cases "ip6_group s ip ell")
    case Bad
    with "2.prems" show ?thesis by simp
  next
    case (Stop a b)
    with "2.prems" len show ?thesis by (auto dest: ip6_group_Stop)
  next
    case (More a b c)
    with "2.prems" len have "ip6_inv b c \<and> length b = length ip + 2" by (auto dest: ip6_group_More)
    with More "2.IH" [OF More] "2.prems" show ?thesis by simp
  qed
qed simp

lemma parseIPv6_wf: "parseIPv6 s = Some a \<Longrightarrow> wf_addr a"
proof -
  have inv0: "ip6_inv [] None" "ip6_inv [] (Some 0)" by (simp_all add: ip6_inv_def)
  have fill: "wf_addr (V6 (take e ip @ replicate (16 - length ip) 0 @ drop e ip) z)"
    if "ip6_inv ip (Some e)" for e ip z
    using that by (auto simp: ip6_inv_def wf_addr_def list_all_iff dest: in_set_takeD in_set_dropD)
  have full: "wf_addr (V6 ip z)" if "ip6_inv ip ell" "\<not> length ip < 16" for ip ell z
    using that by (auto simp: ip6_inv_def wf_addr_def)
  have zero: "wf_addr (V6 (replicate 16 0) z)" for z by (simp add: wf_addr_def list_all_iff)
  assume "parseIPv6 s = Some a"
  then show "wf_addr a"
    unfolding parseIPv6_def Let_def
    by (auto split: if_split_asm option.split_asm intro!: zero fill full [rotated]
        dest!: ip6_go_inv simp: inv0)
qed

lemma ParseAddr_wf: "ParseAddr s = Inr a \<Longrightarrow> wf_addr a"
  by (auto simp: ParseAddr_def Let_def wf_addr_def [of "V4 _"] dest: parseIPv4Fields_wf
      intro: parseIPv6_wf split: list.split_asm if_split_asm option.split_asm)

lemma ParsePrefix_valid: "ParsePrefix s = Inr p \<Longrightarrow> prefix_IsValid p \<and> wf_addr (fst p)"
  by (auto simp: ParsePrefix_def Let_def prefix_IsValid_def dest: ParseAddr_wf
      split: option.split_asm sum.split_asm if_split_asm prod.split_asm)

text \<open>
  An address text without a zone has only hexadecimal digits, colons and dots. So what
  \<open>ParsePrefix\<close> accepts, which has a slash, \<open>ParseAddr\<close> refuses.
\<close>

definition addr_char :: "char \<Rightarrow> bool" where
  "addr_char c \<longleftrightarrow> hex_val c \<noteq> None \<or> c = CHR '':'' \<or> c = CHR ''.''"

lemma digit_is_hex: "digit_val c \<noteq> None \<Longrightarrow> hex_val c \<noteq> None"
  by (auto simp: digit_val_def hex_val_def Let_def split: if_splits)

lemma parseIPv4Fields_chars: "parseIPv4Fields s = Some b \<Longrightarrow> c \<in> set s \<Longrightarrow> addr_char c"
  unfolding parseIPv4Fields_def addr_char_def using ip4_go_chars digit_is_hex by blast

lemma hex_run_split: "\<exists>ds. s = ds @ drop (length (takeWhile (\<lambda>c. hex_val c \<noteq> None) s)) s \<and> (\<forall>c\<in>set ds. addr_char c)"
  by (intro exI [of _ "takeWhile (\<lambda>c. hex_val c \<noteq> None) s"] conjI)
     (auto simp: addr_char_def dropWhile_eq_drop [symmetric] dest: set_takeWhileD)

lemma ip6_group_Stop_chars:
  assumes "ip6_group s ip ell = Stop ip' ell'" and "c \<in> set s"
  shows "addr_char c"
proof -
  let ?r = "drop (length (takeWhile (\<lambda>c. hex_val c \<noteq> None) s)) s"
  obtain ds where ds: "s = ds @ ?r" "\<forall>c\<in>set ds. addr_char c" using hex_run_split [of s] by blast
  show ?thesis
  proof (cases "?r \<noteq> [] \<and> hd ?r = CHR ''.''")
    case True
    with assms(1) obtain b where "parseIPv4Fields s = Some b"
      unfolding ip6_group_def Let_def by (auto split: if_split_asm option.split_asm)
    with assms(2) show ?thesis by (rule parseIPv4Fields_chars [rotated])
  next
    case False
    with assms(1) have "?r = [] \<or> ?r = ''::''"
      unfolding ip6_group_def Let_def
      by (cases ?r; cases "tl ?r"; cases "tl (tl ?r)") (simp_all split: if_split_asm)
    then have "c \<in> set ds \<or> c = CHR '':''" using assms(2) ds(1) by (metis Un_iff empty_iff empty_set list.set_intros(1) set_ConsD set_append append_Nil2)
    with ds(2) show ?thesis by (auto simp: addr_char_def)
  qed
qed

lemma ip6_group_More_chars:
  assumes "ip6_group s ip ell = More s' ip' ell'"
  shows "\<exists>p. s = p @ s' \<and> (\<forall>c\<in>set p. addr_char c)"
proof -
  let ?r = "drop (length (takeWhile (\<lambda>c. hex_val c \<noteq> None) s)) s"
  obtain ds where ds: "s = ds @ ?r" "\<forall>c\<in>set ds. addr_char c" using hex_run_split [of s] by blast
  from assms have "?r = CHR '':'' # s' \<or> ?r = CHR '':'' # CHR '':'' # s'"
    unfolding ip6_group_def Let_def
    by (cases ?r; cases "tl ?r") (auto split: if_split_asm option.split_asm)
  moreover have "addr_char (CHR '':'')" by (simp add: addr_char_def)
  ultimately have "?r = ['':'' ! 0] @ s' \<or> ?r = ''::'' @ s'" "\<forall>c\<in>set ''::''. addr_char c" by auto
  then obtain q where q: "?r = q @ s'" "\<forall>c\<in>set q. addr_char c"
    by (elim disjE) (force intro: that [of "'':''"], force intro: that [of "''::''"])
  have "s = (ds @ q) @ s'" using ds(1) q(1) by simp
  with ds(2) q(2) show ?thesis by (intro exI [of _ "ds @ q"]) auto
qed

lemma ip6_go_chars: "ip6_go k s ip ell = Some ([], ip', ell') \<Longrightarrow> c \<in> set s \<Longrightarrow> addr_char c"
proof (induction k s ip ell rule: ip6_go.induct)
  case (2 k s ip ell)
  show ?case
  proof (cases "ip6_group s ip ell")
    case Bad
    with "2.prems" show ?thesis by simp
  next
    case (Stop a b)
    with "2.prems"(2) show ?thesis by (rule ip6_group_Stop_chars [rotated])
  next
    case (More a b d)
    from ip6_group_More_chars [OF More] obtain p where p: "s = p @ a" "\<forall>c\<in>set p. addr_char c" by blast
    from "2.prems" More p "2.IH" [OF More] show ?thesis by auto
  qed
qed simp

lemma parseIPv6_go:
  assumes "parseIPv6 s = Some a" and "CHR ''%'' \<notin> set s"
  shows "s = ''::'' \<or> (\<exists>e ip ell. ip6_go 8 (if HasPrefix s ''::'' then drop 2 s else s) [] e = Some ([], ip, ell))"
proof -
  have tw: "takeWhile (\<lambda>c. c \<noteq> CHR ''%'') s = s" using assms(2) by (auto simp: takeWhile_eq_all_conv)
  let ?r = "if HasPrefix s ''::'' then drop 2 s else s"
  let ?e = "if HasPrefix s ''::'' then Some 0 else None"
  show ?thesis
  proof (cases "HasPrefix s ''::'' \<and> ?r = []")
    case True
    then obtain r where "s = ''::'' @ r" "drop 2 s = []" by (auto simp: HasPrefix_iff)
    then show ?thesis by simp
  next
    case False
    from assms(1) have "(case ip6_go 8 ?r [] ?e of None \<Rightarrow> None
        | Some (rest, ip, ell) \<Rightarrow>
            if rest \<noteq> [] then None
            else if length ip < 16 then
              (case ell of None \<Rightarrow> None
               | Some e \<Rightarrow> Some (V6 (take e ip @ replicate (16 - length ip) 0 @ drop e ip) (drop (length s + 1) s)))
            else if ell \<noteq> None then None else Some (V6 ip (drop (length s + 1) s))) = Some a"
      unfolding parseIPv6_def Let_def tw if_not_P [OF False] by simp
    then obtain ip ell where "ip6_go 8 ?r [] ?e = Some ([], ip, ell)"
      by (cases "ip6_go 8 ?r [] ?e") (auto split: if_split_asm)
    then show ?thesis by blast
  qed
qed

lemma parseIPv6_chars:
  assumes "parseIPv6 s = Some a" and "CHR ''%'' \<notin> set s" and "c \<in> set s"
  shows "addr_char c"
proof -
  have colon: "addr_char (CHR '':'')" by (simp add: addr_char_def)
  from parseIPv6_go [OF assms(1,2)] show ?thesis
  proof (elim disjE exE)
    assume "s = ''::''"
    with assms(3) colon show ?thesis by auto
  next
    fix e ip ell
    assume go: "ip6_go 8 (if HasPrefix s ''::'' then drop 2 s else s) [] e = Some ([], ip, ell)"
    show ?thesis
    proof (cases "HasPrefix s ''::''")
      case True
      then obtain r where "s = ''::'' @ r" by (auto simp: HasPrefix_iff)
      then have "c \<in> set (drop 2 s) \<or> c = CHR '':''" using assms(3) by auto
      with go True colon ip6_go_chars show ?thesis by auto
    next
      case False
      with go ip6_go_chars assms(3) show ?thesis by simp
    qed
  qed
qed

lemma ParseAddr_cases:
  assumes "ParseAddr s = Inr a"
  obtains b where "parseIPv4Fields s = Some b" "a = V4 b" | "parseIPv6 s = Some a"
  using assms unfolding ParseAddr_def Let_def
  by (cases "dropWhile (\<lambda>c. c \<noteq> CHR ''.'' \<and> c \<noteq> CHR '':'' \<and> c \<noteq> CHR ''%'') s")
     (auto split: if_split_asm option.split_asm)

lemma ParseAddr_chars:
  assumes "ParseAddr s = Inr a" and "CHR ''%'' \<notin> set s" and "c \<in> set s"
  shows "addr_char c"
  using assms(1)
proof (cases rule: ParseAddr_cases)
  case (1 b)
  from parseIPv4Fields_chars [OF 1(1) assms(3)] show ?thesis .
next
  case 2
  from parseIPv6_chars [OF 2 assms(2,3)] show ?thesis .
qed

lemma cut_last_split: "cut_last c s = Some (a, b) \<Longrightarrow> s = a @ c # b \<and> c \<notin> set b"
proof -
  assume cut: "cut_last c s = Some (a, b)"
  let ?t = "takeWhile (\<lambda>x. x \<noteq> c) (rev s)"
  have len: "length ?t < length (rev s)"
    using cut length_takeWhile_le [of "\<lambda>x. x \<noteq> c" "rev s"]
    by (auto simp: cut_last_def Let_def le_less split: if_split_asm)
  have ab: "a = take (length s - length ?t - 1) s" "b = rev ?t"
    using cut by (auto simp: cut_last_def Let_def split: if_split_asm)
  have "rev s = ?t @ c # drop (Suc (length ?t)) (rev s)"
    using len nth_length_takeWhile [OF len] id_take_nth_drop [OF len] takeWhile_eq_take [of "\<lambda>x. x \<noteq> c" "rev s"]
    by simp
  then have "s = rev (drop (Suc (length ?t)) (rev s)) @ c # rev ?t"
    by (metis append.assoc append_Cons append_Nil rev.simps(2) rev_append rev_rev_ident)
  moreover have "rev (drop (Suc (length ?t)) (rev s)) = a"
    unfolding ab by (simp add: rev_drop)
  ultimately show ?thesis using ab(2) by (auto dest: set_takeWhileD)
qed

lemma read_digits_chars: "read_digits s a = Some n \<Longrightarrow> c \<in> set s \<Longrightarrow> digit_val c \<noteq> None"
  by (induction s arbitrary: a) (auto split: option.split_asm)

lemma Atoi_chars: "Atoi s = Inr i \<Longrightarrow> c \<in> set s \<Longrightarrow> digit_val c \<noteq> None \<or> c = CHR ''-'' \<or> c = CHR ''+''"
  by (cases s) (auto simp: Atoi_def Let_def dest: read_digits_chars split: if_split_asm option.split_asm)

lemma ParseAddr_zone:
  assumes "ParseAddr s = Inr a" and "CHR ''%'' \<in> set s"
  shows "\<exists>b z. a = V6 b z \<and> z \<noteq> []"
  using assms(1)
proof (cases rule: ParseAddr_cases)
  case (1 b)
  from parseIPv4Fields_chars [OF 1(1) assms(2)] show ?thesis by (simp add: addr_char_def hex_val_def)
next
  case 2
  have "length (takeWhile (\<lambda>c. c \<noteq> CHR ''%'') s) \<noteq> length s"
    using assms(2) takeWhile_eq_take [of "\<lambda>c. c \<noteq> CHR ''%''" s] takeWhile_eq_all_conv [of "\<lambda>c. c \<noteq> CHR ''%''" s]
    by auto
  then have zone: "length (takeWhile (\<lambda>c. c \<noteq> CHR ''%'') s) < length s"
    using length_takeWhile_le [of "\<lambda>c. c \<noteq> CHR ''%''" s] by linarith
  define z where "z = drop (length (takeWhile (\<lambda>c. c \<noteq> CHR ''%'') s) + 1) s"
  from 2 zone have "z \<noteq> [] \<and> (\<exists>b. a = V6 b z)"
    unfolding parseIPv6_def Let_def z_def [symmetric]
    by (simp split: if_split_asm option.split_asm prod.split_asm) (auto split: if_split_asm option.split_asm)
  then show ?thesis by blast
qed

lemma ParsePrefix_not_addr:
  assumes "ParsePrefix s = Inr p"
  shows "\<exists>e. ParseAddr s = Inl e"
proof (rule ccontr)
  assume "\<not> ?thesis"
  then obtain a where a: "ParseAddr s = Inr a" by (cases "ParseAddr s") auto
  from assms obtain ipStr bitsStr ip bits where cut: "cut_last (CHR ''/'') s = Some (ipStr, bitsStr)"
    and ip: "ParseAddr ipStr = Inr ip" and zone: "\<not> (case ip of V4 _ \<Rightarrow> False | V6 _ z \<Rightarrow> z \<noteq> [])"
    and bits: "Atoi bitsStr = Inr bits"
    unfolding ParsePrefix_def Let_def by (auto split: option.split_asm prod.split_asm sum.split_asm if_split_asm)
  have s: "s = ipStr @ CHR ''/'' # bitsStr" using cut_last_split [OF cut] by simp
  have "CHR ''%'' \<notin> set ipStr" using ParseAddr_zone [OF ip] zone by auto
  moreover have "CHR ''%'' \<notin> set bitsStr" using Atoi_chars [OF bits, of "CHR ''%''"] by (auto simp: digit_val_def)
  ultimately have "addr_char (CHR ''/'')" using ParseAddr_chars [OF a, of "CHR ''/''"] s by auto
  then show False by (simp add: addr_char_def hex_val_def)
qed

section \<open>Hardware addresses\<close>

type_synonym hwaddr = "8 word list"

definition hex_digit :: "nat \<Rightarrow> char" where
  "hex_digit d = digit_char d"

definition hex2 :: "8 word \<Rightarrow> string" where
  "hex2 b = [hex_digit (unat b div 16), hex_digit (unat b mod 16)]"

text \<open>\<open>HardwareAddr.String\<close>.\<close>

definition mac_String :: "hwaddr \<Rightarrow> string" where
  "mac_String hw = Join (map hex2 hw) '':''"

definition xtoi2 :: "string \<Rightarrow> char \<Rightarrow> 8 word option" where
  "xtoi2 s e =
     (if length s > 2 \<and> s ! 2 \<noteq> e then None
      else case s of
             a # b # _ \<Rightarrow>
               (case hex_val a of None \<Rightarrow> None
                | Some x \<Rightarrow> (case hex_val b of None \<Rightarrow> None | Some y \<Rightarrow> Some (word_of_nat (16 * x + y))))
           | _ \<Rightarrow> None)"

fun mac_pairs :: "nat \<Rightarrow> string \<Rightarrow> char \<Rightarrow> hwaddr option" where
  "mac_pairs 0 s e = Some []"
| "mac_pairs (Suc n) s e =
     (case xtoi2 s e of None \<Rightarrow> None | Some b \<Rightarrow> map_option ((#) b) (mac_pairs n (drop 3 s) e))"

fun mac_quads :: "nat \<Rightarrow> string \<Rightarrow> char \<Rightarrow> hwaddr option" where
  "mac_quads 0 s e = Some []"
| "mac_quads (Suc n) s e =
     (case xtoi2 (take 2 s) (CHR 0x00) of None \<Rightarrow> None
      | Some a \<Rightarrow> (case xtoi2 (drop 2 s) e of None \<Rightarrow> None
                   | Some b \<Rightarrow> map_option (\<lambda>r. a # b # r) (mac_quads n (drop 5 s) e)))"

definition ParseMAC :: "string \<Rightarrow> hwaddr result" where
  "ParseMAC s =
     (let bad = Inl (Err (LibErr ''net.ParseMAC'' s));
          ret = (\<lambda>r. case r of None \<Rightarrow> bad | Some hw \<Rightarrow> Inr hw)
      in if length s < 14 then bad
         else if s ! 2 = CHR '':'' \<or> s ! 2 = CHR ''-'' then
           if (length s + 1) mod 3 \<noteq> 0 then bad
           else let n = (length s + 1) div 3
                in if n \<noteq> 6 \<and> n \<noteq> 8 \<and> n \<noteq> 20 then bad else ret (mac_pairs n s (s ! 2))
         else if s ! 4 = CHR ''.'' then
           if (length s + 1) mod 5 \<noteq> 0 then bad
           else let n = 2 * (length s + 1) div 5
                in if n \<noteq> 6 \<and> n \<noteq> 8 \<and> n \<noteq> 20 then bad else ret (mac_quads (n div 2) s (s ! 4))
         else bad)"

lemma hex_val_hex_digit [simp]: "d < 16 \<Longrightarrow> hex_val (hex_digit d) = Some d"
  by (auto simp: hex_val_def hex_digit_def)

lemma unat_byte_less [simp]: "unat (b :: 8 word) < 256"
  using unsigned_less [of b, where ?'a = nat] by simp

lemma byte_nibbles [simp]: "(word_of_nat (16 * (unat b div 16) + unat b mod 16) :: 8 word) = b"
proof -
  have "16 * (unat b div 16) + unat b mod 16 = unat b" by (rule mult_div_mod_eq)
  then show ?thesis by simp
qed

lemma nibbles_less [simp]: "unat (b :: 8 word) div 16 < 16" "unat b mod 16 < 16"
  using unat_byte_less [of b] by (auto simp del: unat_byte_less)

lemma length_hex2 [simp]: "length (hex2 b) = 2"
  by (simp add: hex2_def)

lemma xtoi2_hex2 [simp]: "xtoi2 (hex2 b) e = Some b" "xtoi2 (hex2 b @ e # r) e = Some b"
  by (simp_all add: xtoi2_def hex2_def)

lemma drop3_hex2 [simp]: "drop 3 (hex2 b @ e # r) = r" "drop 3 (hex2 b) = []"
  by (simp_all add: hex2_def numeral_3_eq_3)

lemma length_mac_String: "hw \<noteq> [] \<Longrightarrow> length (mac_String hw) + 1 = 3 * length hw"
proof (induction hw)
  case (Cons b hw)
  then show ?case by (cases hw) (auto simp: mac_String_def)
qed simp

lemma mac_pairs_String: "mac_pairs (length hw) (mac_String hw) (CHR '':'') = Some hw"
proof (induction hw)
  case (Cons b hw)
  then show ?case by (cases hw) (auto simp: mac_String_def)
qed simp

lemma mac_String_sep: "length hw \<ge> 2 \<Longrightarrow> mac_String hw ! 2 = CHR '':''"
  by (cases hw rule: list.exhaust; cases "tl hw") (auto simp: mac_String_def hex2_def)

text \<open>Reading back a printed address of 6, 8 or 20 bytes.\<close>

lemma ParseMAC_String:
  assumes "length hw \<in> {6, 8, 20}"
  shows "ParseMAC (mac_String hw) = Inr hw"
proof -
  have "hw \<noteq> []" using assms by auto
  then have len: "length (mac_String hw) + 1 = 3 * length hw" by (rule length_mac_String)
  have "mac_String hw ! 2 = CHR '':''" using assms by (intro mac_String_sep) auto
  with len assms mac_pairs_String [of hw] show ?thesis by (auto simp: ParseMAC_def Let_def)
qed

section \<open>Host and port\<close>

text \<open>\<open>net.SplitHostPort\<close>.\<close>

definition has_byte :: "char \<Rightarrow> string \<Rightarrow> bool" where
  "has_byte c s \<longleftrightarrow> c \<in> set s"

definition SplitHostPort :: "string \<Rightarrow> (string \<times> string) result" where
  "SplitHostPort hp =
     (let bad = (\<lambda>m. Inl (Err (LibErr m hp)))
      in case cut_last (CHR '':'') hp of
           None \<Rightarrow> bad ''missing port in address''
         | Some (pre, port) \<Rightarrow>
             let i = length pre
             in if hd hp = CHR ''['' then
                  (case IndexByte hp (CHR '']'') of
                     None \<Rightarrow> bad ''missing ] in address''
                   | Some e \<Rightarrow>
                       if e + 1 = length hp then bad ''missing port in address''
                       else if e + 1 \<noteq> i then
                         (if hp ! (e + 1) = CHR '':'' then bad ''too many colons in address''
                          else bad ''missing port in address'')
                       else if has_byte (CHR ''['') (drop 1 hp) then bad ''unexpected [ in address''
                       else if has_byte (CHR '']'') (drop (e + 1) hp) then bad ''unexpected ] in address''
                       else Inr (take (e - 1) (drop 1 hp), port))
                else if has_byte (CHR '':'') pre then bad ''too many colons in address''
                else if has_byte (CHR ''['') hp then bad ''unexpected [ in address''
                else if has_byte (CHR '']'') hp then bad ''unexpected ] in address''
                else Inr (pre, port))"

end
