(* ===== verification/KNL_Types.thy ===== *)
theory KNL_Types
  imports Go_Net
begin

text \<open>
  The data of the API (api/v1beta1): cards, chassis, the seven node types, links, the lab
  and the operator configuration, one record per Go struct with its fields in source order.

  A pointer field is an \<open>option\<close> (\<open>None\<close> is nil). A Go map in a field is an association list
  under an \<open>option\<close>: the merge of defaults and \<open>reflect.DeepEqual\<close> tell a nil map from an empty
  one. A slice in a field is a list, nil and empty alike. A chassis holds its cards
  through pointers, and one card object can be shared by the global configuration and the
  labs defaulted from it; so the record of a chassis is polymorphic in what stands for a
  card: the card itself (\<open>SRCard SRChassis\<close>), or an address in a store of cards
  (\<open>nat SRChassis\<close>), and likewise for everything that holds a chassis.
\<close>

text \<open>A Kubernetes quantity, known by the text it is parsed from (resource.MustParse).\<close>

datatype quantity = MustParse string

type_synonym NodeType = string

abbreviation SRSIM :: NodeType where "SRSIM \<equiv> ''srsim''"
abbreviation SRVMVSIM :: NodeType where "SRVMVSIM \<equiv> ''vsim''"
abbreviation SRVMVSRI :: NodeType where "SRVMVSRI \<equiv> ''vsri''"
abbreviation SRVMMAGC :: NodeType where "SRVMMAGC \<equiv> ''magc''"
abbreviation SRL :: NodeType where "SRL \<equiv> ''srl''"
abbreviation Pod :: NodeType where "Pod \<equiv> ''pod''"
abbreviation VM :: NodeType where "VM \<equiv> ''vm''"
abbreviation Unknown :: NodeType where "Unknown \<equiv> ''unknown''"

section \<open>Cards and chassis (sr.go)\<close>

record Port =
  port_Name :: string
  port_Protocol :: string
  port_Port :: int

record XIOM =
  xiom_Model :: "string option"
  xiom_MDAs :: "string list"

record SRCard =
  card_Model :: "string option"
  card_SysInfo :: "string option"
  card_MDAs :: "string list option"
  card_XIOM :: "XIOM gomap option"
  card_ReqMemory :: "quantity option"
  card_ReqCPU :: "quantity option"
  card_ListenPorts :: "Port list option"

record 'c SRChassis =
  ch_Type :: "NodeType option"
  ch_Model :: "string option"
  ch_Cards :: "'c gomap option"
  ch_SFM :: "string option"
  ch_ChassisMAC :: "string option"

definition new_card :: SRCard where
  "new_card = \<lparr>card_Model = None, card_SysInfo = None, card_MDAs = None, card_XIOM = None,
     card_ReqMemory = None, card_ReqCPU = None, card_ListenPorts = None\<rparr>"

definition new_chassis :: "'c SRChassis" where
  "new_chassis = \<lparr>ch_Type = None, ch_Model = None, ch_Cards = None, ch_SFM = None, ch_ChassisMAC = None\<rparr>"

section \<open>Node types (srvm.go, srsim.go, srl.go, generalpod.go, vmpc.go)\<close>

record 'c SRVM =
  srvm_Chassis :: "'c SRChassis option"
  srvm_Image :: "string option"
  srvm_DiskSize :: "quantity option"
  srvm_License :: "string option"
  srvm_UUID :: "string option"
  srvm_Dedicate :: "bool option"

record 'c SRSim =
  srsim_Image :: "string option"
  srsim_Chassis :: "'c SRChassis option"
  srsim_LicSecret :: "string option"

record SRLinux =
  srl_Image :: "string option"
  srl_Chassis :: "string option"
  srl_LicSecret :: "string option"
  srl_ReqMemory :: "quantity option"
  srl_ReqCPU :: "quantity option"

record GeneralPod =
  gpod_Image :: "string option"
  gpod_Command :: "string option"
  gpod_Privileged :: "bool option"
  gpod_PvcSize :: "quantity option"
  gpod_ReqMemory :: "quantity option"
  gpod_ReqCPU :: "quantity option"

record GeneralVM =
  gvm_ReqMemory :: "quantity option"
  gvm_ReqCPU :: "quantity option"
  gvm_DiskSize :: "quantity option"
  gvm_PinCPU :: "bool option"
  gvm_HugePage :: "bool option"
  gvm_Image :: "string option"
  gvm_InitMethod :: "string option"
  gvm_Ports :: "Port list option"
  gvm_Username :: "string option"
  gvm_Password :: "string option"

definition new_SRVM :: "'c SRVM" where
  "new_SRVM = \<lparr>srvm_Chassis = None, srvm_Image = None, srvm_DiskSize = None, srvm_License = None,
     srvm_UUID = None, srvm_Dedicate = None\<rparr>"

definition new_SRSim :: "'c SRSim" where
  "new_SRSim = \<lparr>srsim_Image = None, srsim_Chassis = None, srsim_LicSecret = None\<rparr>"

definition new_SRLinux :: SRLinux where
  "new_SRLinux = \<lparr>srl_Image = None, srl_Chassis = None, srl_LicSecret = None, srl_ReqMemory = None,
     srl_ReqCPU = None\<rparr>"

definition new_GeneralPod :: GeneralPod where
  "new_GeneralPod = \<lparr>gpod_Image = None, gpod_Command = None, gpod_Privileged = None,
     gpod_PvcSize = None, gpod_ReqMemory = None, gpod_ReqCPU = None\<rparr>"

definition new_GeneralVM :: GeneralVM where
  "new_GeneralVM = \<lparr>gvm_ReqMemory = None, gvm_ReqCPU = None, gvm_DiskSize = None, gvm_PinCPU = None,
     gvm_HugePage = None, gvm_Image = None, gvm_InitMethod = None, gvm_Ports = None,
     gvm_Username = None, gvm_Password = None\<rparr>"

text \<open>
  The \<open>System\<close> interface (system.go): one constructor per implementing type.
\<close>

datatype 'c System =
    SysVSIM "'c SRVM"
  | SysVSRI "'c SRVM"
  | SysMAGC "'c SRVM"
  | SysVM GeneralVM
  | SysSRL SRLinux
  | SysPod GeneralPod
  | SysSRSIM "'c SRSim"

text \<open>\<open>OneOfSystem\<close> (node.go): one pointer per node type, in source order.\<close>

record 'c OneOfSystem =
  one_VSIM :: "'c SRVM option"
  one_VSRI :: "'c SRVM option"
  one_MAGC :: "'c SRVM option"
  one_VM :: "GeneralVM option"
  one_SRL :: "SRLinux option"
  one_Pod :: "GeneralPod option"
  one_SRSIM :: "'c SRSim option"

definition new_OneOfSystem :: "'c OneOfSystem" where
  "new_OneOfSystem = \<lparr>one_VSIM = None, one_VSRI = None, one_MAGC = None, one_VM = None,
     one_SRL = None, one_Pod = None, one_SRSIM = None\<rparr>"

section \<open>Links, labs and the configuration (link.go, lab_types.go, knlconfig_types.go)\<close>

record Connector =
  con_NodeName :: "string option"
  con_PortId :: "string option"
  con_Addrs :: "string list"
  con_Routes :: "string list"
  con_Mac :: "string option"

record Link =
  link_Connectors :: "Connector list"

record 'c LabSpec =
  lab_NodeList :: "'c OneOfSystem gomap option"
  lab_LinkList :: "Link gomap option"

record 'c KNLConfigSpec =
  cfg_SFTPSever :: "string option"
  cfg_VXLANGrpAddr :: "string option"
  cfg_VXLANDefaultDev :: "string option"
  cfg_VxDevMap :: "string gomap option"
  cfg_PVCStorageClass :: "string option"
  cfg_SRCPMLoaderImage :: "string option"
  cfg_SRIOMLoaderImage :: "string option"
  cfg_SideCarHookImg :: "string option"
  cfg_DefaultNode :: "'c OneOfSystem option"

section \<open>Renaming what stands for a card\<close>

definition map_chassis :: "('c \<Rightarrow> 'd) \<Rightarrow> 'c SRChassis \<Rightarrow> 'd SRChassis" where
  "map_chassis f ch = \<lparr>ch_Type = ch_Type ch, ch_Model = ch_Model ch,
     ch_Cards = map_option (map (map_prod id f)) (ch_Cards ch),
     ch_SFM = ch_SFM ch, ch_ChassisMAC = ch_ChassisMAC ch\<rparr>"

definition map_srvm :: "('c \<Rightarrow> 'd) \<Rightarrow> 'c SRVM \<Rightarrow> 'd SRVM" where
  "map_srvm f v = \<lparr>srvm_Chassis = map_option (map_chassis f) (srvm_Chassis v), srvm_Image = srvm_Image v,
     srvm_DiskSize = srvm_DiskSize v, srvm_License = srvm_License v, srvm_UUID = srvm_UUID v,
     srvm_Dedicate = srvm_Dedicate v\<rparr>"

definition map_srsim :: "('c \<Rightarrow> 'd) \<Rightarrow> 'c SRSim \<Rightarrow> 'd SRSim" where
  "map_srsim f v = \<lparr>srsim_Image = srsim_Image v,
     srsim_Chassis = map_option (map_chassis f) (srsim_Chassis v), srsim_LicSecret = srsim_LicSecret v\<rparr>"

definition map_sys :: "('c \<Rightarrow> 'd) \<Rightarrow> 'c System \<Rightarrow> 'd System" where
  "map_sys f s = (case s of
      SysVSIM v \<Rightarrow> SysVSIM (map_srvm f v) | SysVSRI v \<Rightarrow> SysVSRI (map_srvm f v)
    | SysMAGC v \<Rightarrow> SysMAGC (map_srvm f v) | SysVM v \<Rightarrow> SysVM v | SysSRL v \<Rightarrow> SysSRL v
    | SysPod v \<Rightarrow> SysPod v | SysSRSIM v \<Rightarrow> SysSRSIM (map_srsim f v))"

definition map_one :: "('c \<Rightarrow> 'd) \<Rightarrow> 'c OneOfSystem \<Rightarrow> 'd OneOfSystem" where
  "map_one f one = \<lparr>one_VSIM = map_option (map_srvm f) (one_VSIM one),
     one_VSRI = map_option (map_srvm f) (one_VSRI one),
     one_MAGC = map_option (map_srvm f) (one_MAGC one),
     one_VM = one_VM one, one_SRL = one_SRL one, one_Pod = one_Pod one,
     one_SRSIM = map_option (map_srsim f) (one_SRSIM one)\<rparr>"

definition map_labspec :: "('c \<Rightarrow> 'd) \<Rightarrow> 'c LabSpec \<Rightarrow> 'd LabSpec" where
  "map_labspec f l = \<lparr>lab_NodeList = map_option (map (map_prod id (map_one f))) (lab_NodeList l),
     lab_LinkList = lab_LinkList l\<rparr>"

lemma map_chassis_sel [simp]:
  "ch_Type (map_chassis f ch) = ch_Type ch"
  "ch_Model (map_chassis f ch) = ch_Model ch"
  "ch_Cards (map_chassis f ch) = map_option (map (map_prod id f)) (ch_Cards ch)"
  "ch_SFM (map_chassis f ch) = ch_SFM ch"
  "ch_ChassisMAC (map_chassis f ch) = ch_ChassisMAC ch"
  by (simp_all add: map_chassis_def)

lemma map_srvm_sel [simp]:
  "srvm_Chassis (map_srvm f v) = map_option (map_chassis f) (srvm_Chassis v)"
  "srvm_Image (map_srvm f v) = srvm_Image v"
  "srvm_License (map_srvm f v) = srvm_License v"
  "srvm_Dedicate (map_srvm f v) = srvm_Dedicate v"
  by (simp_all add: map_srvm_def)

lemma map_srsim_sel [simp]:
  "srsim_Chassis (map_srsim f v) = map_option (map_chassis f) (srsim_Chassis v)"
  "srsim_Image (map_srsim f v) = srsim_Image v"
  "srsim_LicSecret (map_srsim f v) = srsim_LicSecret v"
  by (simp_all add: map_srsim_def)

lemma entries_map_cards [simp]:
  "entries (map_option (map (map_prod id f)) m) = map (map_prod id f) (entries m)"
  by (cases m) auto

lemma map_of_map_cards [simp]: "map_of (map (map_prod id f) m) k = map_option f (map_of m k)"
  by (induction m) auto

end
