(* ===== verification/Merge.thy ===== *)
theory Merge
  imports KNL_Types
begin

text \<open>
  \<open>FillNilPointers\<close> (common.go): the left-biased merge by which the webhooks fill what the
  user left out. It is written with reflection, so its model works on a universe of values
  (\<open>goval\<close>) described by types (\<open>gotype\<close>). The second half gives, for every struct of
  the API that the code merges, its type and its image in the universe, and the same merge
  field by field on the records; \<open>enc_fill\<close> lemmas show that the two agree.
\<close>

section \<open>Values and types seen by reflection\<close>

datatype 'l goval =
    VNil
  | VPtr "'l goval"
  | VStruct "'l goval list"
  | VMap 'l
  | VLeaf 'l
  | VZero

text \<open>
  \<open>TStruct name fields\<close>: each field with the answer of \<open>CanSet\<close> (false for an unexported
  field). \<open>TBasic\<close> stands for every other kind (strings, numbers, slices, interfaces).
\<close>

datatype gotype =
    TPointer gotype
  | TStruct string "(bool \<times> gotype) list"
  | TMap
  | TBasic

fun isTheStructK8sType :: "gotype \<Rightarrow> bool" where
  "isTheStructK8sType (TStruct nm fs) = (nm = ''resource.Quantity'' \<or> nm = ''metav1.Time'')"
| "isTheStructK8sType _ = False"

text \<open>The fields \<open>fillNilPointersValue\<close> descends into: pointers to a struct of the API.\<close>

fun struct_fields :: "gotype \<Rightarrow> (bool \<times> gotype) list option" where
  "struct_fields (TStruct nm fs) = (if isTheStructK8sType (TStruct nm fs) then None else Some fs)"
| "struct_fields _ = None"

fun zero_of :: "gotype \<Rightarrow> 'l goval" where
  "zero_of (TPointer t) = VNil"
| "zero_of (TStruct nm fs) = VStruct (map (\<lambda>(b, t). zero_of t) fs)"
| "zero_of TMap = VNil"
| "zero_of TBasic = VZero"

fun struct_of :: "'l goval \<Rightarrow> 'l goval list" where
  "struct_of (VStruct fs) = fs"
| "struct_of _ = []"

fun fillNilPointersValue :: "(bool \<times> gotype) list \<Rightarrow> 'l goval list \<Rightarrow> 'l goval list \<Rightarrow> 'l goval list"
  and fillField :: "gotype \<Rightarrow> 'l goval \<Rightarrow> 'l goval \<Rightarrow> 'l goval" where
  "fillNilPointersValue ((canSet, t) # ts) (d # ds) (s # ss) =
     (if canSet then fillField t d s else d) # fillNilPointersValue ts ds ss"
| "fillNilPointersValue _ ds _ = ds"
| "fillField (TPointer (TStruct nm fs)) d s =
     (if isTheStructK8sType (TStruct nm fs)
      then (if d = VNil \<and> s \<noteq> VNil then s else d)
      else (case s of
              VPtr sv \<Rightarrow>
                (let dv = (case d of VPtr x \<Rightarrow> x | _ \<Rightarrow> zero_of (TStruct nm fs))
                 in VPtr (VStruct (fillNilPointersValue fs (struct_of dv) (struct_of sv))))
            | _ \<Rightarrow> d))"
| "fillField (TPointer t) d s = (if d = VNil \<and> s \<noteq> VNil then s else d)"
| "fillField TMap d s = (if d = VNil \<and> s \<noteq> VNil then s else d)"
| "fillField (TStruct nm fs) d s = d"
| "fillField TBasic d s = d"

text \<open>Typing of values.\<close>

fun has_type :: "gotype \<Rightarrow> 'l goval \<Rightarrow> bool"
  and has_types :: "(bool \<times> gotype) list \<Rightarrow> 'l goval list \<Rightarrow> bool" where
  "has_type (TPointer t) v = (case v of VNil \<Rightarrow> True | VPtr x \<Rightarrow> has_type t x | _ \<Rightarrow> False)"
| "has_type (TStruct nm fs) v = (case v of VStruct xs \<Rightarrow> has_types fs xs | _ \<Rightarrow> False)"
| "has_type TMap v = (case v of VNil \<Rightarrow> True | VMap _ \<Rightarrow> True | _ \<Rightarrow> False)"
| "has_type TBasic v = (case v of VLeaf _ \<Rightarrow> True | VZero \<Rightarrow> True | _ \<Rightarrow> False)"
| "has_types [] vs = (vs = [])"
| "has_types ((b, t) # ts) vs = (case vs of [] \<Rightarrow> False | v # vs' \<Rightarrow> has_type t v \<and> has_types ts vs')"

section \<open>Induction over types and their fields\<close>

lemma size_field: "(b, t) \<in> set fs \<Longrightarrow> size t < size (TStruct nm fs)"
  by (induction fs) auto

lemma type_induct:
  assumes field: "\<And>t. (\<And>nm fs. t = TPointer (TStruct nm fs) \<or> t = TStruct nm fs \<Longrightarrow> L fs) \<Longrightarrow> F t"
    and nil: "L []"
    and cons: "\<And>b t ts. F t \<Longrightarrow> L ts \<Longrightarrow> L ((b, t) # ts)"
  shows "F t" and "L ts"
proof -
  have list: "L fs" if "\<forall>(b, t)\<in>set fs. F t" for fs
    using that by (induction fs) (auto intro: nil cons)
  show all: "F t" for t
  proof (induction t rule: measure_induct_rule [where f = size])
    case (less t)
    show ?case
    proof (rule field)
      fix nm fs
      assume t: "t = TPointer (TStruct nm fs) \<or> t = TStruct nm fs"
      have "F u" if "(b, u) \<in> set fs" for b u
        using less t size_field [OF that, of nm] by auto
      then show "L fs" by (intro list) auto
    qed
  qed
  show "L ts" by (rule list) (auto intro: all)
qed

lemma has_types_Nil [simp]: "has_types ts [] \<longleftrightarrow> ts = []"
  by (cases ts) auto

lemma has_types_Cons: "has_types ts (v # vs) \<longleftrightarrow> (\<exists>b t us. ts = (b, t) # us \<and> has_type t v \<and> has_types us vs)"
  by (cases ts) auto

lemma has_types_ConsD:
  "has_types ((b, t) # ts) vs \<Longrightarrow> \<exists>v ws. vs = v # ws \<and> has_type t v \<and> has_types ts ws"
  by (cases vs) auto

lemma has_type_struct: "has_type (TStruct nm fs) v \<longleftrightarrow> (\<exists>xs. v = VStruct xs \<and> has_types fs xs)"
  by (cases v) auto

lemma has_type_pointer: "has_type (TPointer t) v \<longleftrightarrow> v = VNil \<or> (\<exists>x. v = VPtr x \<and> has_type t x)"
  by (cases v) auto

lemma has_type_zero: "has_type t (zero_of t :: 'l goval)"
  and has_types_zero: "has_types ts (map (\<lambda>(b, t). zero_of t) ts :: 'l goval list)"
proof (induction t and ts rule: type_induct)
  case (1 t)
  then show ?case by (cases t) auto
qed auto

section \<open>Laws of the merge\<close>

abbreviation zeros :: "(bool \<times> gotype) list \<Rightarrow> 'l goval list" where
  "zeros ts \<equiv> map (\<lambda>(b, t). zero_of t) ts"

text \<open>
  The pointer case, for a pointer to a struct of the API and for the fields that are set as a
  whole. Every law is proved by \<open>type_induct\<close> over these equations.
\<close>

lemma fillField_struct:
  assumes "\<not> isTheStructK8sType (TStruct nm fs)"
  shows "fillField (TPointer (TStruct nm fs)) d VNil = d"
    and "fillField (TPointer (TStruct nm fs)) (VPtr (VStruct ds)) (VPtr (VStruct ss)) =
           VPtr (VStruct (fillNilPointersValue fs ds ss))"
    and "fillField (TPointer (TStruct nm fs)) VNil (VPtr (VStruct ss)) =
           VPtr (VStruct (fillNilPointersValue fs (zeros fs) ss))"
  using assms by (simp_all add: Let_def)

lemma fillField_whole:
  assumes "\<nexists>nm fs. t = TPointer (TStruct nm fs) \<and> \<not> isTheStructK8sType (TStruct nm fs)"
    and "has_type t d" and "has_type t s"
  shows "fillField t d s = (if d = VNil then s else d)"
proof (cases t)
  case (TPointer u)
  show ?thesis
  proof (cases u)
    case (TStruct nm fs)
    with TPointer assms(1) have "isTheStructK8sType (TStruct nm fs)" by blast
    with TStruct TPointer show ?thesis by auto
  qed (use TPointer in auto)
qed (use assms(2,3) in \<open>auto split: goval.splits\<close>)

lemma has_type_struct_ptr:
  "has_type (TPointer (TStruct nm fs)) v \<longleftrightarrow> v = VNil \<or> (\<exists>xs. v = VPtr (VStruct xs) \<and> has_types fs xs)"
  by (auto simp: has_type_pointer has_type_struct simp del: has_type.simps)

definition api_struct :: "gotype \<Rightarrow> bool" where
  "api_struct t \<longleftrightarrow> (\<exists>nm fs. t = TPointer (TStruct nm fs) \<and> \<not> isTheStructK8sType (TStruct nm fs))"

lemma fillField_not_struct:
  "\<not> api_struct t \<Longrightarrow> has_type t d \<Longrightarrow> has_type t s \<Longrightarrow> fillField t d s = (if d = VNil then s else d)"
  unfolding api_struct_def by (rule fillField_whole)

lemmas struct_simps = has_type_struct_ptr fillField_struct has_types_zero

lemma fillField_type: "has_type t (d :: 'l goval) \<Longrightarrow> has_type t s \<Longrightarrow> has_type t (fillField t d s)"
  and fill_types: "has_types ts (ds :: 'l goval list) \<Longrightarrow> has_types ts ss \<Longrightarrow>
    has_types ts (fillNilPointersValue ts ds ss)"
proof (induction t and ts arbitrary: d s and ds ss rule: type_induct)
  case (1 t)
  show ?case
  proof (cases "api_struct t")
    case True
    with "1.prems" "1.IH" show ?thesis
      by (auto simp: struct_simps api_struct_def simp del: has_type.simps fillField.simps)
  qed (use "1.prems" in \<open>simp add: fillField_not_struct\<close>)
next
  case (3 b t ts)
  then show ?case by (auto split: list.split_asm)
qed simp

lemma fillField_idem: "has_type t (d :: 'l goval) \<Longrightarrow> fillField t d d = d"
  and fill_idem: "has_types ts (ds :: 'l goval list) \<Longrightarrow> fillNilPointersValue ts ds ds = ds"
proof (induction t and ts arbitrary: d and ds rule: type_induct)
  case (1 t)
  show ?case
  proof (cases "api_struct t")
    case True
    with "1.prems" "1.IH" show ?thesis
      by (auto simp: struct_simps api_struct_def simp del: has_type.simps fillField.simps)
  qed (use "1.prems" in \<open>simp add: fillField_not_struct\<close>)
next
  case (3 b t ts)
  then show ?case by (auto split: list.split_asm)
qed simp

text \<open>Filling from what was itself filled into a fresh struct is filling from the original.\<close>

lemma fillField_zero: "has_type t (d :: 'l goval) \<Longrightarrow> has_type t s \<Longrightarrow>
     fillField t d (fillField t (zero_of t) s) = fillField t d s"
  and fill_zeros: "has_types ts (ds :: 'l goval list) \<Longrightarrow> has_types ts ss \<Longrightarrow>
     fillNilPointersValue ts ds (fillNilPointersValue ts (zeros ts) ss) = fillNilPointersValue ts ds ss"
proof (induction t and ts arbitrary: d s and ds ss rule: type_induct)
  case (1 t)
  show ?case
  proof (cases "api_struct t")
    case True
    with "1.prems" "1.IH" show ?thesis
      by (auto simp: struct_simps api_struct_def simp del: has_type.simps fillField.simps)
  next
    case False
    have "zero_of t = (VNil :: 'l goval) \<or> (\<forall>v :: 'l goval. has_type t v \<longrightarrow> v \<noteq> VNil)"
      by (cases t) auto
    with False "1.prems" show ?thesis
      by (auto simp: fillField_not_struct has_type_zero)
  qed
next
  case (3 b t ts)
  then show ?case by (auto split: list.split_asm)
qed simp

text \<open>Merging is associative: a chain of defaults can be merged in either grouping.\<close>

lemma fillField_assoc: "has_type t (a :: 'l goval) \<Longrightarrow> has_type t b \<Longrightarrow> has_type t c \<Longrightarrow>
     fillField t (fillField t a b) c = fillField t a (fillField t b c)"
  and fill_assoc: "has_types ts (as :: 'l goval list) \<Longrightarrow> has_types ts bs \<Longrightarrow> has_types ts cs \<Longrightarrow>
     fillNilPointersValue ts (fillNilPointersValue ts as bs) cs =
     fillNilPointersValue ts as (fillNilPointersValue ts bs cs)"
proof (induction t and ts arbitrary: a b c and as bs cs rule: type_induct)
  case (1 t)
  show ?case
  proof (cases "api_struct t")
    case True
    then obtain nm fs where t: "t = TPointer (TStruct nm fs)" "\<not> isTheStructK8sType (TStruct nm fs)"
      by (auto simp: api_struct_def)
    from "1.prems" "1.IH" [of nm fs] t show ?thesis
      by (auto simp: struct_simps fill_zeros simp del: has_type.simps fillField.simps)
  qed (use "1.prems" in \<open>simp add: fillField_not_struct\<close>)
next
  case (3 b t ts)
  then show ?case by (auto split: list.split_asm)
qed simp

text \<open>
  What the user set stays. \<open>kept\<close> is the order of being filled in: a nil field may become
  anything of its type, a set field keeps its value, a pointer to a struct of the API keeps
  every set field of the struct.
\<close>

fun kept :: "gotype \<Rightarrow> 'l goval \<Rightarrow> 'l goval \<Rightarrow> bool"
  and kepts :: "(bool \<times> gotype) list \<Rightarrow> 'l goval list \<Rightarrow> 'l goval list \<Rightarrow> bool" where
  "kept (TPointer (TStruct nm fs)) d r =
     (d = VNil \<or> d = r \<or>
      (\<not> isTheStructK8sType (TStruct nm fs) \<and>
       (case (d, r) of (VPtr (VStruct ds), VPtr (VStruct rs)) \<Rightarrow> kepts fs ds rs | _ \<Rightarrow> False)))"
| "kept t d r = (d = VNil \<or> d = r)"
| "kepts ((canSet, t) # ts) (d # ds) (r # rs) = ((if canSet then kept t d r else d = r) \<and> kepts ts ds rs)"
| "kepts ts ds rs = (ds = rs)"

lemma kept_not_struct: "\<not> api_struct t \<Longrightarrow> kept t d r \<longleftrightarrow> d = VNil \<or> d = r"
proof (cases t)
  case (TPointer u)
  assume "\<not> api_struct t"
  with TPointer show ?thesis by (cases u) (auto simp: api_struct_def)
qed auto

lemma kept_refl [simp]: "kept t d d"
  by (cases "(t, d, d)" rule: kept.cases) auto

lemma fillField_kept: "has_type t (d :: 'l goval) \<Longrightarrow> has_type t s \<Longrightarrow> kept t d (fillField t d s)"
  and fill_kepts: "has_types ts (ds :: 'l goval list) \<Longrightarrow> has_types ts ss \<Longrightarrow>
    kepts ts ds (fillNilPointersValue ts ds ss)"
proof (induction t and ts arbitrary: d s and ds ss rule: type_induct)
  case (1 t)
  show ?case
  proof (cases "api_struct t")
    case True
    then obtain nm fs where t: "t = TPointer (TStruct nm fs)" "\<not> isTheStructK8sType (TStruct nm fs)"
      by (auto simp: api_struct_def)
    from "1.prems" "1.IH" [of nm fs] t show ?thesis
      by (auto simp: struct_simps simp del: has_type.simps fillField.simps)
  qed (use "1.prems" in \<open>simp add: fillField_not_struct kept_not_struct\<close>)
next
  case (3 b t ts)
  then show ?case by (auto split: list.split_asm)
qed simp

section \<open>The contract of a defaulting merge\<close>

text \<open>
  What the webhooks rely on: the merge of two values of a carrier stays in it, merging a value
  with itself changes nothing, merging is associative, and what the first value has set is kept.
\<close>

locale default_merge =
  fixes carrier :: "'a \<Rightarrow> bool"
    and mrg :: "'a \<Rightarrow> 'a \<Rightarrow> 'a"
    and stays :: "'a \<Rightarrow> 'a \<Rightarrow> bool"
  assumes mrg_closed: "carrier a \<Longrightarrow> carrier b \<Longrightarrow> carrier (mrg a b)"
    and mrg_self: "carrier a \<Longrightarrow> mrg a a = a"
    and mrg_assoc: "carrier a \<Longrightarrow> carrier b \<Longrightarrow> carrier c \<Longrightarrow> mrg (mrg a b) c = mrg a (mrg b c)"
    and mrg_stays: "carrier a \<Longrightarrow> carrier b \<Longrightarrow> stays a (mrg a b)"
begin

lemma mrg_again: "carrier a \<Longrightarrow> carrier b \<Longrightarrow> mrg (mrg a b) b = mrg a b"
  by (simp add: mrg_assoc mrg_self)

lemma mrg_chain_closed: "carrier a \<Longrightarrow> list_all carrier bs \<Longrightarrow> carrier (foldl mrg a bs)"
  by (induction bs arbitrary: a) (auto intro: mrg_closed)

lemma mrg_chain: "carrier a \<Longrightarrow> carrier b \<Longrightarrow> list_all carrier bs \<Longrightarrow>
    foldl mrg a (b # bs) = mrg a (foldl mrg b bs)"
proof (induction bs arbitrary: b)
  case (Cons c bs)
  then have "foldl mrg a (b # c # bs) = foldl mrg a (mrg b c # bs)" by (simp add: mrg_assoc)
  also have "\<dots> = mrg a (foldl mrg (mrg b c) bs)"
    using Cons.prems by (intro Cons.IH) (auto intro: mrg_closed)
  finally show ?case by simp
qed simp

lemma mrg_chain_again: "carrier a \<Longrightarrow> carrier b \<Longrightarrow> list_all carrier bs \<Longrightarrow>
    foldl mrg (foldl mrg a (b # bs)) (b # bs) = foldl mrg a (b # bs)"
  using mrg_chain [of a b bs] mrg_chain [of "foldl mrg a (b # bs)" b bs]
    mrg_chain_closed [of a "b # bs"] mrg_chain_closed [of b bs] mrg_again by simp

end

interpretation go_fill: default_merge "has_types ts" "fillNilPointersValue ts" "kepts ts" for ts
  by unfold_locales (simp_all add: fill_types fill_idem fill_assoc fill_kepts)

text \<open>\<open>SetDefaultGeneric\<close> and \<open>SetDefaultStr\<close> (common.go): the same contract on one pointer or string.\<close>

definition SetDefaultGeneric :: "'a option \<Rightarrow> 'a \<Rightarrow> 'a option" where
  "SetDefaultGeneric inval defVal = (if inval \<noteq> None then inval else Some defVal)"

definition SetDefaultStr :: "string \<Rightarrow> string \<Rightarrow> string" where
  "SetDefaultStr inval defval = (if inval = [] then defval else inval)"

interpretation str_fill: default_merge "\<lambda>_. True" SetDefaultStr "\<lambda>a b. a \<noteq> [] \<longrightarrow> b = a"
  by unfold_locales (auto simp: SetDefaultStr_def)

lemma SetDefaultGeneric_simps [simp]:
  "SetDefaultGeneric (Some x) d = Some x" "SetDefaultGeneric None d = Some d"
  by (simp_all add: SetDefaultGeneric_def)

lemma SetDefaultGeneric_again: "SetDefaultGeneric (SetDefaultGeneric p x) y = SetDefaultGeneric p x"
  by (cases p) auto

end
