(* ===== verification/Fill_Records.thy ===== *)
theory Fill_Records
  imports Merge
begin

text \<open>
  \<open>FillNilPointers\<close> on the structs of the API, field by field on the records. For each
  struct: its reflected type (\<open>ty_\<dots>\<close>), its image in the universe of Merge
  (\<open>enc_\<dots>\<close>), and a lemma that merging records and then reflecting is reflecting and then
  running \<open>fillNilPointersValue\<close>.
\<close>

section \<open>Merging records\<close>

text \<open>A pointer copied as a whole, and a pointer to a struct that the merge descends into.\<close>

definition fillp :: "'a option \<Rightarrow> 'a option \<Rightarrow> 'a option" where
  "fillp d s = (if d = None \<and> s \<noteq> None then s else d)"

definition fillsp :: "('a \<Rightarrow> 'a \<Rightarrow> 'a) \<Rightarrow> 'a \<Rightarrow> 'a option \<Rightarrow> 'a option \<Rightarrow> 'a option" where
  "fillsp f new d s =
     (case s of None \<Rightarrow> d | Some sv \<Rightarrow> Some (f (case d of None \<Rightarrow> new | Some dv \<Rightarrow> dv) sv))"

definition fill_chassis :: "'c SRChassis \<Rightarrow> 'c SRChassis \<Rightarrow> 'c SRChassis" where
  "fill_chassis d s = \<lparr>ch_Type = fillp (ch_Type d) (ch_Type s), ch_Model = fillp (ch_Model d) (ch_Model s),
     ch_Cards = fillp (ch_Cards d) (ch_Cards s), ch_SFM = fillp (ch_SFM d) (ch_SFM s),
     ch_ChassisMAC = fillp (ch_ChassisMAC d) (ch_ChassisMAC s)\<rparr>"

definition fill_SRVM :: "'c SRVM \<Rightarrow> 'c SRVM \<Rightarrow> 'c SRVM" where
  "fill_SRVM d s = \<lparr>srvm_Chassis = fillsp fill_chassis new_chassis (srvm_Chassis d) (srvm_Chassis s),
     srvm_Image = fillp (srvm_Image d) (srvm_Image s),
     srvm_DiskSize = fillp (srvm_DiskSize d) (srvm_DiskSize s),
     srvm_License = fillp (srvm_License d) (srvm_License s),
     srvm_UUID = fillp (srvm_UUID d) (srvm_UUID s),
     srvm_Dedicate = fillp (srvm_Dedicate d) (srvm_Dedicate s)\<rparr>"

definition fill_SRSim :: "'c SRSim \<Rightarrow> 'c SRSim \<Rightarrow> 'c SRSim" where
  "fill_SRSim d s = \<lparr>srsim_Image = fillp (srsim_Image d) (srsim_Image s),
     srsim_Chassis = fillsp fill_chassis new_chassis (srsim_Chassis d) (srsim_Chassis s),
     srsim_LicSecret = fillp (srsim_LicSecret d) (srsim_LicSecret s)\<rparr>"

definition fill_SRLinux :: "SRLinux \<Rightarrow> SRLinux \<Rightarrow> SRLinux" where
  "fill_SRLinux d s = \<lparr>srl_Image = fillp (srl_Image d) (srl_Image s),
     srl_Chassis = fillp (srl_Chassis d) (srl_Chassis s),
     srl_LicSecret = fillp (srl_LicSecret d) (srl_LicSecret s),
     srl_ReqMemory = fillp (srl_ReqMemory d) (srl_ReqMemory s),
     srl_ReqCPU = fillp (srl_ReqCPU d) (srl_ReqCPU s)\<rparr>"

definition fill_GeneralPod :: "GeneralPod \<Rightarrow> GeneralPod \<Rightarrow> GeneralPod" where
  "fill_GeneralPod d s = \<lparr>gpod_Image = fillp (gpod_Image d) (gpod_Image s),
     gpod_Command = fillp (gpod_Command d) (gpod_Command s),
     gpod_Privileged = fillp (gpod_Privileged d) (gpod_Privileged s),
     gpod_PvcSize = fillp (gpod_PvcSize d) (gpod_PvcSize s),
     gpod_ReqMemory = fillp (gpod_ReqMemory d) (gpod_ReqMemory s),
     gpod_ReqCPU = fillp (gpod_ReqCPU d) (gpod_ReqCPU s)\<rparr>"

definition fill_GeneralVM :: "GeneralVM \<Rightarrow> GeneralVM \<Rightarrow> GeneralVM" where
  "fill_GeneralVM d s = \<lparr>gvm_ReqMemory = fillp (gvm_ReqMemory d) (gvm_ReqMemory s),
     gvm_ReqCPU = fillp (gvm_ReqCPU d) (gvm_ReqCPU s),
     gvm_DiskSize = fillp (gvm_DiskSize d) (gvm_DiskSize s),
     gvm_PinCPU = fillp (gvm_PinCPU d) (gvm_PinCPU s),
     gvm_HugePage = fillp (gvm_HugePage d) (gvm_HugePage s),
     gvm_Image = fillp (gvm_Image d) (gvm_Image s),
     gvm_InitMethod = fillp (gvm_InitMethod d) (gvm_InitMethod s),
     gvm_Ports = fillp (gvm_Ports d) (gvm_Ports s),
     gvm_Username = fillp (gvm_Username d) (gvm_Username s),
     gvm_Password = fillp (gvm_Password d) (gvm_Password s)\<rparr>"

definition fill_One :: "'c OneOfSystem \<Rightarrow> 'c OneOfSystem \<Rightarrow> 'c OneOfSystem" where
  "fill_One d s = \<lparr>one_VSIM = fillsp fill_SRVM new_SRVM (one_VSIM d) (one_VSIM s),
     one_VSRI = fillsp fill_SRVM new_SRVM (one_VSRI d) (one_VSRI s),
     one_MAGC = fillsp fill_SRVM new_SRVM (one_MAGC d) (one_MAGC s),
     one_VM = fillsp fill_GeneralVM new_GeneralVM (one_VM d) (one_VM s),
     one_SRL = fillsp fill_SRLinux new_SRLinux (one_SRL d) (one_SRL s),
     one_Pod = fillsp fill_GeneralPod new_GeneralPod (one_Pod d) (one_Pod s),
     one_SRSIM = fillsp fill_SRSim new_SRSim (one_SRSIM d) (one_SRSIM s)\<rparr>"

definition fill_KNLConfig :: "'c KNLConfigSpec \<Rightarrow> 'c KNLConfigSpec \<Rightarrow> 'c KNLConfigSpec" where
  "fill_KNLConfig d s = \<lparr>cfg_SFTPSever = fillp (cfg_SFTPSever d) (cfg_SFTPSever s),
     cfg_VXLANGrpAddr = fillp (cfg_VXLANGrpAddr d) (cfg_VXLANGrpAddr s),
     cfg_VXLANDefaultDev = fillp (cfg_VXLANDefaultDev d) (cfg_VXLANDefaultDev s),
     cfg_VxDevMap = fillp (cfg_VxDevMap d) (cfg_VxDevMap s),
     cfg_PVCStorageClass = fillp (cfg_PVCStorageClass d) (cfg_PVCStorageClass s),
     cfg_SRCPMLoaderImage = fillp (cfg_SRCPMLoaderImage d) (cfg_SRCPMLoaderImage s),
     cfg_SRIOMLoaderImage = fillp (cfg_SRIOMLoaderImage d) (cfg_SRIOMLoaderImage s),
     cfg_SideCarHookImg = fillp (cfg_SideCarHookImg d) (cfg_SideCarHookImg s),
     cfg_DefaultNode = fillsp fill_One new_OneOfSystem (cfg_DefaultNode d) (cfg_DefaultNode s)\<rparr>"

text \<open>
  \<open>FillNilPointers(dst, src)\<close> on two \<open>System\<close> values: both hold a pointer to a struct, so of
  its checks only the comparison of the two types can fail.
\<close>

definition type_name :: "'c System \<Rightarrow> string" where
  "type_name s = (case s of SysVSIM _ \<Rightarrow> ''v1beta1.VSIM'' | SysVSRI _ \<Rightarrow> ''v1beta1.VSRI''
     | SysMAGC _ \<Rightarrow> ''v1beta1.MAGC'' | SysVM _ \<Rightarrow> ''v1beta1.GeneralVM'' | SysSRL _ \<Rightarrow> ''v1beta1.SRLinux''
     | SysPod _ \<Rightarrow> ''v1beta1.GeneralPod'' | SysSRSIM _ \<Rightarrow> ''v1beta1.SRSim'')"

definition type_mismatch :: "'c System \<Rightarrow> 'c System \<Rightarrow> 'c System result" where
  "type_mismatch d s = errf ''src type %s doesn't match dst type %s'' [type_name s, type_name d]"

definition FillNilPointers :: "'c System \<Rightarrow> 'c System \<Rightarrow> 'c System result" where
  "FillNilPointers dst src = (case dst of
      SysVSIM d \<Rightarrow> (case src of SysVSIM s \<Rightarrow> Inr (SysVSIM (fill_SRVM d s)) | _ \<Rightarrow> type_mismatch dst src)
    | SysVSRI d \<Rightarrow> (case src of SysVSRI s \<Rightarrow> Inr (SysVSRI (fill_SRVM d s)) | _ \<Rightarrow> type_mismatch dst src)
    | SysMAGC d \<Rightarrow> (case src of SysMAGC s \<Rightarrow> Inr (SysMAGC (fill_SRVM d s)) | _ \<Rightarrow> type_mismatch dst src)
    | SysVM d \<Rightarrow> (case src of SysVM s \<Rightarrow> Inr (SysVM (fill_GeneralVM d s)) | _ \<Rightarrow> type_mismatch dst src)
    | SysSRL d \<Rightarrow> (case src of SysSRL s \<Rightarrow> Inr (SysSRL (fill_SRLinux d s)) | _ \<Rightarrow> type_mismatch dst src)
    | SysPod d \<Rightarrow> (case src of SysPod s \<Rightarrow> Inr (SysPod (fill_GeneralPod d s)) | _ \<Rightarrow> type_mismatch dst src)
    | SysSRSIM d \<Rightarrow> (case src of SysSRSIM s \<Rightarrow> Inr (SysSRSIM (fill_SRSim d s)) | _ \<Rightarrow> type_mismatch dst src))"

section \<open>Reflection of the records\<close>

datatype 'c leaf =
    LStr string | LQty quantity | LBool bool | LPorts "Port list"
  | LCards "'c gomap" | LDevs "string gomap"

abbreviation tBasicPtr :: gotype where "tBasicPtr \<equiv> TPointer TBasic"
abbreviation tQty :: gotype where "tQty \<equiv> TPointer (TStruct ''resource.Quantity'' [(False, TBasic)])"

definition enc_p :: "('a \<Rightarrow> 'c leaf) \<Rightarrow> 'a option \<Rightarrow> 'c leaf goval" where
  "enc_p f p = (case p of None \<Rightarrow> VNil | Some x \<Rightarrow> VPtr (VLeaf (f x)))"

definition enc_q :: "quantity option \<Rightarrow> 'c leaf goval" where
  "enc_q p = (case p of None \<Rightarrow> VNil | Some x \<Rightarrow> VPtr (VStruct [VLeaf (LQty x)]))"

definition enc_m :: "('a \<Rightarrow> 'c leaf) \<Rightarrow> 'a option \<Rightarrow> 'c leaf goval" where
  "enc_m f p = (case p of None \<Rightarrow> VNil | Some x \<Rightarrow> VMap (f x))"

definition enc_s :: "('a \<Rightarrow> 'c leaf goval list) \<Rightarrow> 'a option \<Rightarrow> 'c leaf goval" where
  "enc_s f p = (case p of None \<Rightarrow> VNil | Some x \<Rightarrow> VPtr (VStruct (f x)))"

abbreviation exported :: "gotype list \<Rightarrow> (bool \<times> gotype) list" where
  "exported ts \<equiv> map (Pair True) ts"

definition ty_chassis :: "(bool \<times> gotype) list" where
  "ty_chassis = exported [tBasicPtr, tBasicPtr, TMap, tBasicPtr, tBasicPtr]"

definition ty_SRVM :: "(bool \<times> gotype) list" where
  "ty_SRVM = exported [TPointer (TStruct ''SRChassis'' ty_chassis), tBasicPtr, tQty, tBasicPtr, tBasicPtr, tBasicPtr]"

definition ty_SRSim :: "(bool \<times> gotype) list" where
  "ty_SRSim = exported [tBasicPtr, TPointer (TStruct ''SRChassis'' ty_chassis), tBasicPtr]"

definition ty_SRLinux :: "(bool \<times> gotype) list" where
  "ty_SRLinux = exported [tBasicPtr, tBasicPtr, tBasicPtr, tQty, tQty]"

definition ty_GeneralPod :: "(bool \<times> gotype) list" where
  "ty_GeneralPod = exported [tBasicPtr, tBasicPtr, tBasicPtr, tQty, tQty, tQty]"

definition ty_GeneralVM :: "(bool \<times> gotype) list" where
  "ty_GeneralVM = exported [tQty, tQty, tQty, tBasicPtr, tBasicPtr, tBasicPtr, tBasicPtr, tBasicPtr, tBasicPtr, tBasicPtr]"

definition ty_One :: "(bool \<times> gotype) list" where
  "ty_One = exported [TPointer (TStruct ''VSIM'' ty_SRVM), TPointer (TStruct ''VSRI'' ty_SRVM),
     TPointer (TStruct ''MAGC'' ty_SRVM), TPointer (TStruct ''GeneralVM'' ty_GeneralVM),
     TPointer (TStruct ''SRLinux'' ty_SRLinux), TPointer (TStruct ''GeneralPod'' ty_GeneralPod),
     TPointer (TStruct ''SRSim'' ty_SRSim)]"

definition ty_KNLConfig :: "(bool \<times> gotype) list" where
  "ty_KNLConfig = exported [tBasicPtr, tBasicPtr, tBasicPtr, TMap, tBasicPtr, tBasicPtr, tBasicPtr,
     tBasicPtr, TPointer (TStruct ''OneOfSystem'' ty_One)]"

definition enc_chassis :: "'c SRChassis \<Rightarrow> 'c leaf goval list" where
  "enc_chassis v = [enc_p LStr (ch_Type v), enc_p LStr (ch_Model v), enc_m LCards (ch_Cards v),
     enc_p LStr (ch_SFM v), enc_p LStr (ch_ChassisMAC v)]"

definition enc_SRVM :: "'c SRVM \<Rightarrow> 'c leaf goval list" where
  "enc_SRVM v = [enc_s enc_chassis (srvm_Chassis v), enc_p LStr (srvm_Image v), enc_q (srvm_DiskSize v),
     enc_p LStr (srvm_License v), enc_p LStr (srvm_UUID v), enc_p LBool (srvm_Dedicate v)]"

definition enc_SRSim :: "'c SRSim \<Rightarrow> 'c leaf goval list" where
  "enc_SRSim v = [enc_p LStr (srsim_Image v), enc_s enc_chassis (srsim_Chassis v), enc_p LStr (srsim_LicSecret v)]"

definition enc_SRLinux :: "SRLinux \<Rightarrow> 'c leaf goval list" where
  "enc_SRLinux v = [enc_p LStr (srl_Image v), enc_p LStr (srl_Chassis v), enc_p LStr (srl_LicSecret v),
     enc_q (srl_ReqMemory v), enc_q (srl_ReqCPU v)]"

definition enc_GeneralPod :: "GeneralPod \<Rightarrow> 'c leaf goval list" where
  "enc_GeneralPod v = [enc_p LStr (gpod_Image v), enc_p LStr (gpod_Command v), enc_p LBool (gpod_Privileged v),
     enc_q (gpod_PvcSize v), enc_q (gpod_ReqMemory v), enc_q (gpod_ReqCPU v)]"

definition enc_GeneralVM :: "GeneralVM \<Rightarrow> 'c leaf goval list" where
  "enc_GeneralVM v = [enc_q (gvm_ReqMemory v), enc_q (gvm_ReqCPU v), enc_q (gvm_DiskSize v),
     enc_p LBool (gvm_PinCPU v), enc_p LBool (gvm_HugePage v), enc_p LStr (gvm_Image v),
     enc_p LStr (gvm_InitMethod v), enc_p LPorts (gvm_Ports v), enc_p LStr (gvm_Username v),
     enc_p LStr (gvm_Password v)]"

definition enc_One :: "'c OneOfSystem \<Rightarrow> 'c leaf goval list" where
  "enc_One v = [enc_s enc_SRVM (one_VSIM v), enc_s enc_SRVM (one_VSRI v), enc_s enc_SRVM (one_MAGC v),
     enc_s enc_GeneralVM (one_VM v), enc_s enc_SRLinux (one_SRL v), enc_s enc_GeneralPod (one_Pod v),
     enc_s enc_SRSim (one_SRSIM v)]"

definition enc_KNLConfig :: "'c KNLConfigSpec \<Rightarrow> 'c leaf goval list" where
  "enc_KNLConfig v = [enc_p LStr (cfg_SFTPSever v), enc_p LStr (cfg_VXLANGrpAddr v),
     enc_p LStr (cfg_VXLANDefaultDev v), enc_m LDevs (cfg_VxDevMap v), enc_p LStr (cfg_PVCStorageClass v),
     enc_p LStr (cfg_SRCPMLoaderImage v), enc_p LStr (cfg_SRIOMLoaderImage v),
     enc_p LStr (cfg_SideCarHookImg v), enc_s enc_One (cfg_DefaultNode v)]"

section \<open>The two merges agree\<close>

lemma fill_enc_p [simp]: "fillField tBasicPtr (enc_p f d) (enc_p f s) = enc_p f (fillp d s)"
  by (auto simp: enc_p_def fillp_def split: option.splits)

lemma fill_enc_q [simp]: "fillField tQty (enc_q d) (enc_q s) = enc_q (fillp d s)"
  by (auto simp: enc_q_def fillp_def split: option.splits)

lemma fill_enc_m [simp]: "fillField TMap (enc_m f d) (enc_m f s) = enc_m f (fillp d s)"
  by (auto simp: enc_m_def fillp_def split: option.splits)

lemma fill_enc_s:
  assumes "nm \<noteq> ''resource.Quantity''" "nm \<noteq> ''metav1.Time''"
    and "\<And>x y. fillNilPointersValue ts (e x) (e y) = e (f x y)" and "e new = zeros ts"
  shows "fillField (TPointer (TStruct nm ts)) (enc_s e d) (enc_s e s) = enc_s e (fillsp f new d s)"
  using assms(1,2,3) assms(4) [symmetric]
  by (auto simp: enc_s_def fillsp_def Let_def split: option.splits)

lemma enc_None [simp]: "enc_p f None = VNil" "enc_q None = VNil" "enc_m g None = VNil" "enc_s h None = VNil"
  by (simp_all add: enc_p_def enc_q_def enc_m_def enc_s_def)

lemma enc_fill_chassis: "fillNilPointersValue ty_chassis (enc_chassis d) (enc_chassis s) = enc_chassis (fill_chassis d s)"
  by (simp add: ty_chassis_def enc_chassis_def fill_chassis_def del: fillField.simps)

lemma enc_new_chassis: "enc_chassis new_chassis = zeros ty_chassis"
  by (simp add: ty_chassis_def enc_chassis_def new_chassis_def)

lemmas fill_chassis_ptr = fill_enc_s [OF _ _ enc_fill_chassis enc_new_chassis]

lemma enc_fill_SRVM: "fillNilPointersValue ty_SRVM (enc_SRVM d) (enc_SRVM s) = enc_SRVM (fill_SRVM d s)"
  by (simp add: ty_SRVM_def enc_SRVM_def fill_SRVM_def fill_chassis_ptr del: fillField.simps)

lemma enc_new_SRVM: "enc_SRVM new_SRVM = zeros ty_SRVM"
  by (simp add: ty_SRVM_def enc_SRVM_def new_SRVM_def)

lemma enc_fill_SRSim: "fillNilPointersValue ty_SRSim (enc_SRSim d) (enc_SRSim s) = enc_SRSim (fill_SRSim d s)"
  by (simp add: ty_SRSim_def enc_SRSim_def fill_SRSim_def fill_chassis_ptr del: fillField.simps)

lemma enc_new_SRSim: "enc_SRSim new_SRSim = zeros ty_SRSim"
  by (simp add: ty_SRSim_def enc_SRSim_def new_SRSim_def)

lemma enc_fill_SRLinux:
  "fillNilPointersValue ty_SRLinux (enc_SRLinux d) (enc_SRLinux s) = enc_SRLinux (fill_SRLinux d s)"
  by (simp add: ty_SRLinux_def enc_SRLinux_def fill_SRLinux_def del: fillField.simps)

lemma enc_new_SRLinux: "enc_SRLinux new_SRLinux = zeros ty_SRLinux"
  by (simp add: ty_SRLinux_def enc_SRLinux_def new_SRLinux_def)

lemma enc_fill_GeneralPod:
  "fillNilPointersValue ty_GeneralPod (enc_GeneralPod d) (enc_GeneralPod s) = enc_GeneralPod (fill_GeneralPod d s)"
  by (simp add: ty_GeneralPod_def enc_GeneralPod_def fill_GeneralPod_def del: fillField.simps)

lemma enc_new_GeneralPod: "enc_GeneralPod new_GeneralPod = zeros ty_GeneralPod"
  by (simp add: ty_GeneralPod_def enc_GeneralPod_def new_GeneralPod_def)

lemma enc_fill_GeneralVM:
  "fillNilPointersValue ty_GeneralVM (enc_GeneralVM d) (enc_GeneralVM s) = enc_GeneralVM (fill_GeneralVM d s)"
  by (simp add: ty_GeneralVM_def enc_GeneralVM_def fill_GeneralVM_def del: fillField.simps)

lemma enc_new_GeneralVM: "enc_GeneralVM new_GeneralVM = zeros ty_GeneralVM"
  by (simp add: ty_GeneralVM_def enc_GeneralVM_def new_GeneralVM_def)

lemmas fill_node_ptrs =
  fill_enc_s [OF _ _ enc_fill_SRVM enc_new_SRVM]
  fill_enc_s [OF _ _ enc_fill_SRSim enc_new_SRSim]
  fill_enc_s [OF _ _ enc_fill_SRLinux enc_new_SRLinux]
  fill_enc_s [OF _ _ enc_fill_GeneralPod enc_new_GeneralPod]
  fill_enc_s [OF _ _ enc_fill_GeneralVM enc_new_GeneralVM]

lemma enc_fill_One: "fillNilPointersValue ty_One (enc_One d) (enc_One s) = enc_One (fill_One d s)"
  by (simp add: ty_One_def enc_One_def fill_One_def fill_node_ptrs del: fillField.simps)

lemma enc_new_One: "enc_One new_OneOfSystem = zeros ty_One"
  by (simp add: ty_One_def enc_One_def new_OneOfSystem_def)

lemma enc_fill_KNLConfig:
  "fillNilPointersValue ty_KNLConfig (enc_KNLConfig d) (enc_KNLConfig s) = enc_KNLConfig (fill_KNLConfig d s)"
  by (simp add: ty_KNLConfig_def enc_KNLConfig_def fill_KNLConfig_def
      fill_enc_s [OF _ _ enc_fill_One enc_new_One] del: fillField.simps)

end
