(* ===== verification/Names.thy ===== *)
theory Names
  imports KNL_Types Go_Regexp
begin

text \<open>
  Names and node types: what the operator calls the objects it creates (common.go, link.go,
  srvm_common.go), how a node type is read off a node name (system.go, srvm_common.go), the
  registry of node types, and the checks of host names (common.go).

  The SipHash function is a parameter (\<open>hash\<close>): the theorems hold for every hash.
\<close>

section \<open>Metadata of created objects (common.go)\<close>

record OwnerRef =
  own_Name :: string
  own_UID :: string

record ObjectMeta =
  meta_Name :: string
  meta_Namespace :: string
  meta_Labels :: "string gomap"
  meta_Annotations :: "string gomap"
  meta_Finalizers :: "string list"
  meta_Owners :: "OwnerRef list"
  meta_UID :: string
  meta_DeletionTimestamp :: "string option"

abbreviation K8SLABELAPPKey :: string where "K8SLABELAPPKey \<equiv> ''app.kubernetes.io/name''"
abbreviation K8SLABELAPPVAL :: string where "K8SLABELAPPVAL \<equiv> ''kubenetlab''"
abbreviation K8SLABELSETUPKEY :: string where "K8SLABELSETUPKEY \<equiv> ''lab.kubenetlab.net/name''"
abbreviation K8SLABELNodeKEY :: string where "K8SLABELNodeKEY \<equiv> ''node.kubenetlab.net/name''"
abbreviation ChassisNameAnnotation :: string where "ChassisNameAnnotation \<equiv> ''chassis.kubenetlab.net/name''"
abbreviation ChassisTypeAnnotation :: string where "ChassisTypeAnnotation \<equiv> ''chassis.kubenetlab.net/type''"
abbreviation BridgeIndexLabelKey :: string where "BridgeIndexLabelKey \<equiv> ''bridge.kubenetlab.net/index''"

definition GetObjMeta :: "string \<Rightarrow> string \<Rightarrow> string \<Rightarrow> string \<Rightarrow> NodeType \<Rightarrow> ObjectMeta" where
  "GetObjMeta objName labName labNS nodeName nodeType =
     (let base = [(K8SLABELAPPKey, K8SLABELAPPVAL), (K8SLABELSETUPKEY, labName)];
          labels = (if nodeName \<noteq> []
                    then AList.update ChassisTypeAnnotation nodeType
                           (AList.update ChassisNameAnnotation nodeName base)
                    else base)
      in \<lparr>meta_Name = objName, meta_Namespace = labNS, meta_Labels = labels, meta_Annotations = [],
          meta_Finalizers = [], meta_Owners = [], meta_UID = [], meta_DeletionTimestamp = None\<rparr>)"

lemma GetObjMeta_sel [simp]:
  "meta_Name (GetObjMeta n l ns nd t) = n"
  "meta_Namespace (GetObjMeta n l ns nd t) = ns"
  "meta_Finalizers (GetObjMeta n l ns nd t) = []"
  "meta_Owners (GetObjMeta n l ns nd t) = []"
  by (simp_all add: GetObjMeta_def Let_def)

section \<open>Object names\<close>

definition GetPodName :: "string \<Rightarrow> string \<Rightarrow> string" where
  "GetPodName lab node = lab @ ''-'' @ node"

definition Getk8lanName :: "string \<Rightarrow> string \<Rightarrow> string" where
  "Getk8lanName lab link = lab @ ''-'' @ link"

definition Getk8lanBRName :: "string \<Rightarrow> string \<Rightarrow> string" where
  "Getk8lanBRName lab link = ''k8slanbr''"

definition Getk8lanVxName :: "string \<Rightarrow> string \<Rightarrow> int \<Rightarrow> string" where
  "Getk8lanVxName lab link vni = ''klanvx'' @ Itoa vni"

definition getSpokeName :: "int \<Rightarrow> int \<Rightarrow> string" where
  "getSpokeName vni connectorIndex = ''klan'' @ Itoa vni @ ''-'' @ Itoa connectorIndex"

definition GetVSROSFBName :: "string \<Rightarrow> string \<Rightarrow> string" where
  "GetVSROSFBName lab chassis = ToLower (lab @ ''-'' @ chassis @ ''-fb'')"

definition GetMAGCDFName :: "string \<Rightarrow> string \<Rightarrow> string" where
  "GetMAGCDFName lab chassis = ''magc-'' @ lab @ ''-'' @ chassis @ ''-fb''"

definition GetNodeLinkCombName :: "string \<Rightarrow> string \<Rightarrow> string \<Rightarrow> string" where
  "GetNodeLinkCombName lab node link = lab @ ''-'' @ node @ ''-'' @ link"

definition GetSRVMDVName :: "string \<Rightarrow> string \<Rightarrow> string \<Rightarrow> string" where
  "GetSRVMDVName lab node slot = ToLower (lab @ ''-'' @ node @ ''-'' @ slot)"

definition GetVMPCDVName :: "string \<Rightarrow> string \<Rightarrow> string" where
  "GetVMPCDVName lab node = ToLower (lab @ ''-'' @ node)"

definition GetSRVMCardVMName :: "string \<Rightarrow> string \<Rightarrow> string \<Rightarrow> string" where
  "GetSRVMCardVMName lab chassis slot = ToLower (lab @ ''-'' @ chassis @ ''-'' @ slot)"

definition getSRVMLicFileName :: "string \<Rightarrow> string \<Rightarrow> string" where
  "getSRVMLicFileName lab chassis = ToLower (lab @ ''-'' @ chassis)"

definition getFullQualifiedSRVMChassisName :: "string \<Rightarrow> string \<Rightarrow> string" where
  "getFullQualifiedSRVMChassisName lab chassis = ToLower (lab @ ''-'' @ chassis)"

text \<open>\<open>big.Int.Text(62)\<close> and the interface names made from a hash.\<close>

definition Text62 :: "int \<Rightarrow> string" where
  "Text62 i = (if i < 0 then CHR ''-'' # show_base 62 (nat (- i)) else show_base 62 (nat i))"

definition GenerateHashedInterfaceName :: "(string \<Rightarrow> 64 word) \<Rightarrow> string \<Rightarrow> string \<Rightarrow> string result" where
  "GenerateHashedInterfaceName hash linkName suffix =
     (let t = Text62 (sint (hash linkName));
          base62str = (if HasPrefix t ''-'' then CHR ''N'' # tl t else t);
          rstr = base62str @ suffix
      in if length rstr > 14 then Inl (Panic (rstr @ '' is too long'')) else Inr rstr)"

definition GetMACVTAPResName :: "(string \<Rightarrow> 64 word) \<Rightarrow> string \<Rightarrow> string \<Rightarrow> string \<Rightarrow> string result" where
  "GetMACVTAPResName hash lab node link =
     GenerateHashedInterfaceName hash (GetNodeLinkCombName lab node link) ''a''"

definition GetMACVTAPBrName :: "(string \<Rightarrow> 64 word) \<Rightarrow> string \<Rightarrow> string \<Rightarrow> string result" where
  "GetMACVTAPBrName hash lab link = GenerateHashedInterfaceName hash (lab @ link) []"

definition GetMACVTAPVethBrName :: "(string \<Rightarrow> 64 word) \<Rightarrow> string \<Rightarrow> string \<Rightarrow> string \<Rightarrow> string result" where
  "GetMACVTAPVethBrName hash lab node link =
     GenerateHashedInterfaceName hash (GetNodeLinkCombName lab node link) ''b''"

definition GetMACVTAPVXLANIfName :: "(string \<Rightarrow> 64 word) \<Rightarrow> string \<Rightarrow> string \<Rightarrow> string result" where
  "GetMACVTAPVXLANIfName hash lab link = GenerateHashedInterfaceName hash (lab @ link) ''v''"

definition GetLinkMACVTAPNADName :: "string \<Rightarrow> string \<Rightarrow> string \<Rightarrow> string" where
  "GetLinkMACVTAPNADName lab node link = GetNodeLinkCombName lab node link"

text \<open>Paths of the file server (common.go).\<close>

definition GetFTPSROSImgPath :: "string \<Rightarrow> string \<Rightarrow> string" where
  "GetFTPSROSImgPath labName chassisName = JoinPath [''/imgs'', labName @ ''-'' @ chassisName @ ''-os'']"

definition GetSFTPSROSImgPath :: "string \<Rightarrow> string \<Rightarrow> string" where
  "GetSFTPSROSImgPath labName chassisName = JoinPath [''/knlroot'', GetFTPSROSImgPath labName chassisName]"

definition GetSRConfigFTPSubFolder :: "string \<Rightarrow> string \<Rightarrow> string" where
  "GetSRConfigFTPSubFolder labname chassisName = JoinPath [''/knlroot'', ''cfgs'', labname, chassisName]"

section \<open>Node types from names (system.go, srvm_common.go)\<close>

definition NewSysRegistry :: "(NodeType \<times> 'c System) list" where
  "NewSysRegistry = [(SRVMVSIM, SysVSIM new_SRVM), (SRVMVSRI, SysVSRI new_SRVM),
     (SRVMMAGC, SysMAGC new_SRVM), (SRSIM, SysSRSIM new_SRSim), (SRL, SysSRL new_SRLinux),
     (Pod, SysPod new_GeneralPod), (VM, SysVM new_GeneralVM)]"

definition GetNewSystemViaType :: "NodeType \<Rightarrow> 'c System option" where
  "GetNewSystemViaType t = map_of NewSysRegistry t"

definition GetNodeTypeViaName :: "string \<Rightarrow> NodeType" where
  "GetNodeTypeViaName name =
     (case IndexByte name (CHR ''-'') of
        Some i \<Rightarrow> if i > 0 then take i name else Unknown
      | None \<Rightarrow> Unknown)"

definition GetNewSystemViaName :: "string \<Rightarrow> 'c System option" where
  "GetNewSystemViaName name = GetNewSystemViaType (GetNodeTypeViaName name)"

definition IsSRVM :: "NodeType \<Rightarrow> bool" where
  "IsSRVM nodeT \<longleftrightarrow> nodeT = SRVMMAGC \<or> nodeT = SRVMVSIM \<or> nodeT = SRVMVSRI"

definition IsSRType :: "NodeType \<Rightarrow> bool" where
  "IsSRType nt \<longleftrightarrow> IsSRVM nt \<or> nt = SRSIM"

text \<open>A type assertion \<open>sys.(*T)\<close> panics on a nil interface and on another type.\<close>

definition failed_assertion :: "'a result" where
  "failed_assertion = Inl (Panic ''interface conversion'')"

definition GetChassisFromSys :: "string \<Rightarrow> 'c System option \<Rightarrow> 'c SRChassis option result" where
  "GetChassisFromSys nodeName sys =
     (let t = GetNodeTypeViaName nodeName
      in if t = SRSIM then (case sys of Some (SysSRSIM v) \<Rightarrow> Inr (srsim_Chassis v) | _ \<Rightarrow> failed_assertion)
         else if t = SRVMMAGC then (case sys of Some (SysMAGC v) \<Rightarrow> Inr (srvm_Chassis v) | _ \<Rightarrow> failed_assertion)
         else if t = SRVMVSIM then (case sys of Some (SysVSIM v) \<Rightarrow> Inr (srvm_Chassis v) | _ \<Rightarrow> failed_assertion)
         else if t = SRVMVSRI then (case sys of Some (SysVSRI v) \<Rightarrow> Inr (srvm_Chassis v) | _ \<Rightarrow> failed_assertion)
         else Inr None)"

definition GetSRVMviaSys :: "string \<Rightarrow> 'c System option \<Rightarrow> 'c SRVM option result" where
  "GetSRVMviaSys nodeName sys =
     (let t = GetNodeTypeViaName nodeName
      in if t = SRVMMAGC then (case sys of Some (SysMAGC v) \<Rightarrow> Inr (Some v) | _ \<Rightarrow> failed_assertion)
         else if t = SRVMVSIM then (case sys of Some (SysVSIM v) \<Rightarrow> Inr (Some v) | _ \<Rightarrow> failed_assertion)
         else if t = SRVMVSRI then (case sys of Some (SysVSRI v) \<Rightarrow> Inr (Some v) | _ \<Rightarrow> failed_assertion)
         else Inr None)"

text \<open>
  \<open>ParseSRVMName_New\<close> returns a type beside its error, and its callers drop the error. The values
  that \<open>ParseSRVMName\<close> and \<open>ParseCardID\<close> return beside an error are read by no caller, so there an
  error is the whole result.
\<close>

definition ParseSRVMName_New :: "string \<Rightarrow> NodeType \<times> unit result" where
  "ParseSRVMName_New name =
     (let slist = Split (TrimSpace name) ''-''
      in if length slist < 2 then ([], errf ''%v is not a valid name'' [name])
         else if IsSRVM (slist ! 0) then (slist ! 0, Inr ())
         else (Unknown, errf ''unknown SR VM type %v'' [slist ! 0]))"

definition ParseSRVMName :: "string \<Rightarrow> (NodeType \<times> int \<times> string) result" where
  "ParseSRVMName name =
     (let slist = Split (TrimSpace name) ''-''
      in if length slist < 2 then errf ''%v is not a valid name'' [name]
         else
           let vmtype = slist ! 0; vmid = Atoi (slist ! 1)
           in if vmtype = SRVMVSRI then bindr vmid (\<lambda>i. Inr (vmtype, i, ''a''))
              else if vmtype = SRVMVSIM \<or> vmtype = SRVMMAGC then
                (if length slist < 3 then errf ''%v is not a valid name'' [name]
                 else bindr vmid (\<lambda>i. Inr (vmtype, i, slist ! 2)))
              else bindr vmid (\<lambda>i. Inr (vmtype, i, [])))"

definition ParseCardID :: "string \<Rightarrow> (int \<times> bool) result" where
  "ParseCardID cardid =
     (if cardid = ''a'' then Inr (199, True)
      else if cardid = ''b'' then Inr (198, True)
      else bindr (Atoi cardid) (\<lambda>n. Inr (n, False)))"

definition IsCPM :: "string \<Rightarrow> bool" where
  "IsCPM slot = (let nslot = ToLower slot in nslot = ''a'' \<or> nslot = ''b'')"

section \<open>Sysinfo strings (common.go)\<close>

definition GenSysinfo :: "string \<Rightarrow> string \<Rightarrow> string \<Rightarrow> string" where
  "GenSysinfo baseSysinfo cfgURL licURL =
     ''TIMOS: '' @ baseSysinfo @ '' address='' @ ''10.0.2.2/24'' @ ''@active address='' @ ''10.0.2.3/24'' @
     ''@standby primary-config='' @ cfgURL @ '' license-file='' @ licURL @
     '' static-route=0.0.0.0/0@'' @ ''10.0.2.1''"

definition IsIntegratedChassis :: "string \<Rightarrow> bool" where
  "IsIntegratedChassis chassisModel =
     (let m = ToLower chassisModel
      in m = ''sr-1'' \<or> m = ''sr-1s'' \<or> m = ''vsr-i'' \<or> m = ''sr-1se'' \<or>
         HasPrefix m ''sr-1x-'' \<or> HasPrefix m ''sr-1-'')"

fun first_chassis_field :: "string list \<Rightarrow> string" where
  "first_chassis_field [] = []"
| "first_chassis_field (f # fs) =
     (case CutPrefix (TrimSpace f) ''chassis='' of Some rs \<Rightarrow> rs | None \<Rightarrow> first_chassis_field fs)"

definition GetChassisFromSysinfoStr :: "string \<Rightarrow> string" where
  "GetChassisFromSysinfoStr sysinfostr = first_chassis_field (Fields (TrimSpace sysinfostr))"

definition IsIntegratedChassisViaSysinfo :: "string \<Rightarrow> bool" where
  "IsIntegratedChassisViaSysinfo sysinfo = IsIntegratedChassis (GetChassisFromSysinfoStr sysinfo)"

section \<open>Host names (common.go)\<close>

definition IsValidFQDN :: "string \<Rightarrow> bool" where
  "IsValidFQDN s = (if length s > 253 then False else matches fqdnRegex s)"

definition IsIPOrFQDN :: "string \<Rightarrow> bool" where
  "IsIPOrFQDN host = (if ParseIP host \<noteq> None then True else IsValidFQDN host)"

definition IsHostPort :: "string \<Rightarrow> bool" where
  "IsHostPort inputs =
     (case SplitHostPort inputs of Inl _ \<Rightarrow> False | Inr (host, _) \<Rightarrow> IsIPOrFQDN host)"

section \<open>Interface names\<close>

lemma Text62_length: "- (2 ^ 63) \<le> i \<Longrightarrow> i < 2 ^ 63 \<Longrightarrow>
    length (Text62 i) \<le> (if i < 0 then 12 else 11)"
proof -
  assume i: "- (2 ^ 63) \<le> i" "i < 2 ^ 63"
  have "nat \<bar>i\<bar> < 62 ^ 11" using i by (simp add: nat_less_iff)
  then have "length (digits_of 62 (nat \<bar>i\<bar>)) \<le> 11" by (intro digits_of_length) auto
  then show ?thesis by (auto simp: Text62_def show_base_def abs_if split: if_splits)
qed

lemma sint_64_bounds: "- (2 ^ 63) \<le> sint (w :: 64 word)" "sint (w :: 64 word) < 2 ^ 63"
  using sint_greater_eq [of w] sint_less [of w] by simp_all

lemma hashed_name:
  assumes "length suffix \<le> 2"
  shows "\<exists>r. GenerateHashedInterfaceName hash linkName suffix = Inr r \<and> length r \<le> 12 + length suffix"
proof -
  let ?t = "Text62 (sint (hash linkName))"
  have len: "length ?t \<le> 12"
    using Text62_length [OF sint_64_bounds, of "hash linkName"] by (auto split: if_splits)
  moreover have "length (CHR ''N'' # tl ?t) \<le> 12" if "HasPrefix ?t ''-''"
    using that len by (cases ?t) (auto simp: HasPrefix_def)
  ultimately show ?thesis
    using assms by (auto simp: GenerateHashedInterfaceName_def Let_def)
qed

lemma Itoa_no_dash: "0 \<le> i \<Longrightarrow> CHR ''-'' \<notin> set (Itoa i)"
  by (simp add: Itoa_def)

lemma getSpokeName_inj:
  assumes "0 \<le> vni" "0 \<le> vni'"
  shows "getSpokeName vni i = getSpokeName vni' i' \<longleftrightarrow> vni = vni' \<and> i = i'"
proof
  assume "getSpokeName vni i = getSpokeName vni' i'"
  then have "Itoa vni @ CHR ''-'' # Itoa i = Itoa vni' @ CHR ''-'' # Itoa i'"
    by (simp add: getSpokeName_def)
  from dash_pair_inj [OF Itoa_no_dash [OF assms(1)] Itoa_no_dash [OF assms(2)] this]
  show "vni = vni' \<and> i = i'" by (simp add: Itoa_inj)
qed simp

lemma length_Itoa: "0 \<le> i \<Longrightarrow> i < 10 ^ k \<Longrightarrow> 0 < k \<Longrightarrow> length (Itoa i) \<le> k"
  using digits_of_length [of 10 "nat i" k]
  by (simp add: Itoa_def show_nat_def show_base_def nat_less_iff)

lemma getSpokeName_length:
  assumes "0 \<le> vni" "vni \<le> 16777215" "0 \<le> i" "i < 100"
  shows "length (getSpokeName vni i) \<le> 15"
  using length_Itoa [of vni 8] length_Itoa [of i 2] assms by (simp add: getSpokeName_def)

lemma Getk8lanVxName_length: "0 \<le> vni \<Longrightarrow> vni \<le> 16777215 \<Longrightarrow> length (Getk8lanVxName lab link vni) \<le> 15"
  using length_Itoa [of vni 8] by (simp add: Getk8lanVxName_def)

lemma Getk8lanVxName_inj: "Getk8lanVxName l k vni = Getk8lanVxName l' k' vni' \<longleftrightarrow> vni = vni'"
  by (simp add: Getk8lanVxName_def Itoa_inj)

text \<open>Names of labs with a dash in them collide; within one lab, or when no lab name has a dash, they do not.\<close>

lemma Getk8lanName_inj:
  "lab = lab' \<or> (CHR ''-'' \<notin> set lab \<and> CHR ''-'' \<notin> set lab') \<Longrightarrow>
   Getk8lanName lab link = Getk8lanName lab' link' \<longleftrightarrow> lab = lab' \<and> link = link'"
  using dash_pair_inj [of lab lab' link link'] by (auto simp: Getk8lanName_def)

lemma Getk8lanName_collides: "Getk8lanName ''a-b'' ''c'' = Getk8lanName ''a'' ''b-c''"
  by (simp add: Getk8lanName_def)

section \<open>Node types\<close>

lemma takeWhile_prefix:
  "c \<notin> set t \<Longrightarrow> takeWhile (\<lambda>x. x \<noteq> c) (t @ c # r) = t"
  by (induction t) auto

lemma GetNodeTypeViaName_dash:
  "t \<noteq> [] \<Longrightarrow> CHR ''-'' \<notin> set t \<Longrightarrow> GetNodeTypeViaName (t @ CHR ''-'' # r) = t"
  by (simp add: GetNodeTypeViaName_def IndexByte_def takeWhile_prefix)

lemma GetNodeTypeViaName_cases:
  "GetNodeTypeViaName name = Unknown \<or>
   (\<exists>r. name = GetNodeTypeViaName name @ CHR ''-'' # r \<and> GetNodeTypeViaName name \<noteq> [] \<and>
        CHR ''-'' \<notin> set (GetNodeTypeViaName name))"
proof -
  let ?n = "length (takeWhile (\<lambda>x. x \<noteq> CHR ''-'') name)"
  have t: "take ?n name = takeWhile (\<lambda>x. x \<noteq> CHR ''-'') name"
    by (metis takeWhile_eq_take)
  show ?thesis
  proof (cases "?n < length name \<and> ?n > 0")
    case True
    then have "GetNodeTypeViaName name = take ?n name"
      by (simp add: GetNodeTypeViaName_def IndexByte_def Let_def)
    moreover have "name ! ?n = CHR ''-''"
      using True nth_length_takeWhile [of "\<lambda>x. x \<noteq> CHR ''-''" name] by simp
    then have "name = take ?n name @ CHR ''-'' # drop (Suc ?n) name"
      using True id_take_nth_drop [of ?n name] by simp
    moreover have "CHR ''-'' \<notin> set (take ?n name)"
      unfolding t by (auto dest: set_takeWhileD)
    moreover have "take ?n name \<noteq> []" using True by auto
    ultimately show ?thesis by metis
  qed (auto simp: GetNodeTypeViaName_def IndexByte_def Let_def)
qed

text \<open>The type of a node value, as the registry knows it.\<close>

definition sys_type :: "'c System \<Rightarrow> NodeType" where
  "sys_type s = (case s of SysVSIM _ \<Rightarrow> SRVMVSIM | SysVSRI _ \<Rightarrow> SRVMVSRI | SysMAGC _ \<Rightarrow> SRVMMAGC
     | SysVM _ \<Rightarrow> VM | SysSRL _ \<Rightarrow> SRL | SysPod _ \<Rightarrow> Pod | SysSRSIM _ \<Rightarrow> SRSIM)"

lemma registry_type: "GetNewSystemViaType t = Some s \<Longrightarrow> sys_type s = t"
  by (auto simp: GetNewSystemViaType_def NewSysRegistry_def sys_type_def split: if_splits)

lemma registry_complete: "\<exists>s. GetNewSystemViaType (sys_type (x :: 'c System)) = Some (s :: 'c System)"
  by (cases x) (simp_all add: GetNewSystemViaType_def NewSysRegistry_def sys_type_def)

text \<open>
  The accessors that cast a node by its name succeed exactly when the node has the type its
  name announces.
\<close>

lemma GetSRVMviaSys_ok: "\<exists>v. GetSRVMviaSys nodeName (Some s) = Inr v"
  if "IsSRVM (GetNodeTypeViaName nodeName) \<Longrightarrow> sys_type s = GetNodeTypeViaName nodeName"
  using that by (cases s) (auto simp: GetSRVMviaSys_def IsSRVM_def sys_type_def Let_def)

lemma GetSRVMviaSys_panics:
  "panics (GetSRVMviaSys nodeName sys) \<longleftrightarrow>
   IsSRVM (GetNodeTypeViaName nodeName) \<and> map_option sys_type sys \<noteq> Some (GetNodeTypeViaName nodeName)"
  by (auto simp: GetSRVMviaSys_def IsSRVM_def sys_type_def Let_def failed_assertion_def
      split: option.split System.split)

lemma GetChassisFromSys_panics:
  "panics (GetChassisFromSys nodeName sys) \<longleftrightarrow>
   IsSRType (GetNodeTypeViaName nodeName) \<and> map_option sys_type sys \<noteq> Some (GetNodeTypeViaName nodeName)"
  by (auto simp: GetChassisFromSys_def IsSRType_def IsSRVM_def sys_type_def Let_def failed_assertion_def
      split: option.split System.split)

lemma ParseSRVMName_not_panics [simp]: "\<not> panics (ParseSRVMName name)"
  by (simp add: ParseSRVMName_def Let_def result_simps)

lemma IsCPM_lower: "IsCPM (ToLower slot) \<longleftrightarrow> IsCPM slot"
  by (simp add: IsCPM_def)

section \<open>Host names\<close>

lemma IsValidFQDN_iff:
  "IsValidFQDN s \<longleftrightarrow> length s \<le> 253 \<and> (\<exists>ls. ls \<noteq> [] \<and> list_all good_label ls \<and> s = Join ls ''.'')"
  by (auto simp: IsValidFQDN_def matches_iff lang_fqdnRegex)

end
