(* ===== verification/Chassis.thy ===== *)
theory Chassis
  imports Names Merge
begin

text \<open>
  Cards and chassis of the SR routers (sr.go): validation, the application defaults of the
  chassis, the default sysinfo string, the default IOM slot, and the defaulting of a card.

  The list of cards of a chassis is its map in the order a loop visits it.
  \<open>GetDefaultSysinfoStr\<close> prints the field \<open>xiom.Model\<close>, a pointer, with \<open>%v\<close>: what comes out
  is the address. The parameter \<open>ptr\<close> gives that text for a card slot and an XIOM slot.
\<close>

section \<open>Validation\<close>

definition SRCard_Validate :: "SRCard \<Rightarrow> unit result" where
  "SRCard_Validate crd =
     (if card_Model crd = None then errf ''card type is not specified'' []
      else if entries (card_XIOM crd) \<noteq> [] \<and> (case card_MDAs crd of None \<Rightarrow> False | Some ms \<Rightarrow> ms \<noteq> []) then
        errf ''mdas and xioms are mutully exclusive, can't be both specified'' []
      else Inr ())"

definition SRChassis_Validate :: "SRCard SRChassis \<Rightarrow> unit result" where
  "SRChassis_Validate chassis =
     (if ch_Model chassis = None then errf ''chassis model not specified'' []
      else if ch_Type chassis = None then errf ''chassis type not specified'' []
      else bindr
        (each (\<lambda>(slot, crd). wrapf ''invalid card %v spec: %w'' [slot] (SRCard_Validate crd))
           (entries (ch_Cards chassis)))
        (\<lambda>_. if map_of (entries (ch_Cards chassis)) ''A'' = None then errf ''slot A not specified'' []
             else Inr ()))"

fun first_CPM :: "string list \<Rightarrow> string" where
  "first_CPM [] = ''n/a''"
| "first_CPM (slot # slots) = (if IsCPM slot then slot else first_CPM slots)"

definition GetDefaultCPMSlot :: "'c SRChassis \<Rightarrow> string" where
  "GetDefaultCPMSlot chassis = first_CPM (map fst (entries (ch_Cards chassis)))"

section \<open>Application defaults\<close>

definition getIOMVMListenPorts :: "Port list" where
  "getIOMVMListenPorts = [\<lparr>port_Name = ''dummy'', port_Protocol = ''TCP'', port_Port = 1\<rparr>]"

definition getCPMVMListenPorts :: "Port list" where
  "getCPMVMListenPorts =
     [\<lparr>port_Name = ''ssh'', port_Protocol = ''TCP'', port_Port = 22\<rparr>,
      \<lparr>port_Name = ''netconf'', port_Protocol = ''TCP'', port_Port = 830\<rparr>,
      \<lparr>port_Name = ''gnmi'', port_Protocol = ''TCP'', port_Port = 57400\<rparr>,
      \<lparr>port_Name = ''radiuscoa'', port_Protocol = ''UDP'', port_Port = 3799\<rparr>]"

definition DefaultSIMChassis :: "NodeType \<Rightarrow> SRCard SRChassis" where
  "DefaultSIMChassis nt =
     (let cpm = new_card\<lparr>card_Model := Some ''cpm5''\<rparr>;
          cpm' = (if nt = SRVMVSIM
                  then cpm\<lparr>card_ReqMemory := Some (MustParse ''4Gi''),
                           card_ReqCPU := Some (MustParse ''2''),
                           card_ListenPorts := Some getCPMVMListenPorts\<rparr>
                  else cpm\<lparr>card_ReqMemory := Some (MustParse ''4Gi'')\<rparr>);
          iom = new_card\<lparr>card_Model := Some ''iom4-e'',
                         card_MDAs := Some [''me10-10gb-sfp+'', ''me-isa2-ms'']\<rparr>;
          iom' = (if nt = SRVMVSIM
                  then iom\<lparr>card_ReqMemory := Some (MustParse ''4Gi''),
                           card_ReqCPU := Some (MustParse ''2''),
                           card_ListenPorts := Some getIOMVMListenPorts\<rparr>
                  else iom\<lparr>card_ReqMemory := Some (MustParse ''4Gi'')\<rparr>)
      in new_chassis\<lparr>ch_Type := Some nt, ch_Model := Some ''SR-7'', ch_SFM := Some ''m-sfm5-7'',
           ch_Cards := Some [(''A'', cpm'), (''1'', iom')]\<rparr>)"

definition DefaultVSRIChassis :: "SRCard SRChassis" where
  "DefaultVSRIChassis =
     new_chassis\<lparr>ch_Type := Some SRVMVSRI, ch_Model := Some ''VSR-I'',
       ch_Cards := Some
         [(''A'', new_card\<lparr>card_Model := Some ''cpm-v'', card_MDAs := Some [''m20-v'', ''isa-tunnel-v''],
             card_ReqMemory := Some (MustParse ''6Gi''), card_ReqCPU := Some (MustParse ''2''),
             card_ListenPorts := Some getCPMVMListenPorts\<rparr>)]\<rparr>"

definition DefaultMAGCChassis :: "SRCard SRChassis" where
  "DefaultMAGCChassis =
     new_chassis\<lparr>ch_Type := Some SRVMMAGC, ch_Model := Some ''VSR'',
       ch_Cards := Some
         [(''A'', new_card\<lparr>card_Model := Some ''cpm-v'',
             card_ReqMemory := Some (MustParse ''16Gi''), card_ReqCPU := Some (MustParse ''2''),
             card_ListenPorts := Some getCPMVMListenPorts\<rparr>),
          (''1'', new_card\<lparr>card_Model := Some ''iom-v'', card_MDAs := Some [''m20-v''],
             card_ReqMemory := Some (MustParse ''8Gi''), card_ReqCPU := Some (MustParse ''4''),
             card_ListenPorts := Some getIOMVMListenPorts\<rparr>),
          (''2'', new_card\<lparr>card_Model := Some ''iom-v-mg'', card_MDAs := Some [''isa-ms-v''],
             card_ReqMemory := Some (MustParse ''32Gi''), card_ReqCPU := Some (MustParse ''8''),
             card_ListenPorts := Some getIOMVMListenPorts\<rparr>)]\<rparr>"

section \<open>The default sysinfo string and the default IOM slot\<close>

definition mda_fields :: "string \<Rightarrow> string list \<Rightarrow> string" where
  "mda_fields pre mdas =
     concat (map (\<lambda>(i, mda). pre @ show_nat (i + 1) @ ''='' @ mda @ '' '') (List.enumerate 0 mdas))"

definition GetDefaultSysinfoStr ::
  "(string \<Rightarrow> string \<Rightarrow> string) \<Rightarrow> SRCard SRChassis \<Rightarrow> string \<Rightarrow> string result" where
  "GetDefaultSysinfoStr ptr chassis cardid =
     bindr (deref (ch_Model chassis)) (\<lambda>model.
     bindr (deref (map_of (entries (ch_Cards chassis)) cardid)) (\<lambda>crd.
     bindr (deref (card_Model crd)) (\<lambda>cmodel.
     bindr (deref (ch_Type chassis)) (\<lambda>type.
       let head = (case ch_SFM chassis of
                     Some sfm \<Rightarrow> ''chassis='' @ model @ '' sfm='' @ sfm @ '' card='' @ cmodel @ '' slot='' @ cardid @ '' ''
                   | None \<Rightarrow> ''chassis='' @ model @ '' card='' @ cmodel @ '' slot='' @ cardid @ '' '');
           xioms = concat (map (\<lambda>(xslot, xiom).
                     ''xiom/'' @ xslot @ ''='' @ ptr cardid xslot @ '' '' @
                     mda_fields (''mda/'' @ xslot @ ''/'') (xiom_MDAs xiom)) (entries (card_XIOM crd)));
           mdas = (case card_MDAs crd of None \<Rightarrow> [] | Some ms \<Rightarrow> mda_fields ''mda/'' ms);
           magc = (if type = SRVMMAGC then
                     ''vf2vf=1 '' @
                     (if \<not> IsCPM cardid then
                        ''ofabric/1=2 '' @
                        (if ToLower (TrimSpace cmodel) = ''iom-v-mg'' then ''control-cpu-cores=4 compact-fp=1 ''
                         else ''control-cpu-cores=2 '')
                      else [])
                   else [])
       in Inr (head @ xioms @ mdas @ magc)))))"

text \<open>The slots that \<open>GetDefaultMDASlot\<close> collects, as numbers, in visiting order.\<close>

definition iom_slot :: "NodeType option \<Rightarrow> string \<times> SRCard \<Rightarrow> int list \<Rightarrow> int list result" where
  "iom_slot type = (\<lambda>(slot, crd) iomList.
     if \<not> IsCPM slot then
       (case Atoi (TrimSpace slot) of
          Inl e \<Rightarrow> Inl (Panic ''strconv.Atoi'')
        | Inr slotNum \<Rightarrow>
            bindr (deref type) (\<lambda>t.
              if t \<noteq> SRVMMAGC then Inr (iomList @ [slotNum])
              else bindr (deref (card_Model crd)) (\<lambda>m.
                if ToLower m = ''iom-v'' then Inr (iomList @ [slotNum]) else Inr iomList)))
     else Inr iomList)"

definition GetDefaultMDASlot :: "SRCard SRChassis \<Rightarrow> string result" where
  "GetDefaultMDASlot chassis =
     bindr (deref (ch_Model chassis)) (\<lambda>model.
       if IsIntegratedChassis model then
         (case entries (ch_Cards chassis) of (slot, _) # _ \<Rightarrow> Inr slot | [] \<Rightarrow> Inr ''n/a'')
       else bindr (foldm (iom_slot (ch_Type chassis)) (entries (ch_Cards chassis)) []) (\<lambda>iomList.
         case sort iomList of i # _ \<Rightarrow> Inr (Itoa i) | [] \<Rightarrow> Inr ''n/a''))"

section \<open>Defaults of a card\<close>

definition req_default :: "SRCard \<Rightarrow> string \<Rightarrow> string \<Rightarrow> SRCard" where
  "req_default crd mem cpu =
     crd\<lparr>card_ReqMemory := SetDefaultGeneric (card_ReqMemory crd) (MustParse mem),
          card_ReqCPU := SetDefaultGeneric (card_ReqCPU crd) (MustParse cpu)\<rparr>"

definition SRCard_FillDefaultVal :: "SRCard \<Rightarrow> NodeType \<Rightarrow> string \<Rightarrow> SRCard result" where
  "SRCard_FillDefaultVal crd nt cardid =
     bindr
       (if nt = SRSIM then
          Inr (crd\<lparr>card_ReqMemory := SetDefaultGeneric (card_ReqMemory crd) (MustParse ''4Gi'')\<rparr>)
        else if nt = SRVMVSIM then
          (if IsCPM cardid then Inr (req_default crd ''4Gi'' ''2'') else Inr (req_default crd ''4Gi'' ''2''))
        else if nt = SRVMVSRI then Inr (req_default crd ''6Gi'' ''2'')
        else if nt = SRVMMAGC then
          (if IsCPM cardid then Inr (req_default crd ''16Gi'' ''2'')
           else bindr (deref (card_MDAs crd)) (\<lambda>mdas.
             if mdas \<noteq> [] then
               (if hd mdas = ''iom-v-mg'' then Inr (req_default crd ''32Gi'' ''8'')
                else Inr (req_default crd ''8Gi'' ''4''))
             else Inr crd))
        else Inr crd)
       (\<lambda>crd.
          if nt \<noteq> SRSIM then
            Inr (crd\<lparr>card_ListenPorts := SetDefaultGeneric (card_ListenPorts crd)
                        (if IsCPM cardid then getCPMVMListenPorts else getIOMVMListenPorts)\<rparr>)
          else Inr crd)"

section \<open>Facts on validation\<close>

lemma SRCard_Validate_ok: "ok (SRCard_Validate crd) \<longleftrightarrow>
    card_Model crd \<noteq> None \<and> (entries (card_XIOM crd) = [] \<or> card_MDAs crd = None \<or> card_MDAs crd = Some [])"
  by (auto simp: SRCard_Validate_def split: option.splits)

lemma SRCard_Validate_no_panic [simp]: "\<not> panics (SRCard_Validate crd)"
  by (simp add: SRCard_Validate_def)

lemma SRChassis_Validate_ok: "ok (SRChassis_Validate ch) \<longleftrightarrow>
    ch_Model ch \<noteq> None \<and> ch_Type ch \<noteq> None \<and>
    (\<forall>(slot, crd)\<in>set (entries (ch_Cards ch)). ok (SRCard_Validate crd)) \<and>
    ''A'' \<in> fst ` set (entries (ch_Cards ch))"
proof -
  have "(\<exists>u. each (\<lambda>(slot, crd). wrapf ''invalid card %v spec: %w'' [slot] (SRCard_Validate crd)) cs = Inr u) \<longleftrightarrow>
      (\<forall>(slot, crd)\<in>set cs. ok (SRCard_Validate crd))" for cs
    by (auto simp: result_simps ok_unit split: prod.splits)
  then show ?thesis
    by (auto simp: SRChassis_Validate_def ok_bindr map_of_eq_None_iff)
qed

lemma SRChassis_Validate_no_panic [simp]: "\<not> panics (SRChassis_Validate ch)"
  by (auto simp: SRChassis_Validate_def result_simps dest!: panics_each)

section \<open>Facts on the sysinfo string\<close>

lemma GetDefaultSysinfoStr_ok:
  assumes "ok (SRChassis_Validate ch)" and "slot \<in> fst ` set (entries (ch_Cards ch))"
  shows "ok (GetDefaultSysinfoStr ptr ch slot)"
proof -
  from assms(2) obtain crd where crd: "map_of (entries (ch_Cards ch)) slot = Some crd"
    by (metis not_None_eq map_of_eq_None_iff)
  then have "(slot, crd) \<in> set (entries (ch_Cards ch))" by (rule map_of_SomeD)
  with assms(1) have "card_Model crd \<noteq> None"
    by (auto simp: SRChassis_Validate_ok SRCard_Validate_ok)
  with crd assms(1) show ?thesis
    by (auto simp: GetDefaultSysinfoStr_def SRChassis_Validate_ok Let_def)
qed

lemma GetDefaultSysinfoStr_head:
  assumes "GetDefaultSysinfoStr ptr ch slot = Inr s" and "ch_Model ch = Some model"
  shows "\<exists>rest. s = ''chassis='' @ model @ CHR '' '' # rest"
  using assms by (auto simp: GetDefaultSysinfoStr_def Let_def result_simps split: option.splits)

text \<open>The chassis model is read back from the default string, and from the full one built from it.\<close>

lemma first_chassis_of_head:
  assumes "\<forall>c\<in>set model. \<not> is_space c"
  shows "GetChassisFromSysinfoStr (''chassis='' @ model @ CHR '' '' # rest) = model"
proof -
  have w: "\<forall>c\<in>set (''chassis='' @ model). \<not> is_space c"
    using assms by (auto simp: is_space_def)
  have "Fields ((''chassis='' @ model) @ CHR '' '' # rest) = (''chassis='' @ model) # Fields rest"
    by (rule Fields_word) (use w in auto)
  moreover have "CutPrefix (''chassis='' @ model) ''chassis='' = Some model"
    unfolding CutPrefix_Some by simp
  ultimately show ?thesis
    using TrimSpace_id [OF w] by (simp add: GetChassisFromSysinfoStr_def)
qed

lemma sysinfo_chassis:
  assumes "GetDefaultSysinfoStr ptr ch slot = Inr s" and "ch_Model ch = Some model"
    and "\<forall>c\<in>set model. \<not> is_space c"
  shows "GetChassisFromSysinfoStr s = model"
    and "GetChassisFromSysinfoStr (GenSysinfo s cfgURL licURL) = model"
proof -
  obtain rest where s: "s = ''chassis='' @ model @ CHR '' '' # rest"
    using GetDefaultSysinfoStr_head [OF assms(1,2)] by blast
  then show "GetChassisFromSysinfoStr s = model" using assms(3) by (simp only: first_chassis_of_head)
  have "Fields (''TIMOS:'' @ CHR '' '' # r) = ''TIMOS:'' # Fields r" for r
    by (rule Fields_word) (auto simp: is_space_def)
  moreover have "CutPrefix ''TIMOS:'' ''chassis='' = None" by (simp add: CutPrefix_def HasPrefix_def)
  moreover have "TrimSpace ''TIMOS:'' = ''TIMOS:''" by (rule TrimSpace_id) (auto simp: is_space_def)
  ultimately have skip: "GetChassisFromSysinfoStr (''TIMOS:'' @ CHR '' '' # r) = GetChassisFromSysinfoStr r" for r
    by (simp add: GetChassisFromSysinfoStr_def)
  have "\<exists>r. GenSysinfo s cfgURL licURL = ''TIMOS:'' @ CHR '' '' # ''chassis='' @ model @ CHR '' '' # r"
    by (simp add: GenSysinfo_def s)
  then show "GetChassisFromSysinfoStr (GenSysinfo s cfgURL licURL) = model"
    using skip first_chassis_of_head [OF assms(3)] by auto
qed

section \<open>Facts on the default IOM slot\<close>

definition iom_ids :: "NodeType \<Rightarrow> string \<times> SRCard \<Rightarrow> int list" where
  "iom_ids t = (\<lambda>(slot, crd).
     if IsCPM slot then []
     else case Atoi (TrimSpace slot) of
            Inl _ \<Rightarrow> []
          | Inr n \<Rightarrow> if t \<noteq> SRVMMAGC \<or> map_option ToLower (card_Model crd) = Some ''iom-v'' then [n] else [])"

definition numeric_slots :: "'c gomap \<Rightarrow> bool" where
  "numeric_slots cards \<longleftrightarrow> (\<forall>slot\<in>fst ` set cards. IsCPM slot \<or> ok (Atoi (TrimSpace slot)))"

lemma iom_fold:
  assumes "numeric_slots cards" "\<forall>(slot, crd)\<in>set cards. card_Model crd \<noteq> None"
  shows "foldm (iom_slot (Some t)) cards acc = Inr (acc @ concat (map (iom_ids t) cards))"
  using assms
proof (induction cards arbitrary: acc)
  case (Cons x cards)
  obtain slot crd where x: "x = (slot, crd)" by fastforce
  have rest: "foldm (iom_slot (Some t)) cards acc' = Inr (acc' @ concat (map (iom_ids t) cards))" for acc'
    using Cons.prems by (intro Cons.IH) (auto simp: numeric_slots_def)
  have "iom_slot (Some t) x acc = Inr (acc @ iom_ids t x)"
    using Cons.prems x by (auto simp: numeric_slots_def iom_slot_def iom_ids_def ok_iff)
  with rest show ?case by simp
qed simp

lemma sort_hd_Min: "xs \<noteq> [] \<Longrightarrow> \<exists>ys. sort xs = Min (set xs) # ys" for xs :: "int list"
proof -
  assume "xs \<noteq> []"
  then obtain y ys where s: "sort xs = y # ys" by (metis list.exhaust set_empty set_sort)
  then have set: "set xs = insert y (set ys)" by (metis list.simps(15) set_sort)
  have "\<forall>z\<in>set ys. y \<le> z" using sorted_sort [of xs] s by simp
  then have "Min (set xs) = y" unfolding set by (intro Min_eqI) auto
  with s show ?thesis by simp
qed

lemma GetDefaultMDASlot_eq:
  assumes "ok (SRChassis_Validate ch)" "ch_Type ch = Some t" "ch_Model ch = Some m" "\<not> IsIntegratedChassis m"
    and "numeric_slots (entries (ch_Cards ch))"
  shows "GetDefaultMDASlot ch =
    (let ids = concat (map (iom_ids t) (entries (ch_Cards ch)))
     in Inr (if ids = [] then ''n/a'' else Itoa (Min (set ids))))"
proof -
  let ?ids = "concat (map (iom_ids t) (entries (ch_Cards ch)))"
  have "\<forall>(slot, crd)\<in>set (entries (ch_Cards ch)). card_Model crd \<noteq> None"
    using assms(1) by (auto simp: SRChassis_Validate_ok SRCard_Validate_ok)
  then have fold: "foldm (iom_slot (ch_Type ch)) (entries (ch_Cards ch)) [] = Inr ?ids"
    using assms iom_fold [of "entries (ch_Cards ch)" t "[]"] by simp
  show ?thesis
  proof (cases "?ids = []")
    case True
    with fold show ?thesis
      unfolding GetDefaultMDASlot_def Let_def assms(3) deref_simps bindr_Inr if_not_P [OF assms(4)]
      by simp
  next
    case False
    from sort_hd_Min [OF this] obtain ys where "sort ?ids = Min (set ?ids) # ys" ..
    with fold show ?thesis
      unfolding GetDefaultMDASlot_def Let_def assms(3) deref_simps bindr_Inr if_not_P [OF assms(4)]
        if_not_P [OF False]
      by (simp only: bindr_Inr list.case)
  qed
qed

text \<open>
  The chosen slot is a slot of the chassis when the slots are written the way numbers are
  printed. Nothing checks that: for a slot ''01'' the choice is ''1''.
\<close>

definition canonical_slots :: "'c gomap \<Rightarrow> bool" where
  "canonical_slots cards \<longleftrightarrow>
     (\<forall>slot\<in>fst ` set cards. IsCPM slot \<or> (\<exists>n. int64_min \<le> n \<and> n \<le> int64_max \<and> slot = Itoa n))"

lemma canonical_numeric: "canonical_slots cards \<Longrightarrow> numeric_slots cards"
  by (force simp: canonical_slots_def numeric_slots_def Atoi_Itoa)

lemma iom_ids_canonical:
  assumes "canonical_slots cards" "n \<in> set (concat (map (iom_ids t) cards))"
  shows "Itoa n \<in> fst ` set cards"
proof -
  from assms(2) obtain slot crd where x: "(slot, crd) \<in> set cards" "n \<in> set (iom_ids t (slot, crd))"
    by auto
  then have "\<not> IsCPM slot" by (auto simp: iom_ids_def)
  with assms(1) x(1) obtain k where k: "slot = Itoa k" "Atoi slot = Inr k"
    by (force simp: canonical_slots_def Atoi_Itoa)
  then have "n = k" using x(2) by (auto simp: iom_ids_def split: if_split_asm)
  with k x(1) show ?thesis by force
qed

lemma GetDefaultMDASlot_key:
  assumes "ok (SRChassis_Validate ch)" "ch_Type ch = Some t" "ch_Model ch = Some m" "\<not> IsIntegratedChassis m"
    and "canonical_slots (entries (ch_Cards ch))" "GetDefaultMDASlot ch = Inr slot"
  shows "slot = ''n/a'' \<or> slot \<in> fst ` set (entries (ch_Cards ch))"
proof -
  let ?ids = "concat (map (iom_ids t) (entries (ch_Cards ch)))"
  have "Itoa (Min (set ?ids)) \<in> fst ` set (entries (ch_Cards ch))" if "?ids \<noteq> []"
    using that by (intro iom_ids_canonical [OF assms(5), of _ t] Min_in) auto
  then show ?thesis
    using GetDefaultMDASlot_eq [OF assms(1-4) canonical_numeric [OF assms(5)]] assms(6)
    by (auto simp: Let_def simp del: set_concat set_map concat_eq_Nil_conv split: if_split_asm)
qed

section \<open>Facts on the defaults of a card\<close>

text \<open>What defaulting may change: the three resource fields, and those only when they were nil.\<close>

definition card_grows :: "SRCard \<Rightarrow> SRCard \<Rightarrow> bool" where
  "card_grows c d \<longleftrightarrow>
     card_Model d = card_Model c \<and> card_MDAs d = card_MDAs c \<and> card_XIOM d = card_XIOM c \<and>
     (card_SysInfo c \<noteq> None \<longrightarrow> card_SysInfo d = card_SysInfo c) \<and>
     (card_ReqMemory c \<noteq> None \<longrightarrow> card_ReqMemory d = card_ReqMemory c) \<and>
     (card_ReqCPU c \<noteq> None \<longrightarrow> card_ReqCPU d = card_ReqCPU c) \<and>
     (card_ListenPorts c \<noteq> None \<longrightarrow> card_ListenPorts d = card_ListenPorts c)"

lemma card_grows_refl [simp]: "card_grows c c"
  by (simp add: card_grows_def)

lemma card_grows_trans: "card_grows a b \<Longrightarrow> card_grows b c \<Longrightarrow> card_grows a c"
  unfolding card_grows_def by metis

lemma SetDefaultGeneric_Some: "p \<noteq> None \<Longrightarrow> SetDefaultGeneric p d = p"
  by (simp add: SetDefaultGeneric_def)

lemma SetDefaultGeneric_set [simp]: "SetDefaultGeneric p d \<noteq> None" "\<exists>y. SetDefaultGeneric p d = Some y"
  by (cases p; simp)+

lemma req_default_sel [simp]:
  "card_Model (req_default c m p) = card_Model c"
  "card_SysInfo (req_default c m p) = card_SysInfo c"
  "card_MDAs (req_default c m p) = card_MDAs c"
  "card_XIOM (req_default c m p) = card_XIOM c"
  "card_ListenPorts (req_default c m p) = card_ListenPorts c"
  "card_ReqMemory (req_default c m p) = SetDefaultGeneric (card_ReqMemory c) (MustParse m)"
  "card_ReqCPU (req_default c m p) = SetDefaultGeneric (card_ReqCPU c) (MustParse p)"
  by (simp_all add: req_default_def)

lemma SRCard_Fill_ok: "ok (SRCard_FillDefaultVal crd nt slot) \<longleftrightarrow>
    \<not> (nt = SRVMMAGC \<and> \<not> IsCPM slot \<and> card_MDAs crd = None)"
  by (cases "card_MDAs crd") (simp_all add: SRCard_FillDefaultVal_def)

lemma SRCard_Fill_panics: "panics (SRCard_FillDefaultVal crd nt slot) \<longleftrightarrow>
    nt = SRVMMAGC \<and> \<not> IsCPM slot \<and> card_MDAs crd = None"
  by (cases "card_MDAs crd") (simp_all add: SRCard_FillDefaultVal_def)

lemma SRCard_Fill_grows: "SRCard_FillDefaultVal crd nt slot = Inr d \<Longrightarrow> card_grows crd d"
  by (auto simp: SRCard_FillDefaultVal_def card_grows_def SetDefaultGeneric_Some result_simps
      split: if_split_asm)

lemma req_default_again: "card_ReqMemory c \<noteq> None \<Longrightarrow> card_ReqCPU c \<noteq> None \<Longrightarrow> req_default c m p = c"
  by (simp add: req_default_def SetDefaultGeneric_Some)

lemma SRCard_Fill_again: "SRCard_FillDefaultVal crd nt slot = Inr d \<Longrightarrow> SRCard_FillDefaultVal d nt slot = Inr d"
proof -
  assume d: "SRCard_FillDefaultVal crd nt slot = Inr d"
  have again: "req_default (c\<lparr>card_ListenPorts := l\<rparr>) m p = c\<lparr>card_ListenPorts := l\<rparr>"
    if "c = req_default c' m p" for c c' l m p
    using that by (simp add: req_default_def SetDefaultGeneric_again)
  consider "nt = SRSIM" | "nt = SRVMVSIM" | "nt = SRVMVSRI" | "nt = SRVMMAGC" "IsCPM slot"
    | "nt = SRVMMAGC" "\<not> IsCPM slot" | "nt \<notin> {SRSIM, SRVMVSIM, SRVMVSRI, SRVMMAGC}"
    by blast
  then show ?thesis
  proof cases
    case 5
    with d obtain mdas where mdas: "card_MDAs crd = Some mdas"
      by (auto simp: SRCard_FillDefaultVal_def result_simps)
    with d 5 show ?thesis
      by (cases "mdas = []"; cases "hd mdas = ''iom-v-mg''")
         (auto simp: SRCard_FillDefaultVal_def again SetDefaultGeneric_again)
  qed (use d in \<open>auto simp: SRCard_FillDefaultVal_def again SetDefaultGeneric_again\<close>)
qed

lemma SRCard_Fill_complete:
  assumes "SRCard_FillDefaultVal crd nt slot = Inr d" and "IsSRVM nt"
    and "nt = SRVMMAGC \<longrightarrow> IsCPM slot \<or> card_MDAs crd \<noteq> Some []"
  shows "card_ReqMemory d \<noteq> None \<and> card_ReqCPU d \<noteq> None \<and> card_ListenPorts d \<noteq> None"
  using assms
  by (auto simp: SRCard_FillDefaultVal_def IsSRVM_def result_simps split: if_split_asm)

end
