(* ===== verification/SrlChassis.thy ===== *)
theory SrlChassis
  imports Go_Net
begin

text \<open>
  The SR Linux chassis (srl.go, srl_chassis.go): a product name looked up in a table, or a
  string of hardware numbers \<open>chassis-mac-cpm-slot-iom-mda\<close>; and the base MAC a node is given.
\<close>

record chassisConfiguration =
  cc_ChassisType :: int
  cc_BaseMAC :: string
  cc_CPM :: int

record slotConfig =
  sc_CardType :: int
  sc_MDAType :: int

record SRLChassis =
  srlc_Configuration :: chassisConfiguration
  srlc_SlotConfig :: "(int \<times> slotConfig) list"

definition chassisDict :: "int list gomap" where
  "chassisDict =
     [(''ixr-d1'', [64, 175, 175, 196]), (''ixr-d2l'', [72, 187, 187, 200]),
      (''ixr-d3l'', [73, 188, 188, 202]), (''ixr-h2'', [61, 179, 179, 197]),
      (''ixr-h3'', [62, 178, 178, 198]), (''ixr-10e'', [69, 184, 182, 199]),
      (''ixr-18e'', [70, 184, 24, 11]), (''ixr-6e'', [68, 184, 182, 199]),
      (''ixr-d5'', [71, 190, 190, 201]), (''ixr-x1b'', [82, 32, 32, 19]),
      (''ixr-x3b'', [81, 27, 27, 12]), (''ixr-h5-32d'', [47, 180, 180, 106]),
      (''sxr-1d-32d'', [54, 11, 11, 201]), (''ixs-a1'', [80, 196, 196, 8])]"

definition parseChassisStr :: "string \<Rightarrow> SRLChassis result" where
  "parseChassisStr chassis =
     (let flist = FieldsFunc chassis (\<lambda>c. c = CHR ''-'')
      in if length flist \<noteq> 6 then
           errf ''expect %d fields in SRL chassis %v, but got %d fields'' [show_nat 6, chassis, show_nat (length flist)]
         else
           bindr (wrapf ''invlalid chassis type id %v, %w'' [flist ! 0] (Atoi (flist ! 0))) (\<lambda>ctype.
           bindr (wrapf ''invlalid cpm type id %v, %w'' [flist ! 2] (Atoi (flist ! 2))) (\<lambda>cpm.
           bindr (wrapf ''invalid slot id %v, %w'' [flist ! 3] (Atoi (flist ! 3))) (\<lambda>slotId.
           bindr (wrapf ''invalid IOM id %v, %w'' [flist ! 4] (Atoi (flist ! 4))) (\<lambda>iom.
           bindr (wrapf ''invalid MDA id %v, %w'' [flist ! 5] (Atoi (flist ! 5))) (\<lambda>mda.
           bindr (wrapf ''invalid base mac %v, %w'' [flist ! 1] (ParseMAC (flist ! 1))) (\<lambda>_.
             Inr \<lparr>srlc_Configuration =
                    \<lparr>cc_ChassisType = ctype, cc_BaseMAC = flist ! 1, cc_CPM = cpm\<rparr>,
                  srlc_SlotConfig = [(slotId, \<lparr>sc_CardType = iom, sc_MDAType = mda\<rparr>)]\<rparr>)))))))"

definition getBaseMAC :: "int \<Rightarrow> string" where
  "getBaseMAC i = ''FA:FA'' @ '':'' @ show_X i @ '':00:00:00''"

text \<open>Indexing the four numbers of a table entry panics when there are fewer.\<close>

definition index_nums :: "int list \<Rightarrow> nat \<Rightarrow> int result" where
  "index_nums nums i = (if i < length nums then Inr (nums ! i) else Inl (Panic ''index out of range''))"

definition getSRLChassisViaTypeStrDict :: "string \<Rightarrow> SRLChassis option result" where
  "getSRLChassisViaTypeStrDict chassisType =
     (case map_of chassisDict (ToLower chassisType) of
        None \<Rightarrow> Inr None
      | Some nums \<Rightarrow>
          bindr (index_nums nums 0) (\<lambda>a.
          bindr (index_nums nums 1) (\<lambda>b.
          bindr (index_nums nums 2) (\<lambda>c.
          bindr (index_nums nums 3) (\<lambda>d.
            Inr (Some \<lparr>srlc_Configuration = \<lparr>cc_ChassisType = a, cc_BaseMAC = [], cc_CPM = b\<rparr>,
                       srlc_SlotConfig = [(1, \<lparr>sc_CardType = c, sc_MDAType = d\<rparr>)]\<rparr>))))))"

definition getSRLChassisViaTypeStr :: "string \<Rightarrow> SRLChassis result" where
  "getSRLChassisViaTypeStr chassisType =
     bindr (getSRLChassisViaTypeStrDict chassisType) (\<lambda>r.
       case r of Some chassis \<Rightarrow> Inr chassis | None \<Rightarrow> parseChassisStr chassisType)"

section \<open>The table\<close>

lemma chassisDict_four: "map_of chassisDict s = Some nums \<Longrightarrow> length nums = 4"
  by (auto simp: chassisDict_def split: if_splits)

lemma chassisDict_lower: "map_of chassisDict s = Some nums \<Longrightarrow> ToLower s = s"
proof -
  assume "map_of chassisDict s = Some nums"
  then have "s \<in> fst ` set chassisDict" by (metis domI dom_map_of_conv_image_fst)
  moreover have "\<forall>k\<in>fst ` set chassisDict. ToLower k = k" by code_simp
  ultimately show ?thesis by blast
qed

lemma wf_chassisDict: "wfmap chassisDict"
  by code_simp

lemma Dict_ok: "ok (getSRLChassisViaTypeStrDict s)"
proof (cases "map_of chassisDict (ToLower s)")
  case (Some nums)
  from chassisDict_four [OF this] Some show ?thesis
    by (simp add: getSRLChassisViaTypeStrDict_def index_nums_def)
qed (simp add: getSRLChassisViaTypeStrDict_def)

lemma ret_not_panics [simp]: "\<not> panics (case r of None \<Rightarrow> Inl (Err e) | Some x \<Rightarrow> Inr x)"
  by (cases r) simp_all

lemma ParseMAC_not_panics [simp]: "\<not> panics (ParseMAC s)"
  by (simp add: ParseMAC_def Let_def)

lemma parseChassisStr_no_panic: "\<not> panics (parseChassisStr s)"
  by (simp add: parseChassisStr_def Let_def result_simps)

lemma getSRLChassis_no_panic: "\<not> panics (getSRLChassisViaTypeStr s)"
  using Dict_ok [of s]
  by (auto simp: getSRLChassisViaTypeStr_def ok_iff parseChassisStr_no_panic split: option.splits)

section \<open>The string of hardware numbers\<close>

lemma dash_fields:
  "\<forall>w\<in>set ws. w \<noteq> [] \<and> CHR ''-'' \<notin> set w \<Longrightarrow> FieldsFunc (Join ws ''-'') (\<lambda>c. c = CHR ''-'') = ws"
proof (induction ws rule: induct_list012)
  case (2 w)
  have "fields_go (\<lambda>c. c = CHR ''-'') acc w = (if acc = [] \<and> w = [] then [] else [rev acc @ w])"
    if "CHR ''-'' \<notin> set w" for acc w
    using that by (induction w arbitrary: acc) auto
  with 2 show ?case by (simp add: FieldsFunc_def)
next
  case (3 v w ws)
  then have "\<forall>c\<in>set v. c \<noteq> CHR ''-''" "v \<noteq> []" by auto
  with 3 have "FieldsFunc (v @ CHR ''-'' # Join (w # ws) ''-'') (\<lambda>c. c = CHR ''-'') = v # w # ws"
    using fields_go_word [of v "\<lambda>c. c = CHR ''-''" "CHR ''-''" "[]"]
    by (auto simp: FieldsFunc_def)
  then show ?case by simp
qed (simp add: FieldsFunc_def)

lemma hex_digit_not_dash: "d < 16 \<Longrightarrow> hex_digit d \<noteq> CHR ''-''"
  by (auto simp: hex_digit_def)

lemma mac_String_no_dash: "CHR ''-'' \<notin> set (mac_String hw)"
proof (induction hw)
  case (Cons b hw)
  have "CHR ''-'' \<notin> set (hex2 b)"
    using hex_digit_not_dash [of "unat b div 16"] hex_digit_not_dash [of "unat b mod 16"]
      nibbles_less [of b] by (auto simp: hex2_def)
  with Cons show ?case by (cases hw) (auto simp: mac_String_def)
qed (simp add: mac_String_def)

definition int_range :: "int \<Rightarrow> bool" where
  "int_range i \<longleftrightarrow> 0 \<le> i \<and> i \<le> int64_max"

lemma int_range_Itoa: "int_range i \<Longrightarrow> Atoi (Itoa i) = Inr i \<and> Itoa i \<noteq> [] \<and> CHR ''-'' \<notin> set (Itoa i)"
  using Atoi_Itoa [of i] by (auto simp: int_range_def Itoa_def int64_min_def)

lemma parseChassisStr_Join:
  assumes "\<forall>i\<in>{t, cpm, slot, iom, mda}. int_range i" and "length hw = 6"
  shows "parseChassisStr (Join [Itoa t, mac_String hw, Itoa cpm, Itoa slot, Itoa iom, Itoa mda] ''-'') =
    Inr \<lparr>srlc_Configuration = \<lparr>cc_ChassisType = t, cc_BaseMAC = mac_String hw, cc_CPM = cpm\<rparr>,
         srlc_SlotConfig = [(slot, \<lparr>sc_CardType = iom, sc_MDAType = mda\<rparr>)]\<rparr>"
proof -
  have mac: "ParseMAC (mac_String hw) = Inr hw" "mac_String hw \<noteq> []"
    using assms(2) ParseMAC_String [of hw] length_mac_String [of hw] by fastforce+
  have "FieldsFunc (Join [Itoa t, mac_String hw, Itoa cpm, Itoa slot, Itoa iom, Itoa mda] ''-'') (\<lambda>c. c = CHR ''-'') =
      [Itoa t, mac_String hw, Itoa cpm, Itoa slot, Itoa iom, Itoa mda]"
    by (rule dash_fields) (use assms(1) mac mac_String_no_dash int_range_Itoa in auto)
  then show ?thesis
    using assms(1) mac by (simp add: parseChassisStr_def int_range_Itoa)
qed

section \<open>The base MAC\<close>

lemma hex_val_upper: "d < 16 \<Longrightarrow> hex_val (upper_hex d) = Some d \<and> upper_hex d \<noteq> CHR '':''"
proof -
  assume d: "d < 16"
  then have "of_char (upper_hex d) \<noteq> (of_char (CHR '':'') :: nat)" by (simp add: upper_hex_def)
  then have "upper_hex d \<noteq> CHR '':''" by metis
  moreover have "hex_val (upper_hex d) = Some d" using d by (simp add: hex_val_def upper_hex_def Let_def)
  ultimately show ?thesis by simp
qed

lemma mac_tail: "mac_pairs 3 ''00:00:00'' (CHR '':'') = Some [0, 0, 0]"
  by code_simp

lemma fa_head: "xtoi2 (CHR ''F'' # CHR ''A'' # CHR '':'' # s) (CHR '':'') = Some 0xFA"
  by (simp add: xtoi2_def hex_val_def)

text \<open>
  Index \<open>i\<close> is printed with \<open>%X\<close>, unpadded: only two hexadecimal digits make an address.
\<close>

lemma show_X_digits:
  assumes "0 \<le> i"
  shows "show_X i = map upper_hex (digits_of 16 (nat i))" "\<forall>d\<in>set (digits_of 16 (nat i)). d < 16"
  using assms digits_of_less [of 16 _ "nat i"] by (simp_all add: show_X_def)

lemma two_hex_digits: "length (digits_of 16 n) = 2 \<longleftrightarrow> 16 \<le> n \<and> n \<le> 255"
proof -
  have "length (digits_of 16 n) = 1" if "n < 16" using that by (simp add: digits_of.simps [of 16 n])
  moreover have "length (digits_of 16 n) = 2" if "16 \<le> n" "n \<le> 255"
    using that by (simp add: digits_of.simps [of 16 n] digits_of.simps [of 16 "n div 16"] less_mult_imp_div_less)
  moreover have "length (digits_of 16 n) \<ge> 3" if "n > 255"
  proof -
    have "\<not> n < 16" "\<not> n div 16 < 16" using that by (simp_all add: div_less_iff_less_mult)
    then show ?thesis
      by (simp add: digits_of.simps [of 16 n] digits_of.simps [of 16 "n div 16"] Suc_le_eq)
  qed
  ultimately show ?thesis by (cases "n < 16"; cases "n \<le> 255") auto
qed

lemma getBaseMAC_two:
  assumes "0 \<le> i" "length (digits_of 16 (nat i)) = 2"
  shows "ok (ParseMAC (getBaseMAC i))"
proof -
  from assms obtain a b where ab: "digits_of 16 (nat i) = [a, b]" by (auto simp: length_Suc_conv numeral_2_eq_2)
  then have lt: "a < 16" "b < 16" using show_X_digits(2) [OF assms(1)] by auto
  have s: "getBaseMAC i = ''FA:FA:'' @ upper_hex a # upper_hex b # '':00:00:00''"
    using show_X_digits(1) [OF assms(1)] ab by (simp add: getBaseMAC_def)
  have "xtoi2 (upper_hex a # upper_hex b # CHR '':'' # r) (CHR '':'') = Some (word_of_nat (16 * a + b))" for r
    using lt hex_val_upper by (simp add: xtoi2_def)
  then have "mac_pairs 6 (getBaseMAC i) (CHR '':'') = Some [0xFA, 0xFA, word_of_nat (16 * a + b), 0, 0, 0]"
    unfolding s using mac_tail fa_head by (simp add: numeral_nat)
  then show ?thesis by (simp add: ParseMAC_def s)
qed

lemma getBaseMAC_other:
  assumes "0 \<le> i" "length (digits_of 16 (nat i)) \<noteq> 2"
  shows "\<not> ok (ParseMAC (getBaseMAC i))"
proof -
  let ?ds = "map upper_hex (digits_of 16 (nat i))"
  have s: "getBaseMAC i = ''FA:FA:'' @ ?ds @ '':00:00:00''"
    using show_X_digits(1) [OF assms(1)] by (simp add: getBaseMAC_def)
  have "length (digits_of 16 (nat i)) \<noteq> 0" by simp
  then have "length ?ds = 1 \<or> length ?ds \<ge> 3" using assms(2) unfolding length_map by linarith
  then consider "length ?ds = 1" | "length ?ds \<ge> 3" by blast
  then show ?thesis
  proof cases
    case 1
    then show ?thesis by (simp add: ParseMAC_def s)
  next
    case 2
    then have "?ds ! 2 \<noteq> CHR '':''"
      using show_X_digits(2) [OF assms(1)] hex_val_upper by (simp add: Ball_def)
    with 2 have bad: "xtoi2 (?ds @ '':00:00:00'') (CHR '':'') = None"
      by (simp add: xtoi2_def nth_append)
    have "mac_pairs n (getBaseMAC i) (CHR '':'') = None" if "n \<ge> 3" for n
    proof -
      from that obtain k where n: "n = Suc (Suc (Suc k))"
        by (metis add_2_eq_Suc add_Suc numeral_3_eq_3 le_Suc_ex plus_1_eq_Suc)
      show ?thesis unfolding n s using bad fa_head by simp
    qed
    then show ?thesis by (auto simp: ParseMAC_def s Let_def)
  qed
qed

lemma getBaseMAC_valid: "0 \<le> i \<Longrightarrow> ok (ParseMAC (getBaseMAC i)) \<longleftrightarrow> 16 \<le> i \<and> i \<le> 255"
  using getBaseMAC_two [of i] getBaseMAC_other [of i] two_hex_digits [of "nat i"] by (auto simp: nat_le_iff)

end
