(* ===== verification/Systems.thy ===== *)
theory Systems
  imports Fill_Records Chassis SrlChassis "HOL-Library.FuncSet"
begin

text \<open>
  The seven node types behind the \<open>System\<close> interface (srvm.go, srsim.go, srl.go,
  generalpod.go, vmpc.go, system.go) and the union that holds one of them (node.go,
  lab_types.go): application defaults, node defaults, validation.

  Validation reads a node by value. Defaulting writes to cards through the pointers of the
  chassis, so it runs on a node whose cards are addresses, over a store of cards.

  \<open>reference.Parse\<close> and \<open>shlex.Split\<close> are parameters: the error they return, if any.
\<close>

record Externs =
  reference_Parse :: "string \<Rightarrow> goerr option"
  shlex_Split :: "string \<Rightarrow> goerr option"

definition lib_check :: "string \<Rightarrow> string list \<Rightarrow> goerr option \<Rightarrow> unit result" where
  "lib_check fmt args e = (case e of None \<Rightarrow> Inr () | Some err \<Rightarrow> Inl (Err (Errorf fmt args (Some err))))"

lemma ok_lib_check [result_simps]: "ok (lib_check fmt args e) \<longleftrightarrow> e = None"
  by (simp add: lib_check_def split: option.split)

lemma panics_lib_check [result_simps]: "\<not> panics (lib_check fmt args e)"
  by (simp add: lib_check_def split: option.split)

lemma lib_check_Inr [result_simps]: "lib_check fmt args e = Inr u \<longleftrightarrow> e = None"
  by (simp add: lib_check_def split: option.split)

section \<open>Application defaults: SetToAppDefVal\<close>

definition SRVM_setToAppDefVal :: "'c SRVM \<Rightarrow> 'c SRVM" where
  "SRVM_setToAppDefVal srvm = srvm\<lparr>srvm_DiskSize := Some (MustParse ''1.5Gi''), srvm_Dedicate := Some False\<rparr>"

definition VSIM_SetToAppDefVal :: "SRCard SRVM \<Rightarrow> SRCard SRVM" where
  "VSIM_SetToAppDefVal vsim = (SRVM_setToAppDefVal vsim)
     \<lparr>srvm_Chassis := Some (DefaultSIMChassis SRVMVSIM), srvm_License := Some ''vsimlic''\<rparr>"

definition VSRI_SetToAppDefVal :: "SRCard SRVM \<Rightarrow> SRCard SRVM" where
  "VSRI_SetToAppDefVal vsri = (SRVM_setToAppDefVal vsri)
     \<lparr>srvm_Chassis := Some DefaultVSRIChassis, srvm_License := Some ''vsrlic''\<rparr>"

definition MAGC_SetToAppDefVal :: "SRCard SRVM \<Rightarrow> SRCard SRVM" where
  "MAGC_SetToAppDefVal magc = (SRVM_setToAppDefVal magc)
     \<lparr>srvm_Chassis := Some DefaultMAGCChassis, srvm_License := Some ''magclic''\<rparr>"

definition SRSim_SetToAppDefVal :: "SRCard SRSim \<Rightarrow> SRCard SRSim" where
  "SRSim_SetToAppDefVal srsim = srsim\<lparr>srsim_Chassis := Some (DefaultSIMChassis SRSIM)\<rparr>"

definition SRLinux_SetToAppDefVal :: "SRLinux \<Rightarrow> SRLinux" where
  "SRLinux_SetToAppDefVal srl = srl\<lparr>srl_Chassis := Some ''ixr-d3l'', srl_ReqMemory := Some (MustParse ''4Gi'')\<rparr>"

definition GeneralPod_SetToAppDefVal :: "GeneralPod \<Rightarrow> GeneralPod" where
  "GeneralPod_SetToAppDefVal gpod = gpod\<lparr>gpod_PvcSize := Some (MustParse ''100Mi'')\<rparr>"

definition GeneralVM_SetToAppDefVal :: "GeneralVM \<Rightarrow> GeneralVM" where
  "GeneralVM_SetToAppDefVal gvm = gvm\<lparr>gvm_ReqCPU := Some (MustParse ''2.0''),
     gvm_ReqMemory := Some (MustParse ''4Gi''), gvm_PinCPU := Some False, gvm_HugePage := Some False,
     gvm_Username := Some ''lab'', gvm_Password := Some ''lab123'', gvm_InitMethod := Some ''cloud-init'',
     gvm_Ports := Some [\<lparr>port_Name = ''ssh'', port_Protocol = ''TCP'', port_Port = 22\<rparr>]\<rparr>"

section \<open>Node defaults: FillDefaultVal\<close>

type_synonym cards = "nat \<Rightarrow> SRCard"

text \<open>One round of the loop over the slots: the card at address \<open>a\<close> in slot \<open>slot\<close>.\<close>

definition fill_slot ::
  "(string \<Rightarrow> string \<Rightarrow> string) \<Rightarrow> nat SRChassis \<Rightarrow> string \<times> nat \<Rightarrow> cards \<Rightarrow> cards result" where
  "fill_slot ptr ch = (\<lambda>(slot, a) h.
     bindr (GetDefaultSysinfoStr ptr (map_chassis h ch) slot) (\<lambda>sysinfo.
     bindr (deref (ch_Type ch)) (\<lambda>nt.
     bindr (SRCard_FillDefaultVal
              ((h a)\<lparr>card_SysInfo := SetDefaultGeneric (card_SysInfo (h a)) sysinfo\<rparr>) nt slot) (\<lambda>crd.
       Inr (h(a := crd))))))"

definition SRVM_FillDefaultVal ::
  "(string \<Rightarrow> string \<Rightarrow> string) \<Rightarrow> nat SRVM \<Rightarrow> cards \<Rightarrow> cards result" where
  "SRVM_FillDefaultVal ptr srvm h =
     bindr (deref (srvm_Chassis srvm)) (\<lambda>ch.
       if \<not> ok (SRChassis_Validate (map_chassis h ch)) then Inr h
       else foldm (fill_slot ptr ch) (entries (ch_Cards ch)) h)"

definition SRVM_typed_Fill ::
  "NodeType \<Rightarrow> (string \<Rightarrow> string \<Rightarrow> string) \<Rightarrow> nat SRVM \<Rightarrow> cards \<Rightarrow> (nat SRVM \<times> cards) result" where
  "SRVM_typed_Fill nt ptr srvm h =
     bindr (deref (srvm_Chassis srvm)) (\<lambda>ch.
       let srvm' = srvm\<lparr>srvm_Chassis := Some (ch\<lparr>ch_Type := Some nt\<rparr>)\<rparr>
       in bindr (SRVM_FillDefaultVal ptr srvm' h) (\<lambda>h'. Inr (srvm', h')))"

definition VSIM_FillDefaultVal ::
  "(string \<Rightarrow> string \<Rightarrow> string) \<Rightarrow> nat SRVM \<Rightarrow> cards \<Rightarrow> (nat SRVM \<times> cards) result" where
  "VSIM_FillDefaultVal = SRVM_typed_Fill SRVMVSIM"

definition VSRI_FillDefaultVal ::
  "(string \<Rightarrow> string \<Rightarrow> string) \<Rightarrow> nat SRVM \<Rightarrow> cards \<Rightarrow> (nat SRVM \<times> cards) result" where
  "VSRI_FillDefaultVal = SRVM_typed_Fill SRVMVSRI"

definition MAGC_FillDefaultVal ::
  "(string \<Rightarrow> string \<Rightarrow> string) \<Rightarrow> nat SRVM \<Rightarrow> cards \<Rightarrow> (nat SRVM \<times> cards) result" where
  "MAGC_FillDefaultVal = SRVM_typed_Fill SRVMMAGC"

definition SRSim_FillDefaultVal :: "nat SRSim \<Rightarrow> nat SRSim result" where
  "SRSim_FillDefaultVal srsim =
     bindr (deref (srsim_Chassis srsim)) (\<lambda>ch.
       Inr (srsim\<lparr>srsim_Chassis := Some (ch\<lparr>ch_Type := Some SRSIM\<rparr>)\<rparr>))"

text \<open>\<open>sys.FillDefaultVal(nodeName)\<close>, dispatched; no implementation reads the name.\<close>

definition System_FillDefaultVal ::
  "(string \<Rightarrow> string \<Rightarrow> string) \<Rightarrow> nat System \<Rightarrow> cards \<Rightarrow> (nat System \<times> cards) result" where
  "System_FillDefaultVal ptr sys h = (case sys of
      SysVSIM v \<Rightarrow> bindr (VSIM_FillDefaultVal ptr v h) (\<lambda>(v', h'). Inr (SysVSIM v', h'))
    | SysVSRI v \<Rightarrow> bindr (VSRI_FillDefaultVal ptr v h) (\<lambda>(v', h'). Inr (SysVSRI v', h'))
    | SysMAGC v \<Rightarrow> bindr (MAGC_FillDefaultVal ptr v h) (\<lambda>(v', h'). Inr (SysMAGC v', h'))
    | SysSRSIM v \<Rightarrow> bindr (SRSim_FillDefaultVal v) (\<lambda>v'. Inr (SysSRSIM v', h))
    | SysVM v \<Rightarrow> Inr (SysVM v, h)
    | SysSRL v \<Rightarrow> Inr (SysSRL v, h)
    | SysPod v \<Rightarrow> Inr (SysPod v, h))"

section \<open>Validation of a node\<close>

definition srvm_port_check :: "SRCard SRChassis \<Rightarrow> string \<Rightarrow> string \<Rightarrow> Connector \<Rightarrow> unit result" where
  "srvm_port_check chassis nodeName linkName c =
     (case con_PortId c of
        None \<Rightarrow> Inr ()
      | Some port \<Rightarrow>
          bindr (deref (con_NodeName c)) (\<lambda>n.
            if n = nodeName \<and> map_of (entries (ch_Cards chassis)) port = None then
              errf ''port %v of node %v in link %v doesn't exists in its chassis spec'' [port, nodeName, linkName]
            else Inr ()))"

definition SRVM_Validate :: "Externs \<Rightarrow> SRCard SRVM \<Rightarrow> Link gomap \<Rightarrow> string \<Rightarrow> unit result" where
  "SRVM_Validate X srvm links nodeName =
     (case srvm_Chassis srvm of
        None \<Rightarrow> errf ''chassis not specified'' []
      | Some chassis \<Rightarrow>
     case srvm_Image srvm of
        None \<Rightarrow> errf ''image not specified'' []
      | Some img \<Rightarrow>
     bindr (if \<not> HasPrefix img ''filesvr:''
            then lib_check ''%v is not valid image url, %w'' [img] (reference_Parse X img) else Inr ()) (\<lambda>_.
     if srvm_License srvm = None then errf ''license not specified'' []
     else if srvm_Dedicate srvm = None then errf ''dedidcate not specified'' []
     else bindr (each (\<lambda>(linkName, link). each (srvm_port_check chassis nodeName linkName) (link_Connectors link)) links)
       (\<lambda>_. SRChassis_Validate chassis)))"

definition srsim_port_check :: "string \<Rightarrow> string \<Rightarrow> Connector \<Rightarrow> unit result" where
  "srsim_port_check nodeName linkName c =
     bindr (deref (con_NodeName c)) (\<lambda>n.
       if n \<noteq> nodeName then Inr ()
       else case con_PortId c of
              None \<Rightarrow> Inr ()
            | Some port \<Rightarrow>
                if \<not> matches srsimPortRegex port then errf ''invlid port id %v in link %v'' [port, linkName]
                else Inr ())"

definition SRSim_Validate :: "SRCard SRSim \<Rightarrow> Link gomap \<Rightarrow> string \<Rightarrow> unit result" where
  "SRSim_Validate srsim links nodeName =
     (if srsim_Image srsim = None then errf ''image not specified'' []
      else case srsim_Chassis srsim of
        None \<Rightarrow> errf ''chassis not specified'' []
      | Some chassis \<Rightarrow>
          if srsim_LicSecret srsim = None then errf ''license secret not specified'' []
          else bindr (each (\<lambda>(linkName, link). each (srsim_port_check nodeName linkName) (link_Connectors link)) links)
            (\<lambda>_. SRChassis_Validate chassis))"

definition SRLinux_Validate :: "SRLinux \<Rightarrow> unit result" where
  "SRLinux_Validate srl =
     (if srl_Image srl = None then errf ''image not specified'' []
      else case srl_Chassis srl of
        None \<Rightarrow> errf ''chassis not specified'' []
      | Some chassis \<Rightarrow> bindr (getSRLChassisViaTypeStr chassis) (\<lambda>_. Inr ()))"

definition GeneralPod_Validate :: "Externs \<Rightarrow> GeneralPod \<Rightarrow> unit result" where
  "GeneralPod_Validate X gpod =
     (if gpod_Image gpod = None then errf ''image not specified'' []
      else if gpod_PvcSize gpod = None then errf ''pvcSize not specified'' []
      else case gpod_Command gpod of
        None \<Rightarrow> Inr ()
      | Some cmd \<Rightarrow> lib_check ''%v is not a valid shell command: %w'' [cmd] (shlex_Split X cmd))"

definition GeneralVM_Validate :: "GeneralVM \<Rightarrow> unit result" where
  "GeneralVM_Validate gvm =
     (if gvm_Image gvm = None then errf ''image not specified'' []
      else if gvm_DiskSize gvm = None then errf ''diskSize not specified'' []
      else if gvm_ReqCPU gvm = None then errf ''cpu not specified'' []
      else if gvm_ReqMemory gvm = None then errf ''memory not specified'' []
      else Inr ())"

definition System_Validate :: "Externs \<Rightarrow> Link gomap \<Rightarrow> string \<Rightarrow> SRCard System \<Rightarrow> unit result" where
  "System_Validate X links nodeName sys = (case sys of
      SysVSIM v \<Rightarrow> SRVM_Validate X v links nodeName
    | SysVSRI v \<Rightarrow> SRVM_Validate X v links nodeName
    | SysMAGC v \<Rightarrow> SRVM_Validate X v links nodeName
    | SysVM v \<Rightarrow> GeneralVM_Validate v
    | SysSRL v \<Rightarrow> SRLinux_Validate v
    | SysPod v \<Rightarrow> GeneralPod_Validate X v
    | SysSRSIM v \<Rightarrow> SRSim_Validate v links nodeName)"

section \<open>The union of node types (node.go, lab_types.go)\<close>

text \<open>The fields that are not nil, in source order, as the reflection loops meet them.\<close>

definition one_fields :: "'c OneOfSystem \<Rightarrow> ('c System \<times> string) list" where
  "one_fields one =
     (case one_VSIM one of None \<Rightarrow> [] | Some v \<Rightarrow> [(SysVSIM v, ''VSIM'')]) @
     (case one_VSRI one of None \<Rightarrow> [] | Some v \<Rightarrow> [(SysVSRI v, ''VSRI'')]) @
     (case one_MAGC one of None \<Rightarrow> [] | Some v \<Rightarrow> [(SysMAGC v, ''MAGC'')]) @
     (case one_VM one of None \<Rightarrow> [] | Some v \<Rightarrow> [(SysVM v, ''VM'')]) @
     (case one_SRL one of None \<Rightarrow> [] | Some v \<Rightarrow> [(SysSRL v, ''SRL'')]) @
     (case one_Pod one of None \<Rightarrow> [] | Some v \<Rightarrow> [(SysPod v, ''Pod'')]) @
     (case one_SRSIM one of None \<Rightarrow> [] | Some v \<Rightarrow> [(SysSRSIM v, ''SRSIM'')])"

definition OneOfSystem_validate :: "'c OneOfSystem \<Rightarrow> unit result" where
  "OneOfSystem_validate onesys =
     (let n = length (one_fields onesys)
      in if n > 1 then errf ''only one system type is allowed'' []
         else if n = 0 then errf ''none of system type is specified'' []
         else Inr ())"

definition GetSystem :: "'c OneOfSystem \<Rightarrow> 'c System option \<times> string" where
  "GetSystem onesys = (case one_fields onesys of [] \<Rightarrow> (None, []) | (s, name) # _ \<Rightarrow> (Some s, name))"

definition AssignSystem :: "'c System \<Rightarrow> 'c OneOfSystem \<Rightarrow> 'c OneOfSystem" where
  "AssignSystem s node = (case s of
      SysVSIM v \<Rightarrow> node\<lparr>one_VSIM := Some v\<rparr>
    | SysVSRI v \<Rightarrow> node\<lparr>one_VSRI := Some v\<rparr>
    | SysMAGC v \<Rightarrow> node\<lparr>one_MAGC := Some v\<rparr>
    | SysVM v \<Rightarrow> node\<lparr>one_VM := Some v\<rparr>
    | SysSRL v \<Rightarrow> node\<lparr>one_SRL := Some v\<rparr>
    | SysPod v \<Rightarrow> node\<lparr>one_Pod := Some v\<rparr>
    | SysSRSIM v \<Rightarrow> node\<lparr>one_SRSIM := Some v\<rparr>)"

fun key_index :: "string list \<Rightarrow> string \<Rightarrow> int \<Rightarrow> int" where
  "key_index [] nodeName i = -1"
| "key_index (name # keys) nodeName i = (if name = nodeName then i else key_index keys nodeName (i + 1))"

definition GetNodeSortIndex :: "'v gomap \<Rightarrow> string \<Rightarrow> int" where
  "GetNodeSortIndex nodes nodeName = key_index (sort (map fst nodes)) nodeName 0"

section \<open>Facts on validation\<close>

text \<open>The API server requires the node of a connector.\<close>

definition named :: "Link gomap \<Rightarrow> bool" where
  "named links \<longleftrightarrow> (\<forall>link\<in>snd ` set links. \<forall>c\<in>set (link_Connectors link). con_NodeName c \<noteq> None)"

definition connectors :: "Link gomap \<Rightarrow> Connector set" where
  "connectors links = (\<Union>link\<in>snd ` set links. set (link_Connectors link))"

lemma named_iff: "named links \<longleftrightarrow> (\<forall>c\<in>connectors links. con_NodeName c \<noteq> None)"
  by (auto simp: named_def connectors_def)

lemma port_checks_ok:
  "ok (each (\<lambda>(linkName, link). each (f linkName) (link_Connectors link)) links) \<longleftrightarrow>
   (\<forall>(linkName, link)\<in>set links. \<forall>c\<in>set (link_Connectors link). ok (f linkName c))"
  by (auto simp: ok_each)

lemma srvm_port_check_ok: "ok (srvm_port_check chassis n l c) \<longleftrightarrow>
    (\<forall>port. con_PortId c = Some port \<longrightarrow>
       con_NodeName c \<noteq> None \<and> (con_NodeName c = Some n \<longrightarrow> port \<in> fst ` set (entries (ch_Cards chassis))))"
  by (auto simp: srvm_port_check_def result_simps map_of_eq_None_iff split: option.split)

lemma srsim_port_check_ok: "ok (srsim_port_check n l c) \<longleftrightarrow> con_NodeName c \<noteq> None \<and>
    (con_NodeName c = Some n \<longrightarrow> (\<forall>port. con_PortId c = Some port \<longrightarrow> port \<in> lang srsimPortRegex))"
  by (auto simp: srsim_port_check_def result_simps matches_iff split: option.split)

lemma each_links_no_panic:
  assumes "\<And>l c. c \<in> connectors links \<Longrightarrow> \<not> panics (f l c)"
  shows "\<not> panics (each (\<lambda>(linkName, link). each (f linkName) (link_Connectors link)) links)"
proof
  assume "panics (each (\<lambda>(linkName, link). each (f linkName) (link_Connectors link)) links)"
  from panics_each [OF this] obtain l link
    where "(l, link) \<in> set links" "panics (each (f l) (link_Connectors link))"
    by auto
  then obtain c where "c \<in> connectors links" "panics (f l c)"
    by (force simp: connectors_def dest!: panics_each)
  with assms show False by blast
qed

lemma srvm_checks_no_panic: "named links \<Longrightarrow>
    \<not> panics (each (\<lambda>(linkName, link). each (srvm_port_check chassis n linkName) (link_Connectors link)) links)"
  by (rule each_links_no_panic) (auto simp: srvm_port_check_def named_iff result_simps split: option.split)

lemma srsim_checks_no_panic: "named links \<Longrightarrow>
    \<not> panics (each (\<lambda>(linkName, link). each (srsim_port_check n linkName) (link_Connectors link)) links)"
  by (rule each_links_no_panic) (auto simp: srsim_port_check_def named_iff result_simps split: option.split)

lemma SRVM_Validate_no_panic: "named links \<Longrightarrow> \<not> panics (SRVM_Validate X v links n)"
  by (simp add: SRVM_Validate_def result_simps srvm_checks_no_panic split: option.split)

lemma SRSim_Validate_no_panic: "named links \<Longrightarrow> \<not> panics (SRSim_Validate v links n)"
  by (simp add: SRSim_Validate_def result_simps srsim_checks_no_panic split: option.split)

lemma System_Validate_no_panic: "named links \<Longrightarrow> \<not> panics (System_Validate X links n s)"
  by (cases s)
     (simp_all add: System_Validate_def SRVM_Validate_no_panic SRSim_Validate_no_panic GeneralVM_Validate_def
        SRLinux_Validate_def GeneralPod_Validate_def result_simps getSRLChassis_no_panic split: option.split)

lemma SRVM_Validate_ok: "ok (SRVM_Validate X v links n) \<longleftrightarrow>
    (\<exists>chassis img. srvm_Chassis v = Some chassis \<and> srvm_Image v = Some img \<and>
       (HasPrefix img ''filesvr:'' \<or> reference_Parse X img = None) \<and>
       srvm_License v \<noteq> None \<and> srvm_Dedicate v \<noteq> None \<and> ok (SRChassis_Validate chassis) \<and>
       (\<forall>c\<in>connectors links. \<forall>port. con_PortId c = Some port \<longrightarrow> con_NodeName c \<noteq> None \<and>
          (con_NodeName c = Some n \<longrightarrow> port \<in> fst ` set (entries (ch_Cards chassis)))))"
proof -
  have "(\<exists>u. each (\<lambda>(linkName, link). each (srvm_port_check chassis n linkName) (link_Connectors link)) links = Inr u)
      \<longleftrightarrow> (\<forall>c\<in>connectors links. \<forall>port. con_PortId c = Some port \<longrightarrow> con_NodeName c \<noteq> None \<and>
          (con_NodeName c = Some n \<longrightarrow> port \<in> fst ` set (entries (ch_Cards chassis))))" for chassis
    unfolding ok_iff [symmetric] port_checks_ok srvm_port_check_ok connectors_def by fastforce
  then show ?thesis
    by (auto simp: SRVM_Validate_def ok_bindr lib_check_Inr split: option.split)
qed

lemma SRSim_Validate_ok: "ok (SRSim_Validate v links n) \<longleftrightarrow>
    (\<exists>chassis. srsim_Chassis v = Some chassis \<and> srsim_Image v \<noteq> None \<and> srsim_LicSecret v \<noteq> None \<and>
       ok (SRChassis_Validate chassis) \<and>
       (\<forall>c\<in>connectors links. con_NodeName c \<noteq> None \<and>
          (con_NodeName c = Some n \<longrightarrow> (\<forall>port. con_PortId c = Some port \<longrightarrow> port \<in> lang srsimPortRegex))))"
proof -
  have "(\<exists>u. each (\<lambda>(linkName, link). each (srsim_port_check n linkName) (link_Connectors link)) links = Inr u)
      \<longleftrightarrow> (\<forall>c\<in>connectors links. con_NodeName c \<noteq> None \<and>
          (con_NodeName c = Some n \<longrightarrow> (\<forall>port. con_PortId c = Some port \<longrightarrow> port \<in> lang srsimPortRegex)))"
    unfolding ok_iff [symmetric] port_checks_ok srsim_port_check_ok connectors_def by fastforce
  then show ?thesis
    by (auto simp: SRSim_Validate_def ok_bindr split: option.split)
qed

text \<open>The verdict does not depend on the order in which the links are visited.\<close>

lemma System_Validate_order:
  assumes "set links = set links'"
  shows "ok (System_Validate X links n s) \<longleftrightarrow> ok (System_Validate X links' n s)"
proof -
  have "connectors links = connectors links'" using assms by (simp add: connectors_def)
  then show ?thesis by (simp add: System_Validate_def SRVM_Validate_ok SRSim_Validate_ok split: System.split)
qed

section \<open>Facts on the union of node types\<close>

lemma OneOfSystem_validate_ok: "ok (OneOfSystem_validate one) \<longleftrightarrow> (\<exists>s name. one_fields one = [(s, name)])"
  by (cases "one_fields one"; cases "tl (one_fields one)") (auto simp: OneOfSystem_validate_def)

lemma OneOfSystem_validate_no_panic [simp]: "\<not> panics (OneOfSystem_validate one)"
  by (simp add: OneOfSystem_validate_def Let_def)

lemma one_fields_new [simp]: "one_fields new_OneOfSystem = []"
  by (simp add: one_fields_def new_OneOfSystem_def)

lemma GetSystem_None: "fst (GetSystem one) = None \<longleftrightarrow> one_fields one = []"
  by (auto simp: GetSystem_def split: list.split)

lemma GetSystem_validated: "ok (OneOfSystem_validate one) \<Longrightarrow> \<exists>s name. GetSystem one = (Some s, name)"
  by (auto simp: OneOfSystem_validate_ok GetSystem_def)

definition field_name :: "'c System \<Rightarrow> string" where
  "field_name s = (case s of SysVSIM _ \<Rightarrow> ''VSIM'' | SysVSRI _ \<Rightarrow> ''VSRI'' | SysMAGC _ \<Rightarrow> ''MAGC''
     | SysVM _ \<Rightarrow> ''VM'' | SysSRL _ \<Rightarrow> ''SRL'' | SysPod _ \<Rightarrow> ''Pod'' | SysSRSIM _ \<Rightarrow> ''SRSIM'')"

lemma one_fields_empty: "one_fields one = [] \<Longrightarrow> one = new_OneOfSystem"
  by (cases one) (auto simp: one_fields_def new_OneOfSystem_def split: option.splits)

lemma one_fields_Assign: "one_fields one = [] \<Longrightarrow> one_fields (AssignSystem s one) = [(s, field_name s)]"
  by (drule one_fields_empty, cases s)
     (simp_all add: one_fields_def new_OneOfSystem_def AssignSystem_def field_name_def)

lemma GetSystem_Assign: "one_fields one = [] \<Longrightarrow> GetSystem (AssignSystem s one) = (Some s, field_name s)"
  by (simp add: GetSystem_def one_fields_Assign)

lemma one_fields_name: "(s, name) \<in> set (one_fields one) \<Longrightarrow> name = field_name s"
  by (auto simp: one_fields_def field_name_def split: option.splits)

section \<open>Facts on the sort index\<close>

lemma key_index_absent: "n \<notin> set keys \<Longrightarrow> key_index keys n i = -1"
  by (induction keys arbitrary: i) auto

lemma key_index_nth: "distinct keys \<Longrightarrow> j < length keys \<Longrightarrow> key_index keys (keys ! j) i = i + int j"
proof (induction keys arbitrary: i j)
  case (Cons k keys)
  then show ?case by (cases j) (auto simp: nth_mem)
qed simp

lemma GetNodeSortIndex_nth: "wfmap nodes \<Longrightarrow> j < length nodes \<Longrightarrow>
    GetNodeSortIndex nodes (sort (map fst nodes) ! j) = int j"
  using key_index_nth [of "sort (map fst nodes)" j 0] by (simp add: GetNodeSortIndex_def wfmap_def)

lemma GetNodeSortIndex_bij:
  assumes "wfmap nodes"
  shows "bij_betw (GetNodeSortIndex nodes) (fst ` set nodes) {0..<int (length nodes)}"
proof (rule bij_betwI)
  let ?ks = "sort (map fst nodes)"
  show "(\<lambda>i. ?ks ! nat i) \<in> {0..<int (length nodes)} \<rightarrow> fst ` set nodes"
    using nth_mem [of _ ?ks] by auto
  show "GetNodeSortIndex nodes \<in> fst ` set nodes \<rightarrow> {0..<int (length nodes)}"
  proof
    fix n assume "n \<in> fst ` set nodes"
    then obtain j where "j < length nodes" "n = ?ks ! j" by (metis in_set_conv_nth length_map length_sort set_map set_sort)
    then show "GetNodeSortIndex nodes n \<in> {0..<int (length nodes)}" using GetNodeSortIndex_nth [OF assms] by simp
  qed
  show "?ks ! nat (GetNodeSortIndex nodes n) = n" if "n \<in> fst ` set nodes" for n
  proof -
    from that obtain j where "j < length nodes" "n = ?ks ! j" by (metis in_set_conv_nth length_map length_sort set_map set_sort)
    then show ?thesis using GetNodeSortIndex_nth [OF assms] by simp
  qed
  show "GetNodeSortIndex nodes (?ks ! nat i) = i" if "i \<in> {0..<int (length nodes)}" for i
    using that GetNodeSortIndex_nth [OF assms, of "nat i"] by (simp add: nat_less_iff)
qed

end
