(* ===== verification/NodeDefaults.thy ===== *)
theory NodeDefaults
  imports Systems
begin

text \<open>
  Facts on the defaulting of SR nodes (\<open>SRVM.FillDefaultVal\<close>, srvm.go): a specification card
  by card, from which follow independence of the visiting order, the frame (no other card
  changes), what the user set stays, and that a second run changes nothing; also how a panic
  arises.
\<close>

section \<open>Stores that differ by defaults\<close>

definition store_grows :: "cards \<Rightarrow> cards \<Rightarrow> bool" where
  "store_grows h h' \<longleftrightarrow> (\<forall>a. card_grows (h a) (h' a))"

lemma store_grows_refl [simp]: "store_grows h h"
  by (simp add: store_grows_def)

lemma store_grows_trans: "store_grows a b \<Longrightarrow> store_grows b c \<Longrightarrow> store_grows a c"
  unfolding store_grows_def by (meson card_grows_trans)

lemma store_grows_upd: "card_grows (h a) c \<Longrightarrow> store_grows h (h(a := c))"
  by (simp add: store_grows_def)

text \<open>Validation and the default sysinfo string read only what defaulting keeps.\<close>

lemma card_grows_validate: "card_grows c d \<Longrightarrow> ok (SRCard_Validate d) \<longleftrightarrow> ok (SRCard_Validate c)"
  by (simp add: SRCard_Validate_ok card_grows_def)

lemma chassis_grows_validate:
  assumes "store_grows h h'"
  shows "ok (SRChassis_Validate (map_chassis h' ch)) \<longleftrightarrow> ok (SRChassis_Validate (map_chassis h ch))"
proof -
  have "ok (SRCard_Validate (h' a)) \<longleftrightarrow> ok (SRCard_Validate (h a))" for a
    using assms card_grows_validate by (simp add: store_grows_def)
  then have "(\<forall>(slot, crd)\<in>set (map (map_prod id h') cs). ok (SRCard_Validate crd)) \<longleftrightarrow>
      (\<forall>(slot, crd)\<in>set (map (map_prod id h) cs). ok (SRCard_Validate crd))" for cs :: "nat gomap"
    by (induction cs) auto
  moreover have "fst ` set (map (map_prod id f) cs) = fst ` set cs" for f :: "nat \<Rightarrow> SRCard" and cs :: "nat gomap"
    by (simp add: image_image)
  ultimately show ?thesis by (simp add: SRChassis_Validate_ok del: set_map)
qed

lemma sysinfo_grows:
  assumes "store_grows h h'"
  shows "GetDefaultSysinfoStr ptr (map_chassis h' ch) slot = GetDefaultSysinfoStr ptr (map_chassis h ch) slot"
proof (cases "map_of (entries (ch_Cards ch)) slot")
  case (Some a)
  have "card_Model (h' a) = card_Model (h a)" "card_MDAs (h' a) = card_MDAs (h a)" "card_XIOM (h' a) = card_XIOM (h a)"
    using assms by (auto simp: store_grows_def card_grows_def)
  with Some show ?thesis by (simp add: GetDefaultSysinfoStr_def)
qed (simp add: GetDefaultSysinfoStr_def)

section \<open>One card\<close>

definition default_card ::
  "(string \<Rightarrow> string \<Rightarrow> string) \<Rightarrow> SRCard SRChassis \<Rightarrow> NodeType \<Rightarrow> string \<Rightarrow> SRCard \<Rightarrow> SRCard result" where
  "default_card ptr ch nt slot crd =
     bindr (GetDefaultSysinfoStr ptr ch slot) (\<lambda>sysinfo.
       SRCard_FillDefaultVal (crd\<lparr>card_SysInfo := SetDefaultGeneric (card_SysInfo crd) sysinfo\<rparr>) nt slot)"

lemma fill_slot_eq: "ch_Type ch = Some nt \<Longrightarrow>
    fill_slot ptr ch (slot, a) h = bindr (default_card ptr (map_chassis h ch) nt slot (h a)) (\<lambda>crd. Inr (h(a := crd)))"
  by (simp add: fill_slot_def default_card_def bindr_assoc)

lemma sysinfo_set_grows: "card_grows crd (crd\<lparr>card_SysInfo := SetDefaultGeneric (card_SysInfo crd) s\<rparr>)"
  by (simp add: card_grows_def SetDefaultGeneric_Some)

lemma default_card_grows: "default_card ptr ch nt slot crd = Inr d \<Longrightarrow> card_grows crd d"
  unfolding default_card_def bindr_eq_Inr
  using sysinfo_set_grows SRCard_Fill_grows card_grows_trans by blast

lemma default_card_again: "default_card ptr ch nt slot crd = Inr d \<Longrightarrow> default_card ptr ch nt slot d = Inr d"
proof -
  assume d: "default_card ptr ch nt slot crd = Inr d"
  then obtain s where s: "GetDefaultSysinfoStr ptr ch slot = Inr s"
    and f: "SRCard_FillDefaultVal (crd\<lparr>card_SysInfo := SetDefaultGeneric (card_SysInfo crd) s\<rparr>) nt slot = Inr d"
    by (auto simp: default_card_def bindr_eq_Inr)
  have "card_SysInfo d = SetDefaultGeneric (card_SysInfo crd) s"
    using SRCard_Fill_grows [OF f] by (simp add: card_grows_def)
  then have "d\<lparr>card_SysInfo := SetDefaultGeneric (card_SysInfo d) s\<rparr> = d"
    by (simp add: SetDefaultGeneric_again)
  with s SRCard_Fill_again [OF f] show ?thesis by (simp add: default_card_def)
qed

lemma default_card_ok:
  assumes "ok (SRChassis_Validate ch)" "slot \<in> fst ` set (entries (ch_Cards ch))"
    and "nt = SRVMMAGC \<Longrightarrow> IsCPM slot \<or> card_MDAs crd \<noteq> None"
  shows "ok (default_card ptr ch nt slot crd)"
  using GetDefaultSysinfoStr_ok [OF assms(1,2), of ptr] assms(3)
  by (auto simp: default_card_def ok_bindr ok_iff [of "GetDefaultSysinfoStr _ _ _"] SRCard_Fill_ok)

section \<open>All cards of a chassis\<close>

text \<open>
  Cards of one chassis at distinct addresses: they are decoded from one document, or are the
  cards of one default chassis.
\<close>

definition unshared :: "nat SRChassis \<Rightarrow> bool" where
  "unshared ch \<longleftrightarrow> wfmap (entries (ch_Cards ch)) \<and> distinct (map snd (entries (ch_Cards ch)))"

lemma fill_slot_grows: "fill_slot ptr ch x h = Inr h' \<Longrightarrow> store_grows h h'"
proof -
  assume f: "fill_slot ptr ch x h = Inr h'"
  obtain slot a where x: "x = (slot, a)" by fastforce
  from f obtain nt where "ch_Type ch = Some nt" by (auto simp: fill_slot_def x result_simps)
  with f show ?thesis
    by (auto simp: x fill_slot_eq bindr_eq_Inr intro!: store_grows_upd default_card_grows)
qed

lemma fold_fill_grows: "foldm (fill_slot ptr ch) cs h = Inr h' \<Longrightarrow> store_grows h h'"
  by (rule foldm_invariant [where P = "store_grows h"]) (auto intro: store_grows_trans fill_slot_grows)

lemma fold_fill_spec:
  assumes "ch_Type ch = Some nt" and "distinct (map snd cs)"
    and "\<forall>(slot, a)\<in>set cs. default_card ptr (map_chassis h ch) nt slot (h a) = Inr (d a)"
  shows "foldm (fill_slot ptr ch) cs h = Inr (\<lambda>a. if a \<in> snd ` set cs then d a else h a)"
  using assms(2,3)
proof (induction cs arbitrary: h)
  case (Cons x cs)
  obtain slot a where x: "x = (slot, a)" by fastforce
  define h1 where "h1 = h(a := d a)"
  from Cons.prems(2) x have da: "default_card ptr (map_chassis h ch) nt slot (h a) = Inr (d a)" by simp
  have grows: "store_grows h h1" unfolding h1_def by (rule store_grows_upd) (rule default_card_grows [OF da])
  have other: "a \<notin> snd ` set cs" using Cons.prems(1) x by auto
  have "default_card ptr (map_chassis h1 ch) nt s (h1 b) = Inr (d b)" if "(s, b) \<in> set cs" for s b
  proof -
    have "b \<noteq> a" using other that by force
    moreover have "default_card ptr (map_chassis h ch) nt s (h b) = Inr (d b)"
      using Cons.prems(2) that by auto
    moreover have "h1 b = h b" using \<open>b \<noteq> a\<close> by (simp add: h1_def)
    ultimately show ?thesis by (simp add: default_card_def sysinfo_grows [OF grows])
  qed
  then have "foldm (fill_slot ptr ch) cs h1 = Inr (\<lambda>b. if b \<in> snd ` set cs then d b else h1 b)"
    using Cons.prems(1) x by (intro Cons.IH) auto
  then show ?case
    using da assms(1) other by (auto simp: x fill_slot_eq h1_def)
qed simp

text \<open>The store that defaulting a chassis of a given type should leave.\<close>

definition defaulted :: "(string \<Rightarrow> string \<Rightarrow> string) \<Rightarrow> nat SRChassis \<Rightarrow> NodeType \<Rightarrow> cards \<Rightarrow> cards \<Rightarrow> bool" where
  "defaulted ptr ch nt h h' \<longleftrightarrow>
     (\<forall>(slot, a)\<in>set (entries (ch_Cards ch)). default_card ptr (map_chassis h ch) nt slot (h a) = Inr (h' a)) \<and>
     (\<forall>a. a \<notin> snd ` set (entries (ch_Cards ch)) \<longrightarrow> h' a = h a)"

definition fillable :: "nat SRChassis \<Rightarrow> NodeType \<Rightarrow> cards \<Rightarrow> bool" where
  "fillable ch nt h \<longleftrightarrow>
     (nt = SRVMMAGC \<longrightarrow> (\<forall>(slot, a)\<in>set (entries (ch_Cards ch)). IsCPM slot \<or> card_MDAs (h a) \<noteq> None))"

lemma fill_chassis_spec:
  assumes "ch_Type ch = Some nt" "unshared ch" "ok (SRChassis_Validate (map_chassis h ch))" "fillable ch nt h"
  shows "\<exists>h'. foldm (fill_slot ptr ch) (entries (ch_Cards ch)) h = Inr h' \<and> defaulted ptr ch nt h h'"
proof -
  let ?cs = "entries (ch_Cards ch)"
  have dist: "distinct (map snd ?cs)" using assms(2) by (simp add: unshared_def)
  let ?card = "\<lambda>slot a. default_card ptr (map_chassis h ch) nt slot (h a)"
  have oks: "\<exists>c. ?card slot a = Inr c" if "(slot, a) \<in> set ?cs" for slot a
  proof -
    have "slot \<in> fst ` set (entries (ch_Cards (map_chassis h ch)))" using that by force
    moreover have "nt = SRVMMAGC \<Longrightarrow> IsCPM slot \<or> card_MDAs (h a) \<noteq> None"
      using assms(4) that unfolding fillable_def by blast
    ultimately have "ok (?card slot a)" by (rule default_card_ok [OF assms(3)])
    then show ?thesis by (simp add: ok_iff)
  qed
  define d where "d a = (SOME c. \<exists>slot. (slot, a) \<in> set ?cs \<and> ?card slot a = Inr c)" for a
  have d: "?card slot a = Inr (d a)" if slot: "(slot, a) \<in> set ?cs" for slot a
  proof -
    obtain c where "?card slot a = Inr c" using oks [OF slot] by blast
    with slot have "\<exists>c slot'. (slot', a) \<in> set ?cs \<and> ?card slot' a = Inr c" by blast
    from someI_ex [OF this] have "\<exists>slot'. (slot', a) \<in> set ?cs \<and> ?card slot' a = Inr (d a)"
      unfolding d_def .
    then obtain slot' where s': "(slot', a) \<in> set ?cs" "?card slot' a = Inr (d a)" by blast
    have "inj_on snd (set ?cs)" using dist unfolding distinct_map by (rule conjunct2)
    moreover have "snd (slot', a) = snd (slot, a)" by (simp only: snd_conv)
    ultimately have "(slot', a) = (slot, a)" by (rule inj_onD) (rule s'(1), rule slot)
    then have "slot' = slot" by (rule Pair_inject)
    with s'(2) show ?thesis by (simp only:)
  qed
  then have "foldm (fill_slot ptr ch) ?cs h = Inr (\<lambda>a. if a \<in> snd ` set ?cs then d a else h a)"
    by (intro fold_fill_spec [OF assms(1) dist]) auto
  moreover have "defaulted ptr ch nt h (\<lambda>a. if a \<in> snd ` set ?cs then d a else h a)"
    using d by (force simp: defaulted_def)
  ultimately show ?thesis by blast
qed

lemma defaulted_unique: "defaulted ptr ch nt h h1 \<Longrightarrow> defaulted ptr ch nt h h2 \<Longrightarrow> h1 = h2"
proof
  fix a assume d: "defaulted ptr ch nt h h1" "defaulted ptr ch nt h h2"
  show "h1 a = h2 a"
  proof (cases "a \<in> snd ` set (entries (ch_Cards ch))")
    case True
    then obtain slot where "(slot, a) \<in> set (entries (ch_Cards ch))" by auto
    with d have "Inr (h1 a) = (Inr (h2 a) :: SRCard result)"
      unfolding defaulted_def by (metis (mono_tags, lifting) case_prodD)
    then show ?thesis by simp
  next
    case False
    with d show ?thesis by (simp add: defaulted_def)
  qed
qed

lemma defaulted_grows: "defaulted ptr ch nt h h' \<Longrightarrow> store_grows h h'"
  unfolding store_grows_def
proof
  fix a assume d: "defaulted ptr ch nt h h'"
  show "card_grows (h a) (h' a)"
  proof (cases "a \<in> snd ` set (entries (ch_Cards ch))")
    case True
    then obtain slot where "(slot, a) \<in> set (entries (ch_Cards ch))" by auto
    with d have "default_card ptr (map_chassis h ch) nt slot (h a) = Inr (h' a)"
      unfolding defaulted_def by blast
    then show ?thesis by (rule default_card_grows)
  qed (use d in \<open>simp add: defaulted_def\<close>)
qed

lemma defaulted_again: "defaulted ptr ch nt h h' \<Longrightarrow> defaulted ptr ch nt h' h'"
proof -
  assume d: "defaulted ptr ch nt h h'"
  have "default_card ptr (map_chassis h' ch) nt slot (h' a) = Inr (h' a)"
    if "(slot, a) \<in> set (entries (ch_Cards ch))" for slot a
  proof -
    have "default_card ptr (map_chassis h ch) nt slot (h a) = Inr (h' a)"
      using d that by (auto simp: defaulted_def)
    from default_card_again [OF this] show ?thesis
      by (simp add: default_card_def sysinfo_grows [OF defaulted_grows [OF d]])
  qed
  then show ?thesis by (auto simp: defaulted_def)
qed

text \<open>The order of the cards is immaterial.\<close>

lemma defaulted_order:
  assumes "set (entries cs) = set (entries (ch_Cards ch))" "wfmap (entries cs)" "wfmap (entries (ch_Cards ch))"
  shows "defaulted ptr (ch\<lparr>ch_Cards := cs\<rparr>) nt h h' \<longleftrightarrow> defaulted ptr ch nt h h'"
proof -
  have "map_of (entries cs) = map_of (entries (ch_Cards ch))"
    using assms by (simp add: wfmap_def map_of_inject_set)
  then have "GetDefaultSysinfoStr ptr (map_chassis h (ch\<lparr>ch_Cards := cs\<rparr>)) = GetDefaultSysinfoStr ptr (map_chassis h ch)"
    by (intro ext) (simp add: GetDefaultSysinfoStr_def)
  then show ?thesis using assms(1) by (simp add: defaulted_def default_card_def)
qed

section \<open>A node\<close>

lemma SRVM_fill_spec:
  assumes "srvm_Chassis v = Some ch" "ch_Type ch = Some nt" "unshared ch"
    "ok (SRChassis_Validate (map_chassis h ch))" "fillable ch nt h"
  shows "\<exists>h'. SRVM_FillDefaultVal ptr v h = Inr h' \<and> defaulted ptr ch nt h h'"
  using fill_chassis_spec [OF assms(2-5), of ptr] assms(1,4) by (simp add: SRVM_FillDefaultVal_def)

lemma SRVM_fill_skips:
  "srvm_Chassis v = Some ch \<Longrightarrow> \<not> ok (SRChassis_Validate (map_chassis h ch)) \<Longrightarrow> SRVM_FillDefaultVal ptr v h = Inr h"
  by (simp add: SRVM_FillDefaultVal_def)

lemma SRVM_fill_grows: "SRVM_FillDefaultVal ptr v h = Inr h' \<Longrightarrow> store_grows h h'"
  by (auto simp: SRVM_FillDefaultVal_def result_simps fold_fill_grows split: if_split_asm)

lemma System_fill_grows: "System_FillDefaultVal ptr s h = Inr (s', h') \<Longrightarrow> store_grows h h'"
  by (auto simp: System_FillDefaultVal_def VSIM_FillDefaultVal_def VSRI_FillDefaultVal_def
      MAGC_FillDefaultVal_def SRVM_typed_Fill_def result_simps Let_def dest: SRVM_fill_grows split: System.splits)

lemma System_fill_type: "System_FillDefaultVal ptr s h = Inr (s', h') \<Longrightarrow> sys_type s' = sys_type s"
  by (auto simp: System_FillDefaultVal_def sys_type_def result_simps split: System.splits)

end
