(* ===== verification/Mac.thy ===== *)
theory Mac
  imports Go_Net
begin

text \<open>
  MAC addresses the operator hands out (common.go, vmpc.go): \<open>DeriveMac\<close> adds an offset to a
  base address as one big-endian number. What a derived address is as a number, when two are
  equal, and that the three pools (links, chassis, VMs) do not meet.
\<close>

section \<open>Big-endian numbers\<close>

definition be_val :: "8 word list \<Rightarrow> nat" where
  "be_val bs = foldl (\<lambda>a b. a * 256 + unat b) 0 bs"

text \<open>\<open>binary.BigEndian.Uint64\<close> and \<open>PutUint64\<close>.\<close>

definition Uint64 :: "8 word list \<Rightarrow> 64 word" where
  "Uint64 b = word_of_nat (be_val (take 8 b))"

definition PutUint64 :: "64 word \<Rightarrow> 8 word list" where
  "PutUint64 v = map (\<lambda>i. ucast (drop_bit (8 * i) v)) [7, 6, 5, 4, 3, 2, 1, 0]"

definition BaseMACAddr :: hwaddr where
  "BaseMACAddr = [0x12, 32, 34, 0, 0, 0]"

definition ChassisBaseMACAddr :: hwaddr where
  "ChassisBaseMACAddr = [2, 0xcc, 0, 0, 0, 0]"

definition VMBaseMAC :: hwaddr where
  "VMBaseMAC = [2, 0xff, 0, 0, 0, 99]"

text \<open>Reading eight bytes of a shorter buffer panics.\<close>

definition DeriveMac :: "hwaddr \<Rightarrow> int \<Rightarrow> hwaddr result" where
  "DeriveMac basemac offset =
     (let buf = [0, 0] @ basemac
      in if length buf < 8 then Inl (Panic ''index out of range'')
         else let basenum = Uint64 buf + word_of_int offset;
                  buf' = PutUint64 basenum @ drop 8 buf
              in Inr (take 6 (drop 2 buf')))"

definition DeriveChassisMac :: "int \<Rightarrow> hwaddr result" where
  "DeriveChassisMac offset = DeriveMac ChassisBaseMACAddr offset"

section \<open>Numbers and bytes\<close>

lemma be_val_Nil [simp]: "be_val [] = 0"
  by (simp add: be_val_def)

lemma be_val_snoc [simp]: "be_val (bs @ [b]) = be_val bs * 256 + unat b"
  by (simp add: be_val_def)

lemma be_val_less: "be_val bs < 256 ^ length bs"
proof (induction bs rule: rev_induct)
  case (snoc b bs)
  have "be_val bs * 256 + unat b < (be_val bs + 1) * 256" by simp
  also have "\<dots> \<le> 256 ^ length bs * 256" using snoc by (simp add: Suc_leI)
  finally show ?case by (simp add: mult.commute)
qed simp

lemma be_val_inj: "length as = length bs \<Longrightarrow> be_val as = be_val bs \<Longrightarrow> as = bs"
proof (induction as arbitrary: bs rule: rev_induct)
  case (snoc a as)
  then obtain b bs' where bs: "bs = bs' @ [b]" "length as = length bs'"
    by (cases bs rule: rev_cases) auto
  have eq: "be_val as * 256 + unat a = be_val bs' * 256 + unat b"
    using snoc.prems(2) bs by simp
  from arg_cong [OF eq, of "\<lambda>x. x mod 256"] have "unat a = unat b" by simp
  moreover from arg_cong [OF eq, of "\<lambda>x. x div 256"] have "be_val as = be_val bs'" by simp
  ultimately show ?case using snoc.IH bs by (simp add: word_unat_eq_iff)
qed simp

fun be_bytes :: "nat \<Rightarrow> nat \<Rightarrow> 8 word list" where
  "be_bytes 0 n = []"
| "be_bytes (Suc k) n = be_bytes k (n div 256) @ [word_of_nat n]"

lemma length_be_bytes [simp]: "length (be_bytes k n) = k"
  by (induction k arbitrary: n) auto

lemma be_val_be_bytes: "be_val (be_bytes k n) = n mod 256 ^ k"
proof (induction k arbitrary: n)
  case (Suc k)
  have "n mod 256 ^ Suc k = 256 * (n div 256 mod 256 ^ k) + n mod 256"
    using mod_mult2_eq [of n 256 "256 ^ k"] by simp
  moreover have "unat (word_of_nat n :: 8 word) = n mod 256"
    by (simp add: unat_of_nat)
  ultimately show ?case using Suc by simp
qed simp

lemma be_bytes_map: "be_bytes k n = map (\<lambda>i. word_of_nat (n div 256 ^ i)) (rev [0..<k])"
proof (induction k arbitrary: n)
  case (Suc k)
  have "rev [0..<Suc k] = map Suc (rev [0..<k]) @ [0]"
    by (simp only: upt_conv_Cons zero_less_Suc map_Suc_upt [symmetric] rev.simps rev_map)
  then show ?case using Suc by (simp add: div_mult2_eq)
qed simp

lemma PutUint64_bytes: "PutUint64 v = be_bytes 8 (unat v)"
proof -
  have byte: "ucast (drop_bit (8 * i) v) = (word_of_nat (unat v div 256 ^ i) :: 8 word)" for i
  proof -
    have "(2 :: nat) ^ (8 * i) = 256 ^ i" by (simp add: power_mult)
    then have "unat (drop_bit (8 * i) v) = unat v div 256 ^ i"
      by (metis unat_drop_bit_eq drop_bit_eq_div)
    then show ?thesis by (metis of_nat_unat)
  qed
  show ?thesis by (simp add: PutUint64_def byte be_bytes_map upt_rec)
qed

lemma drop_be_bytes: "drop j (be_bytes (j + k) n) = be_bytes k n"
  by (induction k arbitrary: n) (auto simp: drop_Cons')

section \<open>What a derived address is\<close>

lemma be_val_append: "be_val (as @ bs) = be_val as * 256 ^ length bs + be_val bs"
proof (induction bs rule: rev_induct)
  case (snoc b bs)
  have "be_val (as @ bs @ [b]) = be_val (as @ bs) * 256 + unat b"
    by (simp flip: append_assoc)
  with snoc show ?case by (simp add: algebra_simps)
qed simp

lemma DeriveMac_eq:
  assumes "length b = 6"
  shows "\<exists>hw. DeriveMac b off = Inr hw \<and> length hw = 6 \<and> int (be_val hw) = (int (be_val b) + off) mod 2 ^ 48"
proof -
  let ?buf = "[0, 0] @ b"
  let ?n = "Uint64 ?buf + word_of_int off"
  let ?hw = "take 6 (drop 2 (PutUint64 ?n @ drop 8 ?buf))"
  have hw: "?hw = be_bytes 6 (unat ?n)"
    using drop_be_bytes [of 2 6 "unat ?n"] assms by (simp add: PutUint64_bytes)
  have zero: "be_val ?buf = be_val b"
    using be_val_append [of "[0, 0]" b] be_val_snoc [of "[]" 0] be_val_snoc [of "[0]" 0] by simp
  have "Uint64 ?buf = word_of_nat (be_val b)"
    using assms zero by (simp add: Uint64_def)
  then have "?n = word_of_int (int (be_val b) + off)" by simp
  then have "uint ?n = (int (be_val b) + off) mod 2 ^ 64"
    by (simp only: uint_word_of_int) simp
  then have "int (unat ?n) = (int (be_val b) + off) mod 2 ^ 64"
    by (simp only: uint_nat [symmetric])
  then have "int (unat ?n mod 256 ^ 6) = (int (be_val b) + off) mod 2 ^ 48"
    by (simp add: zmod_int mod_mod_cancel)
  then show ?thesis
    unfolding DeriveMac_def Let_def using assms hw
    by (simp add: be_val_be_bytes)
qed

lemma DeriveMac_total: "length b = 6 \<Longrightarrow> ok (DeriveMac b off)"
  using DeriveMac_eq [of b off] by auto

text \<open>Equal addresses from one base have offsets that differ by a multiple of \<open>2^48\<close>.\<close>

lemma DeriveMac_inj:
  assumes "length b = 6" and "\<bar>i - j\<bar> < 2 ^ 48"
  shows "DeriveMac b i = DeriveMac b j \<longleftrightarrow> i = j"
proof
  assume eq: "DeriveMac b i = DeriveMac b j"
  from DeriveMac_eq [OF assms(1), of i] DeriveMac_eq [OF assms(1), of j] eq
  have "(int (be_val b) + i) mod 2 ^ 48 = (int (be_val b) + j) mod 2 ^ 48" by auto
  then have "2 ^ 48 dvd i - j" by (simp add: mod_eq_dvd_iff)
  with assms(2) show "i = j" using dvd_imp_le_int [of "i - j" "2 ^ 48"] by fastforce
qed simp

text \<open>An offset below \<open>2^24 = 16777216\<close> leaves the first three bytes of a base that ends in zeros.\<close>

lemma split_24: "a * 16777216 + d = p * 16777216 + n \<Longrightarrow> d < 16777216 \<Longrightarrow> n < 16777216 \<Longrightarrow> a = p"
  for a d p n :: nat
proof -
  assume eq: "a * 16777216 + d = p * 16777216 + n" and less: "d < 16777216" "n < 16777216"
  have "(a * 16777216 + d) div 16777216 = a" "(p * 16777216 + n) div 16777216 = p"
    using less by simp_all
  with eq show ?thesis by metis
qed

lemma be_val_high: "length hw = 6 \<Longrightarrow>
    be_val hw = be_val (take 3 hw) * 16777216 + be_val (drop 3 hw) \<and> be_val (drop 3 hw) < 16777216"
  using be_val_append [of "take 3 hw" "drop 3 hw"] be_val_less [of "drop 3 hw"] by simp

lemma be_val_zeros: "be_val (p @ [0, 0, 0]) = be_val p * 16777216"
  using be_val_snoc [of "p @ [0, 0]" 0] be_val_snoc [of "p @ [0]" 0] be_val_snoc [of p 0] by simp

lemma DeriveMac_prefix:
  assumes b: "b = p @ [0, 0, 0]" "length p = 3" and off: "0 \<le> off" "off < 16777216"
    and hw: "DeriveMac b off = Inr hw"
  shows "take 3 hw = p"
proof -
  obtain n where n: "off = int n" "n < 16777216" using off nonneg_int_cases by fastforce
  have len: "length b = 6" using b by simp
  with DeriveMac_eq [OF len, of off] hw
  have l6: "length hw = 6" and v: "int (be_val hw) = (int (be_val b) + off) mod 2 ^ 48" by auto
  have "be_val p < 16777216" using be_val_less [of p] b(2) by simp
  then have "be_val p * 16777216 + n < 281474976710656" using n(2) by linarith
  then have "int (be_val b) + off < 2 ^ 48" unfolding b(1) be_val_zeros n(1) by simp
  then have "int (be_val hw) = int (be_val b) + off" using v off(1) by (simp only: mod_pos_pos_trivial)
  then have "be_val hw = be_val p * 16777216 + n" unfolding b(1) be_val_zeros n(1) by linarith
  then have "be_val (take 3 hw) = be_val p"
    using split_24 [OF trans [OF sym [OF conjunct1 [OF be_val_high [OF l6]]]]
        conjunct2 [OF be_val_high [OF l6]] n(2)] by blast
  then show ?thesis using be_val_inj [of "take 3 hw" p] l6 b(2) by simp
qed

lemma base_mac_split: "BaseMACAddr = [0x12, 32, 34] @ [0, 0, 0]" "ChassisBaseMACAddr = [2, 0xcc, 0] @ [0, 0, 0]"
  by (simp_all add: BaseMACAddr_def ChassisBaseMACAddr_def)

lemma length_base_macs [simp]: "length BaseMACAddr = 6" "length ChassisBaseMACAddr = 6"
  by (simp_all add: BaseMACAddr_def ChassisBaseMACAddr_def)

text \<open>A unicast address that is locally administered: the two low bits of the first byte are 0 and 1.\<close>

definition local_unicast :: "hwaddr \<Rightarrow> bool" where
  "local_unicast hw \<longleftrightarrow> hw \<noteq> [] \<and> unat (hd hw) mod 4 = 2"

lemma derived_local_unicast:
  assumes "b = BaseMACAddr \<or> b = ChassisBaseMACAddr" "0 \<le> off" "off < 16777216" "DeriveMac b off = Inr hw"
  shows "local_unicast hw"
proof -
  have "take 3 hw = [0x12, 32, 34] \<or> take 3 hw = [2, 0xcc, 0]"
    using assms DeriveMac_prefix [OF base_mac_split(1), of off hw]
      DeriveMac_prefix [OF base_mac_split(2), of off hw] by auto
  then have "hd hw = 0x12 \<or> hd hw = 2" "hw \<noteq> []" by (cases hw; auto)+
  then show ?thesis by (auto simp: local_unicast_def)
qed

lemma ParseMAC_derived: "length b = 6 \<Longrightarrow> DeriveMac b off = Inr hw \<Longrightarrow> ParseMAC (mac_String hw) = Inr hw"
  using DeriveMac_eq [of b off] by (auto intro: ParseMAC_String)

lemma mac_String_inj: "length a = 6 \<Longrightarrow> length b = 6 \<Longrightarrow> mac_String a = mac_String b \<Longrightarrow> a = b"
proof -
  assume len: "length a = 6" "length b = 6" and eq: "mac_String a = mac_String b"
  have "Inr a = ParseMAC (mac_String a)" using len by (simp add: ParseMAC_String)
  also have "\<dots> = Inr b" using len eq by (simp add: ParseMAC_String)
  finally show "a = b" by simp
qed

end
