(* ===== verification/Props_Data.thy ===== *)
theory Props_Data
  imports Fill_Records NodeDefaults Mac
begin

text \<open>
  Properties of the data model: the merge of defaults, the names and addresses derived for
  cluster objects, cards and chassis, and the defaults of a node.
\<close>

section \<open>Merging defaults\<close>

text \<open>C21
  Filling nil pointers by reflection (\<open>fillNilPointersValue\<close>, common.go) on the configuration, field by
  field along its type, is the field-wise merge of the configuration record: every exported pointer or
  map field that is nil takes the default, pointers to API structs are merged inside, nothing else changes.
\<close>

theorem reflection_is_record_merge:
  "fillNilPointersValue ty_KNLConfig (enc_KNLConfig d) (enc_KNLConfig s) = enc_KNLConfig (fill_KNLConfig d s)"
  by (rule enc_fill_KNLConfig)

text \<open>C20
  The merge of defaults, on values of any struct type: merging with itself changes nothing, merging the
  same defaults twice is merging them once, layers of defaults can be merged in any grouping, and a value
  that is set is kept at every depth.
\<close>

theorem merge_laws:
  assumes "has_types ts a" "has_types ts b" "has_types ts c"
  shows "fillNilPointersValue ts a a = a \<and>
    fillNilPointersValue ts (fillNilPointersValue ts a b) b = fillNilPointersValue ts a b \<and>
    fillNilPointersValue ts (fillNilPointersValue ts a b) c = fillNilPointersValue ts a (fillNilPointersValue ts b c) \<and>
    kepts ts a (fillNilPointersValue ts a b)"
  using assms by (intro conjI go_fill.mrg_self go_fill.mrg_again go_fill.mrg_assoc go_fill.mrg_stays)

theorem merge_laws_witness:
  "let ts = [(True, TPointer (TStruct ''SRVM'' [(True, TPointer TBasic), (True, TPointer TBasic)]))];
       a = [VPtr (VStruct [VPtr (VLeaf ''img''), VNil])]; b = [VPtr (VStruct [VNil, VPtr (VLeaf ''lic'')])]; c = [VNil]
   in fillNilPointersValue ts a a = a \<and>
    fillNilPointersValue ts (fillNilPointersValue ts a b) b = fillNilPointersValue ts a b \<and>
    fillNilPointersValue ts (fillNilPointersValue ts a b) c = fillNilPointersValue ts a (fillNilPointersValue ts b c) \<and>
    kepts ts a (fillNilPointersValue ts a b)"
  unfolding Let_def by (rule merge_laws) simp_all

section \<open>Names\<close>

text \<open>
  Spoke and VXLAN interface names fit the kernel's limit of 15 bytes for every VNI the operator
  allocates and up to a hundred connectors, and two spokes have the same name only if they have the same
  VNI and connector index.
\<close>

lemma spoke_names:
  assumes "0 \<le> vni" "vni \<le> 16777215" "0 \<le> i" "i < 100" "0 \<le> vni'"
  shows "length (getSpokeName vni i) \<le> 15 \<and> length (Getk8lanVxName lab link vni) \<le> 15 \<and>
    (getSpokeName vni i = getSpokeName vni' i' \<longleftrightarrow> vni = vni' \<and> i = i')"
  using assms by (simp add: getSpokeName_length Getk8lanVxName_length getSpokeName_inj)

lemma spoke_names_example:
  "length (getSpokeName 16777215 99) \<le> 15 \<and> length (Getk8lanVxName ''lab'' ''link'' 16777215) \<le> 15 \<and>
    (getSpokeName 16777215 99 = getSpokeName 1 0 \<longleftrightarrow> (16777215 :: int) = 1 \<and> (99 :: int) = 0)"
  by (rule spoke_names) simp_all

text \<open>
  The hashed interface names (bridge, veth, VXLAN) are produced without panic for every hash value and
  fit the kernel's limit: the three-letter prefix, at most eleven base-62 digits with a sign, the suffix.
\<close>

lemma hashed_names_fit:
  assumes "length suffix \<le> 2"
  shows "\<exists>r. GenerateHashedInterfaceName hash linkName suffix = Inr r \<and> length r \<le> 14"
proof -
  obtain r where "GenerateHashedInterfaceName hash linkName suffix = Inr r" "length r \<le> 12 + length suffix"
    using hashed_name [OF assms, of hash linkName] by blast
  with assms show ?thesis by (intro exI [of _ r]) simp
qed

lemma hashed_names_fit_example:
  "\<exists>r. GenerateHashedInterfaceName (\<lambda>_. - 1) ''lab-link1'' ''vx'' = Inr r \<and> length r \<le> 14"
  by (rule hashed_names_fit) simp

text \<open>C33
  A string is accepted as a domain name exactly when it has at most 253 bytes and is a non-empty
  dot-separated list of labels made of letters, digits and inner hyphens. There is no limit of 63
  bytes on a label and no demand for a top-level domain.
\<close>

theorem fqdn_grammar:
  "IsValidFQDN s \<longleftrightarrow> length s \<le> 253 \<and> (\<exists>ls. ls \<noteq> [] \<and> list_all good_label ls \<and> s = Join ls ''.'')"
  by (rule IsValidFQDN_iff)

section \<open>MAC addresses\<close>

text \<open>
  MAC addresses derived from one of the two base addresses at different offsets below 2^24 are
  different, locally administered and unicast, and read back as themselves from the text the code stores.
\<close>

lemma derived_macs:
  assumes "b = BaseMACAddr \<or> b = ChassisBaseMACAddr" and "0 \<le> i" "i < 16777216" "0 \<le> j" "j < 16777216"
    and "DeriveMac b i = Inr hw" "DeriveMac b j = Inr hw'"
  shows "(hw = hw' \<longleftrightarrow> i = j) \<and> local_unicast hw \<and> ParseMAC (mac_String hw) = Inr hw"
proof -
  have len: "length b = 6" using assms(1) by auto
  have "DeriveMac b i = DeriveMac b j \<longleftrightarrow> i = j" by (rule DeriveMac_inj [OF len]) (use assms in auto)
  then show ?thesis
    using assms derived_local_unicast [OF assms(1-3,6)] ParseMAC_derived [OF len assms(6)] by auto
qed

lemma derived_macs_example:
  "\<exists>hw hw'. DeriveMac BaseMACAddr 1 = Inr hw \<and> DeriveMac BaseMACAddr 256 = Inr hw' \<and>
    (hw = hw' \<longleftrightarrow> (1 :: int) = 256) \<and> local_unicast hw \<and> ParseMAC (mac_String hw) = Inr hw"
proof -
  obtain hw hw' where hw: "DeriveMac BaseMACAddr 1 = Inr hw" "DeriveMac BaseMACAddr 256 = Inr hw'"
    using DeriveMac_total [of BaseMACAddr 1] DeriveMac_total [of BaseMACAddr 256] by (auto simp: ok_iff)
  from derived_macs [OF disjI1 [OF refl] _ _ _ _ this] hw show ?thesis by auto
qed

section \<open>Chassis\<close>

text \<open>
  The chassis model written into the system information of a card is the one read back from it, also
  after the configuration and license URLs are added; the card type of a running VM can so be told.
\<close>

lemma sysinfo_roundtrip:
  assumes "GetDefaultSysinfoStr ptr ch slot = Inr s" "ch_Model ch = Some model" "\<forall>c\<in>set model. \<not> is_space c"
  shows "GetChassisFromSysinfoStr s = model \<and> GetChassisFromSysinfoStr (GenSysinfo s cfgURL licURL) = model"
  using sysinfo_chassis [OF assms] by blast

lemma sysinfo_roundtrip_example:
  "GetChassisFromSysinfoStr ''chassis=SR-7 sfm=m-sfm5-7 card=cpm5 slot=A '' = ''SR-7'' \<and>
   GetChassisFromSysinfoStr (GenSysinfo ''chassis=SR-7 sfm=m-sfm5-7 card=cpm5 slot=A '' ''ftp://a'' ''ftp://b'') = ''SR-7''"
  by (rule sysinfo_roundtrip [where ch = "DefaultSIMChassis SRVMVSIM" and slot = "''A''" and ptr = "\<lambda>_ _. []"]) (code_simp+)

text \<open>C31
  The default port of a connector on a distributed chassis is the lowest of the candidate slots, which are those of the
  line cards, and for a MAG-c only of line cards of the model iom-v. Without a candidate it is n/a, which is no slot. When
  slot names are written as plain decimal numbers any other result is a slot of the chassis.
\<close>

theorem default_port_slot:
  assumes "ok (SRChassis_Validate ch)" "ch_Type ch = Some t" "ch_Model ch = Some m" "\<not> IsIntegratedChassis m"
    and "canonical_slots (entries (ch_Cards ch))"
  shows "(let ids = concat (map (iom_ids t) (entries (ch_Cards ch)))
      in GetDefaultMDASlot ch = Inr (if ids = [] then ''n/a'' else Itoa (Min (set ids)))) \<and>
    (\<exists>slot. GetDefaultMDASlot ch = Inr slot \<and> (slot = ''n/a'' \<or> slot \<in> fst ` set (entries (ch_Cards ch))))"
proof -
  have eq: "GetDefaultMDASlot ch = (let ids = concat (map (iom_ids t) (entries (ch_Cards ch)))
      in Inr (if ids = [] then ''n/a'' else Itoa (Min (set ids))))"
    by (rule GetDefaultMDASlot_eq [OF assms(1-4) canonical_numeric [OF assms(5)]])
  then obtain slot where "GetDefaultMDASlot ch = Inr slot" by (auto simp: Let_def)
  with GetDefaultMDASlot_key [OF assms this] eq show ?thesis by (auto simp: Let_def)
qed

theorem default_port_slot_witness:
  "(let ids = concat (map (iom_ids SRVMVSIM) (entries (ch_Cards (DefaultSIMChassis SRVMVSIM))))
      in GetDefaultMDASlot (DefaultSIMChassis SRVMVSIM) = Inr (if ids = [] then ''n/a'' else Itoa (Min (set ids)))) \<and>
    (\<exists>slot. GetDefaultMDASlot (DefaultSIMChassis SRVMVSIM) = Inr slot \<and>
      (slot = ''n/a'' \<or> slot \<in> fst ` set (entries (ch_Cards (DefaultSIMChassis SRVMVSIM)))))"
proof (rule default_port_slot)
  have cpm_A: "IsCPM ''A''" by code_simp
  have one: "Itoa 1 = ''1''" by code_simp
  have "\<exists>n. int64_min \<le> n \<and> n \<le> int64_max \<and> ''1'' = Itoa n"
    by (rule exI [of _ 1]) (simp add: one int64_min_def int64_max_def)
  then show "canonical_slots (entries (ch_Cards (DefaultSIMChassis SRVMVSIM)))"
    by (auto simp: canonical_slots_def DefaultSIMChassis_def Let_def cpm_A)
qed (code_simp+)

text \<open>C32
  Filling the defaults of a card only adds: model, MDAs and every request or port list the user gave stay,
  a second filling changes nothing, and it panics exactly for a MAG-c line card without an MDA list.
\<close>

theorem card_defaults:
  "(case SRCard_FillDefaultVal crd nt slot of
      Inr d \<Rightarrow> card_grows crd d \<and> SRCard_FillDefaultVal d nt slot = Inr d
    | Inl e \<Rightarrow> True) \<and>
   (ok (SRCard_FillDefaultVal crd nt slot) \<longleftrightarrow> \<not> (nt = SRVMMAGC \<and> \<not> IsCPM slot \<and> card_MDAs crd = None)) \<and>
   (panics (SRCard_FillDefaultVal crd nt slot) \<longleftrightarrow> nt = SRVMMAGC \<and> \<not> IsCPM slot \<and> card_MDAs crd = None)"
  by (auto simp: SRCard_Fill_ok SRCard_Fill_panics split: sum.split intro: SRCard_Fill_grows SRCard_Fill_again)

section \<open>SR Linux\<close>

text \<open>C30
  A chassis string of six dash-separated fields is read as what it was written from: type, base MAC,
  CPM, slot, card type and MDA type.
\<close>

theorem chassis_string_roundtrip:
  assumes "int_range t" "int_range cpm" "int_range slot" "int_range iom" "int_range mda" "length hw = 6"
  shows "parseChassisStr (Join [Itoa t, mac_String hw, Itoa cpm, Itoa slot, Itoa iom, Itoa mda] ''-'') =
    Inr \<lparr>srlc_Configuration = \<lparr>cc_ChassisType = t, cc_BaseMAC = mac_String hw, cc_CPM = cpm\<rparr>,
         srlc_SlotConfig = [(slot, \<lparr>sc_CardType = iom, sc_MDAType = mda\<rparr>)]\<rparr>"
  by (rule parseChassisStr_Join) (use assms in auto)

theorem chassis_string_roundtrip_witness:
  "parseChassisStr (Join [Itoa 72, mac_String [0xFA, 0x10, 0, 0, 0, 0], Itoa 159, Itoa 1, Itoa 199, Itoa 199] ''-'') =
    Inr \<lparr>srlc_Configuration = \<lparr>cc_ChassisType = 72, cc_BaseMAC = mac_String [0xFA, 0x10, 0, 0, 0, 0], cc_CPM = 159\<rparr>,
         srlc_SlotConfig = [(1, \<lparr>sc_CardType = 199, sc_MDAType = 199\<rparr>)]\<rparr>"
  by (rule chassis_string_roundtrip) (simp_all add: int_range_def int64_min_def int64_max_def)

text \<open>C39
  The base MAC given to an SR Linux chassis from the rank of its node name is a MAC address only for ranks
  16 to 255: the number is printed in hexadecimal without padding, so the first sixteen nodes of a lab
  get a string that does not parse.
\<close>

theorem base_mac_of_rank:
  assumes "0 \<le> i"
  shows "ok (ParseMAC (getBaseMAC i)) \<longleftrightarrow> 16 \<le> i \<and> i \<le> 255"
  by (rule getBaseMAC_valid [OF assms])

theorem base_mac_of_rank_witness: "ok (ParseMAC (getBaseMAC 3)) \<longleftrightarrow> 16 \<le> (3 :: int) \<and> (3 :: int) \<le> 255"
  by (rule base_mac_of_rank) simp

text \<open>
  The rank of a node name (\<open>GetNodeSortIndex\<close>) numbers the nodes of a lab from 0 without gaps or repetitions.
\<close>

lemma node_ranks:
  assumes "wfmap nodes"
  shows "bij_betw (GetNodeSortIndex nodes) (fst ` set nodes) {0..<int (length nodes)}"
  by (rule GetNodeSortIndex_bij [OF assms])

lemma node_ranks_example:
  "bij_betw (GetNodeSortIndex [(''pod-1'', ()), (''srl-1'', ())]) (fst ` set [(''pod-1'', ()), (''srl-1'', ())])
     {0..<int (length [(''pod-1'', ()), (''srl-1'', ())])}"
  by (rule node_ranks) (simp add: wfmap_def)

end
