(* ===== verification/Config.thy ===== *)
theory Config
  imports NodeDefaults
begin

text \<open>
  The operator configuration: the application default and validation (knlconfig_types.go), the
  admission webhook (knlconfig_webhook.go), the process-wide copy \<open>GCONF\<close> (cfg.go) and the
  controller that feeds it (knlconfig_controller.go); and \<open>LoadDef\<close>, which fills the nodes of a
  lab from it.

  \<open>GCONF\<close> is read and written under one lock, so each of its methods is one step.
\<close>

section \<open>The application default\<close>

definition DefKNLConfig :: "SRCard KNLConfigSpec" where
  "DefKNLConfig = \<lparr>cfg_SFTPSever = Some ''knl-sftp-service.knl-system.svc.cluster.local:22'',
     cfg_VXLANGrpAddr = Some ''ff18::100'', cfg_VXLANDefaultDev = None, cfg_VxDevMap = None,
     cfg_PVCStorageClass = None, cfg_SRCPMLoaderImage = None, cfg_SRIOMLoaderImage = None,
     cfg_SideCarHookImg = Some ''ghcr.io/hujun-open/knl/knlsidecar:latest'',
     cfg_DefaultNode = Some
       \<lparr>one_VSIM = Some (VSIM_SetToAppDefVal new_SRVM), one_VSRI = Some (VSRI_SetToAppDefVal new_SRVM),
        one_MAGC = Some (MAGC_SetToAppDefVal new_SRVM), one_VM = Some (GeneralVM_SetToAppDefVal new_GeneralVM),
        one_SRL = Some (SRLinux_SetToAppDefVal new_SRLinux),
        one_Pod = Some (GeneralPod_SetToAppDefVal new_GeneralPod),
        one_SRSIM = Some (SRSim_SetToAppDefVal new_SRSim)\<rparr>\<rparr>"

section \<open>Filling the nodes of a lab\<close>

definition FieldByName :: "'c OneOfSystem \<Rightarrow> string \<Rightarrow> 'c System option" where
  "FieldByName one name = map_option fst (find (\<lambda>(s, n). n = name) (one_fields one))"

definition load_node :: "'c KNLConfigSpec \<Rightarrow> string \<times> 'c OneOfSystem \<Rightarrow> (string \<times> 'c OneOfSystem) result" where
  "load_node def = (\<lambda>(nodeName, nodesys).
     case GetSystem nodesys of
       (None, _) \<Rightarrow> errf ''node %v's type is not specified'' [nodeName]
     | (Some node, fieldName) \<Rightarrow>
         bindr (deref (cfg_DefaultNode def)) (\<lambda>defVal.
           case FieldByName defVal fieldName of
             None \<Rightarrow> Inr (nodeName, nodesys)
           | Some defNode \<Rightarrow>
               bindr (FillNilPointers node defNode) (\<lambda>node'. Inr (nodeName, AssignSystem node' nodesys))))"

definition LoadDef :: "'c OneOfSystem gomap \<Rightarrow> 'c KNLConfigSpec \<Rightarrow> 'c OneOfSystem gomap result" where
  "LoadDef nodes def = mapr (load_node def) nodes"

section \<open>Validation\<close>

definition isStrNotSpecfied :: "string option \<Rightarrow> bool" where
  "isStrNotSpecfied str = (case str of None \<Rightarrow> True | Some s \<Rightarrow> TrimSpace s = [])"

definition image_check :: "Externs \<Rightarrow> string option \<Rightarrow> unit result" where
  "image_check X img = (case img of None \<Rightarrow> Inr ()
     | Some i \<Rightarrow> lib_check ''%v is not valid container image url: %w'' [i] (reference_Parse X i))"

definition KNLConfig_Validate :: "Externs \<Rightarrow> 'c KNLConfigSpec \<Rightarrow> unit result" where
  "KNLConfig_Validate X spec =
     bindr (deref (cfg_VXLANGrpAddr spec)) (\<lambda>grp.
     bindr (case ParseAddr grp of
              Inl _ \<Rightarrow> errf ''%v is not valid VxLAN Group IP addr'' [grp]
            | Inr addr \<Rightarrow> failif (Is4 addr \<or> \<not> IsMulticast addr)
                ''VxLAN Group IP addr %v is not a IPv6 multicast address'' [grp]) (\<lambda>_.
     bindr (failif (isStrNotSpecfied (cfg_PVCStorageClass spec)) ''storage class not specified'' []) (\<lambda>_.
     bindr (failif (isStrNotSpecfied (cfg_VXLANDefaultDev spec) \<and> entries (cfg_VxDevMap spec) = [])
              ''vxlan dev not specified'' []) (\<lambda>_.
     bindr (image_check X (cfg_SRCPMLoaderImage spec)) (\<lambda>_.
     bindr (image_check X (cfg_SRIOMLoaderImage spec)) (\<lambda>_.
     bindr (failif (isStrNotSpecfied (cfg_SideCarHookImg spec)) ''sidecar image not specified'' []) (\<lambda>_.
     bindr (image_check X (cfg_SideCarHookImg spec)) (\<lambda>_.
       case cfg_SFTPSever spec of
         None \<Rightarrow> errf ''file server address not specified'' []
       | Some svr \<Rightarrow> failif (\<not> IsHostPort svr) ''%v must be in format as addr/host:port'' [svr]))))))))"

section \<open>The objects of the API and the webhook of the configuration\<close>

record 'c KNLConfig =
  kc_Name :: string
  kc_Namespace :: string
  kc_Generation :: int
  kc_Spec :: "'c KNLConfigSpec"
  kc_ObservedGeneration :: "int option"

record 'c Lab =
  lab_Name :: string
  lab_Namespace :: string
  lab_UID :: string
  lab_Spec :: "'c LabSpec"

datatype 'c ApiObject = ObjLab "'c Lab" | ObjKNLConfig "'c KNLConfig" | ObjOther string

definition KNLConfig_Default :: "SRCard ApiObject \<Rightarrow> SRCard ApiObject result" where
  "KNLConfig_Default obj = (case obj of
      ObjKNLConfig knlconfig \<Rightarrow>
        Inr (ObjKNLConfig (knlconfig\<lparr>kc_Spec := fill_KNLConfig (kc_Spec knlconfig) DefKNLConfig\<rparr>))
    | _ \<Rightarrow> errf ''expected an KNLConfig object but got %T'' [])"

definition KNLConfig_ValidateCreate :: "Externs \<Rightarrow> 'c ApiObject \<Rightarrow> unit result" where
  "KNLConfig_ValidateCreate X obj = (case obj of
      ObjKNLConfig knlconfig \<Rightarrow> KNLConfig_Validate X (kc_Spec knlconfig)
    | _ \<Rightarrow> errf ''expected a KNLConfig object but got %T'' [])"

definition KNLConfig_ValidateUpdate :: "Externs \<Rightarrow> 'c ApiObject \<Rightarrow> 'c ApiObject \<Rightarrow> unit result" where
  "KNLConfig_ValidateUpdate X oldObj newObj = (case newObj of
      ObjKNLConfig knlconfig \<Rightarrow> KNLConfig_Validate X (kc_Spec knlconfig)
    | _ \<Rightarrow> errf ''expected a KNLConfig object for the newObj but got %T'' [])"

definition KNLConfig_ValidateDelete :: "'c ApiObject \<Rightarrow> unit result" where
  "KNLConfig_ValidateDelete obj = (case obj of
      ObjKNLConfig knlconfig \<Rightarrow> Inr ()
    | _ \<Rightarrow> errf ''expected a KNLConfig object but got %T'' [])"

section \<open>The process-wide configuration (cfg.go)\<close>

record 'c GConfig =
  gc_config :: "'c KNLConfigSpec"
  gc_generation :: int

definition newConfig :: "SRCard GConfig" where
  "newConfig = \<lparr>gc_config = DefKNLConfig, gc_generation = -1\<rparr>"

definition Config_Get :: "'c GConfig \<Rightarrow> 'c KNLConfigSpec" where
  "Config_Get cfg = gc_config cfg"

definition Config_Set :: "'c KNLConfigSpec \<Rightarrow> int \<Rightarrow> 'c GConfig \<Rightarrow> bool \<times> 'c GConfig" where
  "Config_Set new gen cfg =
     (if gc_generation cfg \<noteq> gen then (True, \<lparr>gc_config = new, gc_generation = gen\<rparr>) else (False, cfg))"

definition Config_GetGen :: "'c GConfig \<Rightarrow> int" where
  "Config_GetGen cfg = gc_generation cfg"

section \<open>The controller of the configuration\<close>

definition TARGET_KNLCONFIG_NAME :: string where
  "TARGET_KNLCONFIG_NAME = ''knlcfg''"

definition IgnoreNotFound :: "goerr \<Rightarrow> unit result" where
  "IgnoreNotFound e = (case e of NotFoundErr _ \<Rightarrow> Inr () | _ \<Rightarrow> Inl (Err e))"

text \<open>
  One reconciliation: the answer of the API server to the \<open>Get\<close> is an argument, the status
  update it sends is part of the result (what the update returns is ignored by the code).
\<close>

definition KNLConfig_Reconcile ::
  "string \<Rightarrow> string \<Rightarrow> string \<Rightarrow> (goerr + 'c KNLConfig) \<Rightarrow> 'c GConfig \<Rightarrow>
   unit result \<times> 'c KNLConfig option \<times> 'c GConfig" where
  "KNLConfig_Reconcile MYNAMESPACE name ns getResult g =
     (if name \<noteq> TARGET_KNLCONFIG_NAME \<or> ns \<noteq> MYNAMESPACE then (Inr (), None, g)
      else case getResult of
        Inl e \<Rightarrow> (IgnoreNotFound e, None, g)
      | Inr knlcfg \<Rightarrow>
          let knlcfg' = (if kc_ObservedGeneration knlcfg = None
                         then knlcfg\<lparr>kc_ObservedGeneration := Some (-1)\<rparr> else knlcfg);
              (changed, g') = Config_Set (kc_Spec knlcfg') (kc_Generation knlcfg') g
          in if changed then (Inr (), Some (knlcfg'\<lparr>kc_ObservedGeneration := Some (Config_GetGen g')\<rparr>), g')
             else (Inr (), None, g'))"

section \<open>Facts on validation\<close>

lemma image_check_ok: "ok (image_check X img) \<longleftrightarrow> (\<forall>i. img = Some i \<longrightarrow> reference_Parse X i = None)"
  by (auto simp: image_check_def ok_lib_check split: option.split)

lemma image_check_no_panic [simp]: "\<not> panics (image_check X img)"
  by (simp add: image_check_def panics_lib_check split: option.split)

lemma ok_seq: "ok (bindr m (\<lambda>_ :: unit. k)) \<longleftrightarrow> ok m \<and> ok k"
  by (cases m) auto

lemma KNLConfig_Validate_ok: "ok (KNLConfig_Validate X spec) \<longleftrightarrow>
    (\<exists>grp addr svr. cfg_VXLANGrpAddr spec = Some grp \<and> ParseAddr grp = Inr addr \<and> \<not> Is4 addr \<and> IsMulticast addr \<and>
       cfg_SFTPSever spec = Some svr \<and> IsHostPort svr) \<and>
    \<not> isStrNotSpecfied (cfg_PVCStorageClass spec) \<and>
    \<not> (isStrNotSpecfied (cfg_VXLANDefaultDev spec) \<and> entries (cfg_VxDevMap spec) = []) \<and>
    \<not> isStrNotSpecfied (cfg_SideCarHookImg spec) \<and>
    (\<forall>img\<in>{cfg_SRCPMLoaderImage spec, cfg_SRIOMLoaderImage spec, cfg_SideCarHookImg spec}.
       \<forall>i. img = Some i \<longrightarrow> reference_Parse X i = None)"
proof (cases "cfg_VXLANGrpAddr spec")
  case (Some grp)
  have grp: "ok (case ParseAddr grp of Inl _ \<Rightarrow> errf f args
       | Inr addr \<Rightarrow> failif (Is4 addr \<or> \<not> IsMulticast addr) f' args') \<longleftrightarrow>
     (\<exists>addr. ParseAddr grp = Inr addr \<and> \<not> Is4 addr \<and> IsMulticast addr)" for f args f' args'
    by (simp add: ok_failif split: sum.split)
  have svr: "ok (case cfg_SFTPSever spec of None \<Rightarrow> errf f args | Some svr \<Rightarrow> failif (\<not> IsHostPort svr) f' [svr])
      \<longleftrightarrow> (\<exists>svr. cfg_SFTPSever spec = Some svr \<and> IsHostPort svr)" for f args f'
    by (simp add: ok_failif split: option.split)
  show ?thesis
    unfolding KNLConfig_Validate_def Some deref_simps bindr_Inr ok_seq grp svr ok_failif image_check_ok
    by auto
qed (simp add: KNLConfig_Validate_def)

lemma KNLConfig_Validate_panics: "panics (KNLConfig_Validate X spec) \<longleftrightarrow> cfg_VXLANGrpAddr spec = None"
  by (cases "cfg_VXLANGrpAddr spec")
     (auto simp: KNLConfig_Validate_def panics_bindr panics_failif split: sum.split option.split)

text \<open>The default addresses pass their checks.\<close>

lemma parse_default_group:
  "ParseAddr ''ff18::100'' = Inr (V6 [255, 24, 0, 0, 0, 0, 0, 0, 0, 0, 0, 0, 0, 0, 1, 0] [])"
proof -
  have groups: "ip6_group ''ff18::100'' [] None = More ''100'' [255, 24] (Some 2)"
    "ip6_group ''100'' [255, 24] (Some 2) = Stop [255, 24, 1, 0] (Some 2)"
    by (simp_all add: ip6_group_def hex_val_def hex_number_def)
  then have "parseIPv6 ''ff18::100'' = Some (V6 [255, 24, 0, 0, 0, 0, 0, 0, 0, 0, 0, 0, 0, 0, 1, 0] [])"
    by (simp add: parseIPv6_def HasPrefix_def ip6_go_numeral) (simp add: numeral_eq_Suc)
  then show ?thesis by (simp add: ParseAddr_def)
qed

lemma default_group: "\<exists>addr. ParseAddr ''ff18::100'' = Inr addr \<and> \<not> Is4 addr \<and> IsMulticast addr"
  by (simp add: parse_default_group Is4_def IsMulticast_def Is4In6_def)

lemma default_server: "IsHostPort ''knl-sftp-service.knl-system.svc.cluster.local:22''"
proof -
  let ?host = "''knl-sftp-service.knl-system.svc.cluster.local''"
  have "SplitHostPort ''knl-sftp-service.knl-system.svc.cluster.local:22'' = Inr (?host, ''22'')"
    by (simp add: SplitHostPort_def cut_last_def has_byte_def)
  moreover have "IsValidFQDN ?host"
    unfolding IsValidFQDN_iff
    by (intro conjI exI [of _ "[''knl-sftp-service'', ''knl-system'', ''svc'', ''cluster'', ''local'']"])
       (simp_all add: good_label_def is_alnum_def)
  ultimately show ?thesis by (simp add: IsHostPort_def IsIPOrFQDN_def)
qed

lemma not_specified_Some: "s \<noteq> [] \<Longrightarrow> \<forall>c\<in>set s. \<not> is_space c \<Longrightarrow> \<not> isStrNotSpecfied (Some s)"
  by (simp add: isStrNotSpecfied_def TrimSpace_id)

lemma default_sidecar: "\<not> isStrNotSpecfied (Some ''ghcr.io/hujun-open/knl/knlsidecar:latest'')"
  by (rule not_specified_Some) (simp_all add: is_space_def)

section \<open>Facts on filling the nodes of a lab\<close>

lemma FillNilPointers_same: "field_name d = field_name s \<Longrightarrow>
    \<exists>r. FillNilPointers d s = Inr r \<and> field_name r = field_name d \<and> sys_type r = sys_type d"
  by (cases d; cases s) (simp_all add: FillNilPointers_def field_name_def sys_type_def)

lemma FieldByName_name: "FieldByName one name = Some s \<Longrightarrow> field_name s = name"
  by (auto simp: FieldByName_def find_Some_iff dest!: nth_mem one_fields_name)

lemma GetSystem_name: "GetSystem one = (Some s, name) \<Longrightarrow> name = field_name s"
  using one_fields_name [of s name one]
  by (cases "one_fields one") (auto simp: GetSystem_def)

lemma GetSystem_Assign_again: "GetSystem one = (Some s, name) \<Longrightarrow> field_name s' = field_name s \<Longrightarrow>
    GetSystem (AssignSystem s' one) = (Some s', name)"
  by (cases s; cases s')
     (auto simp: GetSystem_def AssignSystem_def one_fields_def field_name_def split: option.splits)

lemma load_node_ok:
  assumes "GetSystem one = (Some s, name)" and "cfg_DefaultNode def \<noteq> None"
  shows "\<exists>one' s'. load_node def (n, one) = Inr (n, one') \<and> GetSystem one' = (Some s', name) \<and> sys_type s' = sys_type s"
proof -
  obtain dv where dv: "cfg_DefaultNode def = Some dv" using assms(2) by auto
  have name: "name = field_name s" using GetSystem_name [OF assms(1)] .
  show ?thesis
  proof (cases "FieldByName dv name")
    case None
    with assms(1) dv show ?thesis by (auto simp: load_node_def)
  next
    case (Some ds)
    from FillNilPointers_same [of s ds] FieldByName_name [OF Some] name
    obtain r where "FillNilPointers s ds = Inr r" "field_name r = field_name s" "sys_type r = sys_type s" by auto
    with Some assms(1) dv GetSystem_Assign_again [OF assms(1), of r] show ?thesis
      by (auto simp: load_node_def)
  qed
qed

lemma LoadDef_ok:
  assumes "\<forall>one\<in>snd ` set nodes. one_fields one \<noteq> []" and "cfg_DefaultNode def \<noteq> None"
  shows "\<exists>nodes'. LoadDef nodes def = Inr nodes' \<and> map fst nodes' = map fst nodes \<and>
    list_all2 (\<lambda>(n, one) (n', one'). n' = n \<and> snd (GetSystem one') = snd (GetSystem one) \<and>
      map_option sys_type (fst (GetSystem one')) = map_option sys_type (fst (GetSystem one)) \<and>
      fst (GetSystem one') \<noteq> None) nodes nodes'"
  using assms(1)
proof (induction nodes)
  case (Cons x nodes)
  obtain n one where x: "x = (n, one)" by fastforce
  from Cons.prems x GetSystem_None [of one] obtain s name where s: "GetSystem one = (Some s, name)"
    by (metis (no_types) image_eqI list.set_intros(1) not_None_eq prod.collapse snd_conv)
  from load_node_ok [OF s assms(2), of n] Cons.IH Cons.prems s show ?case
    by (fastforce simp: x LoadDef_def)
qed (simp add: LoadDef_def)

lemma LoadDef_step: "LoadDef nodes def = Inr nodes' \<longleftrightarrow> list_all2 (\<lambda>x y. load_node def x = Inr y) nodes nodes'"
  by (simp add: LoadDef_def mapr_eq_ok)

section \<open>Facts on the controller\<close>

lemma Reconcile_other:
  "name \<noteq> TARGET_KNLCONFIG_NAME \<or> ns \<noteq> myns \<Longrightarrow> KNLConfig_Reconcile myns name ns r g = (Inr (), None, g)"
  by (auto simp: KNLConfig_Reconcile_def)

lemma Reconcile_target:
  "KNLConfig_Reconcile myns TARGET_KNLCONFIG_NAME myns (Inr k) g =
     (if gc_generation g = kc_Generation k then (Inr (), None, g)
      else (Inr (), Some (k\<lparr>kc_ObservedGeneration := Some (kc_Generation k)\<rparr>),
            \<lparr>gc_config = kc_Spec k, gc_generation = kc_Generation k\<rparr>))"
  by (simp add: KNLConfig_Reconcile_def Config_Set_def Config_GetGen_def Let_def)

lemma Reconcile_failed: "KNLConfig_Reconcile myns TARGET_KNLCONFIG_NAME myns (Inl e) g = (IgnoreNotFound e, None, g)"
  by (simp add: KNLConfig_Reconcile_def)

end
