(* ===== verification/LabValidate.thy ===== *)
theory LabValidate
  imports Config
begin

text \<open>
  Validation of a lab: links and static routes (link.go), nodes (node.go), and the validating
  webhook (lab_webhook.go). The loop over the nodes is stated once over the operations of the
  \<open>System\<close> interface it calls; the locale \<open>node_interface\<close> has what it needs of them.
\<close>

section \<open>Routes and links (link.go)\<close>

record Route =
  route_To :: prefix
  route_Via :: addr

definition parseRoute :: "string \<Rightarrow> Route result" where
  "parseRoute routeStr =
     (let strList = Split (ToLower routeStr) ''via''
      in if length strList \<noteq> 2 then errf ''%v is not valid route, expect <prefix> via <nexthop>'' [routeStr]
         else
           let dst = TrimSpace (strList ! 0); nexthop = TrimSpace (strList ! 1)
           in bindr (wrapf ''%v is not a valid ip prefix, %w'' [dst] (ParsePrefix dst)) (\<lambda>to.
              bindr (wrapf ''%v is not a valid address, %w'' [nexthop] (ParseAddr nexthop)) (\<lambda>via.
                if Is4 (fst to) \<noteq> Is4 via then
                  errf ''%v prefix and nexthop is not same address family '' strList
                else Inr \<lparr>route_To = to, route_Via = via\<rparr>)))"

definition mustParseRoute :: "string \<Rightarrow> Route result" where
  "mustParseRoute routeStr = (case parseRoute routeStr of Inl _ \<Rightarrow> Inl (Panic ''parseRoute'') | Inr r \<Rightarrow> Inr r)"

definition addr_check :: "string \<Rightarrow> unit result" where
  "addr_check prefixStr =
     bindr (wrapf ''%v is not a valid IP prefix: %w'' [prefixStr] (ParsePrefix prefixStr)) (\<lambda>prefix.
       failif (\<not> prefix_IsValid prefix \<or> IsMulticast (fst prefix)) ''%v is not valid unicast IP prefix'' [prefixStr])"

definition route_check :: "string \<Rightarrow> unit result" where
  "route_check routeStr =
     bindr (wrapf ''route %v is not valid, %w'' [routeStr] (parseRoute routeStr)) (\<lambda>_. Inr ())"

definition mac_check :: "string option \<Rightarrow> unit result" where
  "mac_check mac = (case mac of None \<Rightarrow> Inr ()
     | Some m \<Rightarrow> bindr (wrapf ''%v is not a valid mac address, %w'' [m] (ParseMAC m)) (\<lambda>_. Inr ()))"

definition connector_check :: "nat \<times> Connector \<Rightarrow> unit result" where
  "connector_check = (\<lambda>(i, c).
     bindr (deref (con_NodeName c)) (\<lambda>n.
     bindr (failif (n = []) ''connector %d node name can't be empty'' [show_nat i]) (\<lambda>_.
     bindr (each addr_check (con_Addrs c)) (\<lambda>_.
     bindr (each route_check (con_Routes c)) (\<lambda>_. mac_check (con_Mac c))))))"

definition Link_Validate :: "Link \<Rightarrow> unit result" where
  "Link_Validate link =
     (if length (link_Connectors link) < 2 then errf ''the minimal number of nodes per link is 2'' []
      else each connector_check (List.enumerate 0 (link_Connectors link)))"

section \<open>The lab (node.go)\<close>

text \<open>The body of the loop over the nodes, over the three operations it calls.\<close>

definition check_node ::
  "('one \<Rightarrow> unit result) \<Rightarrow> ('one \<Rightarrow> 's option \<times> string) \<Rightarrow> (Link gomap \<Rightarrow> string \<Rightarrow> 's \<Rightarrow> unit result) \<Rightarrow>
   Link gomap \<Rightarrow> string \<times> 'one \<Rightarrow> unit result" where
  "check_node one_validate get validate links = (\<lambda>(nodeName, one).
     bindr (wrapf ''Node %v is invalid, %w'' [nodeName] (one_validate one)) (\<lambda>_.
     bindr (deref (fst (get one))) (\<lambda>sys.
       wrapf ''node %v failed validation, %w'' [nodeName] (validate links nodeName sys))))"

definition LabSpec_Validate :: "Externs \<Rightarrow> SRCard LabSpec \<Rightarrow> unit result" where
  "LabSpec_Validate X spec =
     (if entries (lab_NodeList spec) = [] then errf ''no node is specified'' []
      else bindr (each (check_node OneOfSystem_validate GetSystem (System_Validate X) (entries (lab_LinkList spec)))
                   (entries (lab_NodeList spec)))
        (\<lambda>_. each (\<lambda>(linkName, link). wrapf ''link %v is invalid, %w'' [linkName] (Link_Validate link))
               (entries (lab_LinkList spec))))"

section \<open>The validating webhook (lab_webhook.go)\<close>

text \<open>
  \<open>reflect.DeepEqual\<close> on the specs: maps are equal when they have equal values at equal keys,
  and a nil map differs from an empty one.
\<close>

definition deq_map :: "('v \<Rightarrow> 'v \<Rightarrow> bool) \<Rightarrow> 'v gomap option \<Rightarrow> 'v gomap option \<Rightarrow> bool" where
  "deq_map eq m m' = (case (m, m') of
      (None, None) \<Rightarrow> True
    | (Some xs, Some ys) \<Rightarrow> length xs = length ys \<and>
        list_all (\<lambda>(k, v). case map_of ys k of None \<Rightarrow> False | Some v' \<Rightarrow> eq v v') xs
    | _ \<Rightarrow> False)"

definition deq_ptr :: "('v \<Rightarrow> 'v \<Rightarrow> bool) \<Rightarrow> 'v option \<Rightarrow> 'v option \<Rightarrow> bool" where
  "deq_ptr eq p q = (case (p, q) of (None, None) \<Rightarrow> True | (Some x, Some y) \<Rightarrow> eq x y | _ \<Rightarrow> False)"

definition deq_card :: "SRCard \<Rightarrow> SRCard \<Rightarrow> bool" where
  "deq_card c d \<longleftrightarrow> deq_map (=) (card_XIOM c) (card_XIOM d) \<and> c\<lparr>card_XIOM := None\<rparr> = d\<lparr>card_XIOM := None\<rparr>"

definition deq_chassis :: "SRCard SRChassis \<Rightarrow> SRCard SRChassis \<Rightarrow> bool" where
  "deq_chassis c d \<longleftrightarrow> deq_map deq_card (ch_Cards c) (ch_Cards d) \<and> c\<lparr>ch_Cards := None\<rparr> = d\<lparr>ch_Cards := None\<rparr>"

definition deq_srvm :: "SRCard SRVM \<Rightarrow> SRCard SRVM \<Rightarrow> bool" where
  "deq_srvm v w \<longleftrightarrow> deq_ptr deq_chassis (srvm_Chassis v) (srvm_Chassis w) \<and>
     v\<lparr>srvm_Chassis := None\<rparr> = w\<lparr>srvm_Chassis := None\<rparr>"

definition deq_srsim :: "SRCard SRSim \<Rightarrow> SRCard SRSim \<Rightarrow> bool" where
  "deq_srsim v w \<longleftrightarrow> deq_ptr deq_chassis (srsim_Chassis v) (srsim_Chassis w) \<and>
     v\<lparr>srsim_Chassis := None\<rparr> = w\<lparr>srsim_Chassis := None\<rparr>"

definition deq_one :: "SRCard OneOfSystem \<Rightarrow> SRCard OneOfSystem \<Rightarrow> bool" where
  "deq_one a b \<longleftrightarrow> deq_ptr deq_srvm (one_VSIM a) (one_VSIM b) \<and> deq_ptr deq_srvm (one_VSRI a) (one_VSRI b) \<and>
     deq_ptr deq_srvm (one_MAGC a) (one_MAGC b) \<and> one_VM a = one_VM b \<and> one_SRL a = one_SRL b \<and>
     one_Pod a = one_Pod b \<and> deq_ptr deq_srsim (one_SRSIM a) (one_SRSIM b)"

definition deq_labspec :: "SRCard LabSpec \<Rightarrow> SRCard LabSpec \<Rightarrow> bool" where
  "deq_labspec a b \<longleftrightarrow> deq_map deq_one (lab_NodeList a) (lab_NodeList b) \<and> deq_map (=) (lab_LinkList a) (lab_LinkList b)"

definition Lab_ValidateCreate :: "Externs \<Rightarrow> SRCard ApiObject \<Rightarrow> unit result" where
  "Lab_ValidateCreate X obj = (case obj of
      ObjLab lab \<Rightarrow> LabSpec_Validate X (lab_Spec lab)
    | _ \<Rightarrow> errf ''expected a Lab object but got %T'' [])"

definition Lab_ValidateUpdate :: "Externs \<Rightarrow> SRCard ApiObject \<Rightarrow> SRCard ApiObject \<Rightarrow> unit result" where
  "Lab_ValidateUpdate X oldObj newObj = (case newObj of
      ObjLab lab \<Rightarrow>
        (case oldObj of
           ObjLab old \<Rightarrow>
             if \<not> deq_labspec (lab_Spec lab) (lab_Spec old) then
               Inl (Err (ApiErr ''spec: updates to the spec are not allowed; delete and recreate the resource instead''))
             else LabSpec_Validate X (lab_Spec lab)
         | _ \<Rightarrow> errf ''expected a Lab object for the oldObj but got %T'' [])
    | _ \<Rightarrow> errf ''expected a Lab object for the newObj but got %T'' [])"

definition Lab_ValidateDelete :: "'c ApiObject \<Rightarrow> unit result" where
  "Lab_ValidateDelete obj = (case obj of
      ObjLab lab \<Rightarrow> Inr ()
    | _ \<Rightarrow> errf ''expected a Lab object but got %T'' [])"

section \<open>Facts on routes and links\<close>

lemma panics_sum [simp]: "panics (Inl (Err e))  = False" "panics (Inr x) = False"
  by (simp_all add: panics_def)

lemma ParseAddr_no_panic [simp]: "\<not> panics (ParseAddr s)"
  by (auto simp: ParseAddr_def Let_def split: list.split option.split)

lemma ParsePrefix_no_panic [simp]: "\<not> panics (ParsePrefix s)"
  by (simp add: ParsePrefix_def Let_def split: option.split sum.split prod.split)

lemma parseRoute_no_panic [simp]: "\<not> panics (parseRoute s)"
  by (simp add: parseRoute_def Let_def result_simps)

lemma parseRoute_ok: "parseRoute s = Inr r \<longleftrightarrow>
    (\<exists>a b. Split (ToLower s) ''via'' = [a, b] \<and> ParsePrefix (TrimSpace a) = Inr (route_To r) \<and>
       ParseAddr (TrimSpace b) = Inr (route_Via r) \<and> (Is4 (fst (route_To r)) \<longleftrightarrow> Is4 (route_Via r)))"
proof
  assume "parseRoute s = Inr r"
  then obtain a b where "Split (ToLower s) ''via'' = [a, b]"
    by (auto simp: parseRoute_def Let_def length_Suc_conv numeral_2_eq_2 split: if_split_asm)
  with \<open>parseRoute s = Inr r\<close> show "\<exists>a b. Split (ToLower s) ''via'' = [a, b] \<and> ParsePrefix (TrimSpace a) = Inr (route_To r) \<and>
       ParseAddr (TrimSpace b) = Inr (route_Via r) \<and> (Is4 (fst (route_To r)) \<longleftrightarrow> Is4 (route_Via r))"
    by (auto simp: parseRoute_def Let_def result_simps split: if_split_asm)
next
  assume "\<exists>a b. Split (ToLower s) ''via'' = [a, b] \<and> ParsePrefix (TrimSpace a) = Inr (route_To r) \<and>
       ParseAddr (TrimSpace b) = Inr (route_Via r) \<and> (Is4 (fst (route_To r)) \<longleftrightarrow> Is4 (route_Via r))"
  then show "parseRoute s = Inr r" by (auto simp: parseRoute_def)
qed

lemma addr_check_ok: "ok (addr_check s) \<longleftrightarrow> (\<exists>p. ParsePrefix s = Inr p \<and> \<not> IsMulticast (fst p))"
  by (auto simp: addr_check_def result_simps ok_failif dest: ParsePrefix_valid)

lemma route_check_ok: "ok (route_check s) \<longleftrightarrow> ok (parseRoute s)"
  by (auto simp: route_check_def result_simps ok_iff)

lemma mac_check_ok: "ok (mac_check m) \<longleftrightarrow> (\<forall>s. m = Some s \<longrightarrow> ok (ParseMAC s))"
  by (auto simp: mac_check_def result_simps ok_iff split: option.split)

definition good_connector :: "Connector \<Rightarrow> bool" where
  "good_connector c \<longleftrightarrow> (\<exists>n. con_NodeName c = Some n \<and> n \<noteq> []) \<and>
     (\<forall>s\<in>set (con_Addrs c). \<exists>p. ParsePrefix s = Inr p \<and> \<not> IsMulticast (fst p)) \<and>
     (\<forall>s\<in>set (con_Routes c). ok (parseRoute s)) \<and>
     (\<forall>s. con_Mac c = Some s \<longrightarrow> ok (ParseMAC s))"

lemma connector_check_ok: "ok (connector_check (i, c)) \<longleftrightarrow> good_connector c"
  unfolding connector_check_def good_connector_def
  by (cases "con_NodeName c")
     (simp_all add: ok_seq ok_each addr_check_ok route_check_ok mac_check_ok ok_failif)

lemma connector_check_no_panic: "con_NodeName c \<noteq> None \<Longrightarrow> \<not> panics (connector_check (i, c))"
proof -
  assume "con_NodeName c \<noteq> None"
  have "\<not> panics (each addr_check xs)" for xs
    by (auto simp: addr_check_def result_simps dest!: panics_each)
  moreover have "\<not> panics (each route_check xs)" for xs
    by (auto simp: route_check_def result_simps dest!: panics_each)
  moreover have "\<not> panics (mac_check m)" for m
    by (auto simp: mac_check_def result_simps split: option.split)
  ultimately show ?thesis
    using \<open>con_NodeName c \<noteq> None\<close> by (auto simp: connector_check_def result_simps)
qed

lemma Link_Validate_ok: "ok (Link_Validate link) \<longleftrightarrow>
    2 \<le> length (link_Connectors link) \<and> (\<forall>c\<in>set (link_Connectors link). good_connector c)"
proof -
  have "(\<forall>x\<in>set (List.enumerate n cs). ok (connector_check x)) \<longleftrightarrow> (\<forall>c\<in>set cs. good_connector c)" for n cs
    by (induction cs arbitrary: n) (simp_all add: connector_check_ok)
  then show ?thesis by (simp add: Link_Validate_def ok_each not_less)
qed

lemma Link_Validate_no_panic:
  assumes "\<forall>c\<in>set (link_Connectors link). con_NodeName c \<noteq> None"
  shows "\<not> panics (Link_Validate link)"
proof -
  have "\<not> panics (each connector_check (List.enumerate n cs))" if "\<forall>c\<in>set cs. con_NodeName c \<noteq> None" for n cs
    using that by (induction cs arbitrary: n) (simp_all add: panics_bindr connector_check_no_panic)
  with assms show ?thesis by (simp add: Link_Validate_def)
qed

lemma links_no_panic: "named links \<Longrightarrow>
    \<not> panics (each (\<lambda>(linkName, link). wrapf f [linkName] (Link_Validate link)) links)"
proof
  assume "named links" and "panics (each (\<lambda>(linkName, link). wrapf f [linkName] (Link_Validate link)) links)"
  then obtain l link where "(l, link) \<in> set links" "panics (Link_Validate link)"
    by (auto simp: panics_wrapf dest!: panics_each)
  with \<open>named links\<close> Link_Validate_no_panic [of link] show False by (auto simp: named_def)
qed

section \<open>The interface of a node, as validation uses it\<close>

locale node_interface =
  fixes one_validate :: "'one \<Rightarrow> unit result"
    and get :: "'one \<Rightarrow> 's option \<times> string"
    and validate :: "Link gomap \<Rightarrow> string \<Rightarrow> 's \<Rightarrow> unit result"
  assumes one_total: "\<not> panics (one_validate one)"
    and one_get: "ok (one_validate one) \<Longrightarrow> fst (get one) \<noteq> None"
    and validate_total: "named links \<Longrightarrow> \<not> panics (validate links n s)"
    and validate_order: "set links = set links' \<Longrightarrow> ok (validate links n s) \<longleftrightarrow> ok (validate links' n s)"
begin

lemma check_node_total: "named links \<Longrightarrow> \<not> panics (check_node one_validate get validate links x)"
  using one_get
  by (cases x) (auto simp: check_node_def panics_bindr panics_wrapf panics_deref one_total validate_total
      wrapf_eq_Inr ok_iff)

lemma check_node_ok: "ok (check_node one_validate get validate links (n, one)) \<longleftrightarrow>
    ok (one_validate one) \<and> (\<exists>s. fst (get one) = Some s \<and> ok (validate links n s))"
  by (auto simp: check_node_def ok_bindr ok_wrapf wrapf_eq_Inr deref_eq_Inr ok_unit [of "one_validate one"])

lemma nodes_total: "named links \<Longrightarrow> \<not> panics (each (check_node one_validate get validate links) nodes)"
  using check_node_total by (auto dest!: panics_each)

lemma nodes_order:
  assumes "set links = set links'" and "set nodes = set nodes'"
  shows "ok (each (check_node one_validate get validate links) nodes) \<longleftrightarrow>
    ok (each (check_node one_validate get validate links') nodes')"
proof -
  have "ok (check_node one_validate get validate links x) \<longleftrightarrow> ok (check_node one_validate get validate links' x)" for x
    by (cases x) (simp add: check_node_ok validate_order [OF assms(1)])
  with assms(2) show ?thesis by (simp add: ok_each)
qed

end

interpretation nodes: node_interface OneOfSystem_validate GetSystem "System_Validate X" for X
proof (unfold_locales, goal_cases)
  case (2 one)
  then show ?case using GetSystem_validated [of one] by auto
next
  case (4 links links' n s)
  then show ?case by (rule System_Validate_order)
qed (simp_all add: System_Validate_no_panic)

section \<open>Facts on the lab\<close>

lemma LabSpec_Validate_ok: "ok (LabSpec_Validate X spec) \<longleftrightarrow>
    entries (lab_NodeList spec) \<noteq> [] \<and>
    (\<forall>(n, one)\<in>set (entries (lab_NodeList spec)). \<exists>s name. one_fields one = [(s, name)] \<and>
       ok (System_Validate X (entries (lab_LinkList spec)) n s)) \<and>
    (\<forall>link\<in>snd ` set (entries (lab_LinkList spec)). ok (Link_Validate link))"
proof -
  have "ok (check_node OneOfSystem_validate GetSystem (System_Validate X) links (n, one)) \<longleftrightarrow>
      (\<exists>s name. one_fields one = [(s, name)] \<and> ok (System_Validate X links n s))" for links n one
    by (auto simp: nodes.check_node_ok OneOfSystem_validate_ok GetSystem_def)
  then have nodes: "ok (each (check_node OneOfSystem_validate GetSystem (System_Validate X) links) ns) \<longleftrightarrow>
      (\<forall>(n, one)\<in>set ns. \<exists>s name. one_fields one = [(s, name)] \<and> ok (System_Validate X links n s))" for links ns
    by (auto simp: ok_each)
  have links: "ok (each (\<lambda>(linkName, link). wrapf f [linkName] (Link_Validate link)) ls) \<longleftrightarrow>
      (\<forall>link\<in>snd ` set ls. ok (Link_Validate link))" for f ls
    by (auto simp: ok_each ok_wrapf)
  show ?thesis
    unfolding LabSpec_Validate_def using nodes links by (simp add: ok_seq)
qed

lemma LabSpec_Validate_no_panic: "named (entries (lab_LinkList spec)) \<Longrightarrow> \<not> panics (LabSpec_Validate X spec)"
  by (simp add: LabSpec_Validate_def panics_bindr nodes.nodes_total links_no_panic)

lemma LabSpec_Validate_order:
  assumes "set (entries (lab_NodeList a)) = set (entries (lab_NodeList b))"
    and "set (entries (lab_LinkList a)) = set (entries (lab_LinkList b))"
  shows "ok (LabSpec_Validate X a) \<longleftrightarrow> ok (LabSpec_Validate X b)"
proof -
  have "entries (lab_NodeList a) = [] \<longleftrightarrow> entries (lab_NodeList b) = []" using assms(1) by force
  then show ?thesis
    unfolding LabSpec_Validate_ok using assms System_Validate_order [OF assms(2)] by simp
qed

text \<open>The reflexivity of the comparison, for maps with distinct keys.\<close>

lemma deq_map_refl: "wfmap (entries m) \<Longrightarrow> (\<And>v. v \<in> snd ` set (entries m) \<Longrightarrow> eq v v) \<Longrightarrow> deq_map eq m m"
  by (force simp: deq_map_def list_all_iff wfmap_def split: option.split)

lemma deq_map_keys: "deq_map eq m m' \<Longrightarrow> (k, v) \<in> set (entries m) \<Longrightarrow> \<exists>v'. map_of (entries m') k = Some v' \<and> eq v v'"
  by (auto simp: deq_map_def list_all_iff split: option.splits)

end
