(* ===== verification/LabDefault.thy ===== *)
theory LabDefault
  imports LabValidate Mac
begin

text \<open>
  The defaulting webhook of a lab (\<open>LabCustomDefaulter.Default\<close>, lab_webhook.go), stage by
  stage. It works on nodes whose cards are addresses, over the store of cards the process
  holds: the cards of the lab being admitted and those of the global configuration, which
  \<open>LoadDef\<close> shares with the lab.

  Several stages visit the same map, each in an order of its own: \<open>ro i\<close> is the order of
  stage \<open>i\<close>, applied to the keys. Stage 1 inserts into the map it visits; whether an inserted
  entry is visited too makes no difference, since its own CPM name is already there.
\<close>

section \<open>Visiting a map\<close>

type_synonym order = "nat \<Rightarrow> string list \<Rightarrow> string list"

definition good_order :: "order \<Rightarrow> bool" where
  "good_order ro \<longleftrightarrow> (\<forall>i ks. mset (ro i ks) = mset ks)"

definition visit :: "(string list \<Rightarrow> string list) \<Rightarrow> 'v gomap \<Rightarrow> 'v gomap" where
  "visit r m = map (\<lambda>k. (k, the (map_of m k))) (r (map fst m))"

section \<open>The stages\<close>

record dstate =
  ds_nodes :: "nat OneOfSystem gomap"
  ds_links :: "Link gomap"
  ds_cards :: cards
  ds_off :: int

definition add_node :: "string \<Rightarrow> 'c OneOfSystem gomap \<Rightarrow> 'c OneOfSystem gomap" where
  "add_node n nodes = (if map_of nodes n = None then AList.update n new_OneOfSystem nodes else nodes)"

text \<open>\<open>link.Connectors[i]\<close> updated in place.\<close>

definition set_connector :: "string \<Rightarrow> nat \<Rightarrow> (Connector \<Rightarrow> Connector) \<Rightarrow> Link gomap \<Rightarrow> Link gomap" where
  "set_connector linkName i f links =
     (case map_of links linkName of None \<Rightarrow> links
      | Some link \<Rightarrow> AList.update linkName
          (link\<lparr>link_Connectors := (link_Connectors link)[i := f (link_Connectors link ! i)]\<rparr>) links)"

text \<open>Stage 0: a node for every connector, a MAC address for every connector (lines 76-86).\<close>

definition mac_connector :: "string \<Rightarrow> nat \<times> Connector \<Rightarrow> dstate \<Rightarrow> dstate result" where
  "mac_connector linkName = (\<lambda>(i, c) s.
     let off = ds_off s + 1
     in bindr (deref (con_NodeName c)) (\<lambda>n.
        bindr (DeriveMac BaseMACAddr off) (\<lambda>derivedMAC.
          Inr (s\<lparr>ds_off := off, ds_nodes := add_node n (ds_nodes s),
                 ds_links := set_connector linkName i
                   (\<lambda>cc. cc\<lparr>con_Mac := SetDefaultGeneric (con_Mac cc) (mac_String derivedMAC)\<rparr>) (ds_links s)\<rparr>))))"

definition stage_links :: "order \<Rightarrow> dstate \<Rightarrow> dstate result" where
  "stage_links ro s =
     foldm (\<lambda>(linkName, link). foldm (mac_connector linkName) (List.enumerate 0 (link_Connectors link)))
       (visit (ro 0) (ds_links s)) s"

text \<open>Stage 1: the missing CPM of a vSIM or MAG-c (lines 88-99).\<close>

definition cpm_node :: "string \<Rightarrow> 'c OneOfSystem gomap \<Rightarrow> 'c OneOfSystem gomap" where
  "cpm_node nodeName nodes =
     (case ParseSRVMName nodeName of
        Inl _ \<Rightarrow> nodes
      | Inr (vmt, vmid, _) \<Rightarrow>
          if vmt = SRVMVSIM \<or> vmt = SRVMMAGC then add_node (vmt @ ''-'' @ Itoa vmid @ ''-a'') nodes
          else nodes)"

definition stage_cpm :: "order \<Rightarrow> dstate \<Rightarrow> dstate" where
  "stage_cpm ro s = s\<lparr>ds_nodes := fold cpm_node (ro 1 (map fst (ds_nodes s))) (ds_nodes s)\<rparr>"

text \<open>Stage 2: a node without a type gets the type of its name (lines 103-113).\<close>

definition type_node :: "string \<times> 'c OneOfSystem \<Rightarrow> 'c OneOfSystem gomap \<Rightarrow> 'c OneOfSystem gomap result" where
  "type_node = (\<lambda>(nodeName, one) nodes.
     case fst (GetSystem one) of
       Some _ \<Rightarrow> Inr nodes
     | None \<Rightarrow>
         (case GetNewSystemViaName nodeName of
            None \<Rightarrow> errf ''failed to derived node type from name %v'' [nodeName]
          | Some sys \<Rightarrow> Inr (AList.update nodeName (AssignSystem sys one) nodes)))"

definition stage_types :: "order \<Rightarrow> dstate \<Rightarrow> dstate result" where
  "stage_types ro s =
     bindr (foldm type_node (visit (ro 2) (ds_nodes s)) (ds_nodes s)) (\<lambda>nodes. Inr (s\<lparr>ds_nodes := nodes\<rparr>))"

text \<open>Stage 3: the defaults of the configuration (lines 115-120).\<close>

definition stage_load :: "order \<Rightarrow> nat KNLConfigSpec \<Rightarrow> dstate \<Rightarrow> dstate result" where
  "stage_load ro gconf s =
     bindr (LoadDef (visit (ro 3) (ds_nodes s)) gconf) (\<lambda>nodes. Inr (s\<lparr>ds_nodes := nodes\<rparr>))"

text \<open>Stage 4: the defaults of each node (lines 123-129).\<close>

definition fill_node ::
  "(string \<Rightarrow> string \<Rightarrow> string) \<Rightarrow> string \<times> nat OneOfSystem \<Rightarrow> dstate \<Rightarrow> dstate result" where
  "fill_node ptr = (\<lambda>(nodeName, one) s.
     bindr (deref (fst (GetSystem one))) (\<lambda>sys.
     bindr (System_FillDefaultVal ptr sys (ds_cards s)) (\<lambda>(sys', h').
       Inr (s\<lparr>ds_nodes := AList.update nodeName (AssignSystem sys' one) (ds_nodes s), ds_cards := h'\<rparr>))))"

definition stage_fill :: "order \<Rightarrow> (string \<Rightarrow> string \<Rightarrow> string) \<Rightarrow> dstate \<Rightarrow> dstate result" where
  "stage_fill ro ptr s = foldm (fill_node ptr) (visit (ro 4) (ds_nodes s)) s"

text \<open>Stage 5: the port of an SR VM connector (lines 131-145).\<close>

definition default_port :: "dstate \<Rightarrow> string \<Rightarrow> string result" where
  "default_port s n =
     bindr (deref (map_of (ds_nodes s) n)) (\<lambda>one.
     bindr (GetSRVMviaSys n (fst (GetSystem one))) (\<lambda>srvm.
     bindr (deref srvm) (\<lambda>srvm.
     bindr (deref (srvm_Chassis srvm)) (\<lambda>ch. GetDefaultMDASlot (map_chassis (ds_cards s) ch)))))"

definition port_connector :: "string \<Rightarrow> nat \<times> Connector \<Rightarrow> dstate \<Rightarrow> dstate result" where
  "port_connector linkName = (\<lambda>(cid, c) s.
     bindr (deref (con_NodeName c)) (\<lambda>n.
       if \<not> IsSRVM (GetNodeTypeViaName n) \<or> con_PortId c \<noteq> None then Inr s
       else bindr (default_port s n) (\<lambda>slot.
         Inr (s\<lparr>ds_links := set_connector linkName cid
                   (\<lambda>cc. cc\<lparr>con_PortId := SetDefaultGeneric (con_PortId cc) slot\<rparr>) (ds_links s)\<rparr>))))"

definition stage_ports :: "order \<Rightarrow> dstate \<Rightarrow> dstate result" where
  "stage_ports ro s =
     foldm (\<lambda>(linkName, link). foldm (port_connector linkName) (List.enumerate 0 (link_Connectors link)))
       (visit (ro 5) (ds_links s)) s"

text \<open>Stage 6: the base MAC of each SR chassis, by the rank of the node name (lines 147-159).\<close>

definition upd_chassis :: "('c SRChassis \<Rightarrow> 'c SRChassis) \<Rightarrow> 'c System \<Rightarrow> 'c System" where
  "upd_chassis f s = (case s of
      SysVSIM v \<Rightarrow> SysVSIM (v\<lparr>srvm_Chassis := map_option f (srvm_Chassis v)\<rparr>)
    | SysVSRI v \<Rightarrow> SysVSRI (v\<lparr>srvm_Chassis := map_option f (srvm_Chassis v)\<rparr>)
    | SysMAGC v \<Rightarrow> SysMAGC (v\<lparr>srvm_Chassis := map_option f (srvm_Chassis v)\<rparr>)
    | SysSRSIM v \<Rightarrow> SysSRSIM (v\<lparr>srsim_Chassis := map_option f (srsim_Chassis v)\<rparr>)
    | SysVM v \<Rightarrow> SysVM v | SysSRL v \<Rightarrow> SysSRL v | SysPod v \<Rightarrow> SysPod v)"

definition give_mac ::
  "nat \<Rightarrow> string \<Rightarrow> nat OneOfSystem \<Rightarrow> nat SRChassis option \<Rightarrow> nat OneOfSystem gomap \<Rightarrow> nat OneOfSystem gomap result" where
  "give_mac i nodeName one ch nodes =
     (case ch of
        None \<Rightarrow> Inr nodes
      | Some chassis \<Rightarrow>
          if ch_ChassisMAC chassis \<noteq> None then Inr nodes
          else bindr (DeriveChassisMac (int i)) (\<lambda>mac.
               bindr (deref (fst (GetSystem one))) (\<lambda>sys.
                 Inr (AList.update nodeName
                   (AssignSystem (upd_chassis (\<lambda>c. c\<lparr>ch_ChassisMAC := Some (mac_String mac)\<rparr>) sys) one)
                   nodes))))"

definition chassis_mac :: "nat \<times> string \<Rightarrow> nat OneOfSystem gomap \<Rightarrow> nat OneOfSystem gomap result" where
  "chassis_mac = (\<lambda>(i, nodeName) nodes.
     if \<not> IsSRType (GetNodeTypeViaName nodeName) then Inr nodes
     else bindr (deref (map_of nodes nodeName)) (\<lambda>one.
          bindr (GetChassisFromSys nodeName (fst (GetSystem one))) (\<lambda>ch. give_mac i nodeName one ch nodes)))"

definition stage_macs :: "dstate \<Rightarrow> dstate result" where
  "stage_macs s =
     bindr (foldm chassis_mac (List.enumerate 0 (GetSortedKeySlice (ds_nodes s))) (ds_nodes s))
       (\<lambda>nodes. Inr (s\<lparr>ds_nodes := nodes\<rparr>))"

section \<open>The webhook\<close>

definition default_stages ::
  "order \<Rightarrow> (string \<Rightarrow> string \<Rightarrow> string) \<Rightarrow> nat KNLConfigSpec \<Rightarrow> dstate \<Rightarrow> dstate result" where
  "default_stages ro ptr gconf s =
     bindr (stage_links ro s) (\<lambda>s.
     bindr (stage_types ro (stage_cpm ro s)) (\<lambda>s.
     bindr (stage_load ro gconf s) (\<lambda>s.
     bindr (stage_fill ro ptr s) (\<lambda>s.
     bindr (stage_ports ro s) stage_macs))))"

definition Lab_Default ::
  "order \<Rightarrow> (string \<Rightarrow> string \<Rightarrow> string) \<Rightarrow> nat KNLConfigSpec \<Rightarrow> nat ApiObject \<Rightarrow> cards \<Rightarrow>
   (nat ApiObject \<times> cards) result" where
  "Lab_Default ro ptr gconf obj h = (case obj of
      ObjLab lab \<Rightarrow>
        let spec = lab_Spec lab;
            s0 = \<lparr>ds_nodes = entries (lab_NodeList spec), ds_links = entries (lab_LinkList spec),
                  ds_cards = h, ds_off = 0\<rparr>
        in bindr (default_stages ro ptr gconf s0) (\<lambda>s.
             Inr (ObjLab (lab\<lparr>lab_Spec :=
                    \<lparr>lab_NodeList = Some (ds_nodes s),
                     lab_LinkList = map_option (\<lambda>_. ds_links s) (lab_LinkList spec)\<rparr>\<rparr>), ds_cards s))
    | _ \<Rightarrow> errf ''expected an Lab object but got %T'' [])"

end
