(* ===== verification/DefaultMacs.thy ===== *)
theory DefaultMacs
  imports LabDefault
begin

text \<open>
  Facts on the MAC addresses the webhook gives out: stage 0 computes one address per connector
  from a running offset; offsets of different connectors differ, whatever the visiting order;
  the later stages leave addresses alone.
\<close>

section \<open>Association lists\<close>

lemma update_twice [simp]: "AList.update k v (AList.update k w m) = AList.update k v m"
  by (induction m) auto

lemma map_of_visit: "mset (r (map fst m)) = mset (map fst m) \<Longrightarrow> map_of (visit r m) k = map_of m k"
proof -
  assume "mset (r (map fst m)) = mset (map fst m)"
  then have "set (r (map fst m)) = fst ` set m" by (metis set_map set_mset_mset)
  moreover have "map_of (map (\<lambda>k. (k, f k)) ks) k = (if k \<in> set ks then Some (f k) else None)" for f :: "string \<Rightarrow> 'a" and ks
    by (induction ks) auto
  ultimately show ?thesis
    by (auto simp: visit_def map_of_eq_None_iff split: if_split_asm)
       (metis map_of_eq_None_iff option.collapse option.exhaust_sel)
qed

lemma fst_visit [simp]: "map fst (visit r m) = r (map fst m)"
  by (simp add: visit_def comp_def)

lemma visit_mem:
  assumes "mset (r (map fst m)) = mset (map fst m)" and "(k, v) \<in> set (visit r m)"
  shows "map_of m k = Some v"
proof -
  have k: "k \<in> set (r (map fst m))" "v = the (map_of m k)" using assms(2) by (auto simp: visit_def)
  then have "k \<in> fst ` set m" using assms(1) by (metis set_map set_mset_mset)
  then obtain w where "map_of m k = Some w" by (metis map_of_eq_None_iff option.exhaust)
  with k show ?thesis by simp
qed

section \<open>What stage 0 computes\<close>

definition mac_at :: "int \<Rightarrow> string" where
  "mac_at off = (case DeriveMac BaseMACAddr off of Inr hw \<Rightarrow> mac_String hw | Inl _ \<Rightarrow> [])"

fun with_macs :: "int \<Rightarrow> Connector list \<Rightarrow> Connector list" where
  "with_macs off [] = []"
| "with_macs off (c # cs) =
     c\<lparr>con_Mac := SetDefaultGeneric (con_Mac c) (mac_at (off + 1))\<rparr> # with_macs (off + 1) cs"

fun mac_links :: "int \<Rightarrow> Link gomap \<Rightarrow> Link gomap \<Rightarrow> Link gomap" where
  "mac_links off [] ls = ls"
| "mac_links off ((ln, link) # L) ls =
     mac_links (off + int (length (link_Connectors link))) L
       (AList.update ln (link\<lparr>link_Connectors := with_macs off (link_Connectors link)\<rparr>) ls)"

definition connector_names :: "Connector list \<Rightarrow> string list" where
  "connector_names cs = map (\<lambda>c. the (con_NodeName c)) cs"

lemma DeriveMac_at: "\<exists>hw. DeriveMac BaseMACAddr off = Inr hw \<and> mac_at off = mac_String hw \<and> length hw = 6"
  using DeriveMac_eq [of BaseMACAddr off] by (auto simp: mac_at_def)

lemma set_connector_at:
  "map_of links ln = Some link \<Longrightarrow> link_Connectors link = pre @ c # cs \<Longrightarrow>
   set_connector ln (length pre) f links = AList.update ln (link\<lparr>link_Connectors := pre @ f c # cs\<rparr>) links"
  by (simp add: set_connector_def)

lemma inner_macs:
  assumes "\<forall>c\<in>set cs. con_NodeName c \<noteq> None" and "map_of (ds_links s) ln = Some link"
    and "link_Connectors link = pre @ cs"
  shows "foldm (mac_connector ln) (List.enumerate (length pre) cs) s =
    Inr (s\<lparr>ds_off := ds_off s + int (length cs),
           ds_nodes := fold add_node (connector_names cs) (ds_nodes s),
           ds_links := AList.update ln (link\<lparr>link_Connectors := pre @ with_macs (ds_off s) cs\<rparr>) (ds_links s)\<rparr>)"
  using assms
proof (induction cs arbitrary: s link pre)
  case Nil
  then have "link\<lparr>link_Connectors := pre\<rparr> = link" by simp
  with Nil show ?case by (simp add: connector_names_def update_same)
next
  case (Cons c cs)
  obtain n where n: "con_NodeName c = Some n" using Cons.prems(1) by auto
  obtain hw where hw: "DeriveMac BaseMACAddr (ds_off s + 1) = Inr hw" "mac_at (ds_off s + 1) = mac_String hw"
    using DeriveMac_at by blast
  let ?c = "c\<lparr>con_Mac := SetDefaultGeneric (con_Mac c) (mac_at (ds_off s + 1))\<rparr>"
  let ?link = "link\<lparr>link_Connectors := pre @ ?c # cs\<rparr>"
  define s1 where "s1 = s\<lparr>ds_off := ds_off s + 1, ds_nodes := add_node n (ds_nodes s),
      ds_links := AList.update ln ?link (ds_links s)\<rparr>"
  have step: "mac_connector ln (length pre, c) s = Inr s1"
    using n hw set_connector_at [OF Cons.prems(2,3)]
    by (simp add: mac_connector_def s1_def)
  have "foldm (mac_connector ln) (List.enumerate (length (pre @ [?c])) cs) s1 =
    Inr (s1\<lparr>ds_off := ds_off s1 + int (length cs),
           ds_nodes := fold add_node (connector_names cs) (ds_nodes s1),
           ds_links := AList.update ln (?link\<lparr>link_Connectors := (pre @ [?c]) @ with_macs (ds_off s1) cs\<rparr>) (ds_links s1)\<rparr>)"
    using Cons.prems(1) by (intro Cons.IH) (auto simp: s1_def gomap_simps)
  then show ?case
    using step n by (simp add: s1_def connector_names_def add.assoc add.commute)
qed

lemma outer_macs:
  assumes "distinct (map fst L)" and "\<forall>(ln, link)\<in>set L. map_of (ds_links s) ln = Some link" and "named L"
  shows "foldm (\<lambda>(linkName, link). foldm (mac_connector linkName) (List.enumerate 0 (link_Connectors link))) L s =
    Inr (s\<lparr>ds_off := ds_off s + int (sum_list (map (\<lambda>(_, link). length (link_Connectors link)) L)),
           ds_nodes := fold add_node (concat (map (\<lambda>(_, link). connector_names (link_Connectors link)) L)) (ds_nodes s),
           ds_links := mac_links (ds_off s) L (ds_links s)\<rparr>)"
  using assms
proof (induction L arbitrary: s)
  case (Cons x L)
  obtain ln link where x: "x = (ln, link)" by fastforce
  let ?cs = "link_Connectors link"
  define s1 where "s1 = s\<lparr>ds_off := ds_off s + int (length ?cs), ds_nodes := fold add_node (connector_names ?cs) (ds_nodes s),
      ds_links := AList.update ln (link\<lparr>link_Connectors := with_macs (ds_off s) ?cs\<rparr>) (ds_links s)\<rparr>"
  have step: "foldm (mac_connector ln) (List.enumerate 0 ?cs) s = Inr s1"
    using inner_macs [of ?cs s ln link "[]"] Cons.prems(2,3) x by (simp add: s1_def named_def)
  have "foldm (\<lambda>(linkName, link). foldm (mac_connector linkName) (List.enumerate 0 (link_Connectors link))) L s1 =
    Inr (s1\<lparr>ds_off := ds_off s1 + int (sum_list (map (\<lambda>(_, link). length (link_Connectors link)) L)),
           ds_nodes := fold add_node (concat (map (\<lambda>(_, link). connector_names (link_Connectors link)) L)) (ds_nodes s1),
           ds_links := mac_links (ds_off s1) L (ds_links s1)\<rparr>)"
  proof (rule Cons.IH)
    show "distinct (map fst L)" "named L" using Cons.prems x by (simp_all add: named_def)
    show "\<forall>(k, l)\<in>set L. map_of (ds_links s1) k = Some l"
    proof
      fix y assume y: "y \<in> set L"
      then have "fst y \<noteq> ln" using Cons.prems(1) x by force
      moreover have "map_of (ds_links s) (fst y) = Some (snd y)" using Cons.prems(2) y by auto
      ultimately show "case y of (k, l) \<Rightarrow> map_of (ds_links s1) k = Some l"
        by (cases y) (simp add: s1_def gomap_simps)
    qed
  qed
  then show ?case using step by (simp add: x s1_def add.assoc)
qed simp

section \<open>Offsets\<close>

fun start_off :: "int \<Rightarrow> Link gomap \<Rightarrow> string \<Rightarrow> int" where
  "start_off off [] ln = off"
| "start_off off ((k, link) # L) ln =
     (if k = ln then off else start_off (off + int (length (link_Connectors link))) L ln)"

definition total_connectors :: "Link gomap \<Rightarrow> nat" where
  "total_connectors L = sum_list (map (\<lambda>(_, link). length (link_Connectors link)) L)"

lemma start_off_ge: "off \<le> start_off off L ln"
proof (induction L arbitrary: off)
  case (Cons x L)
  obtain k link where x: "x = (k, link)" by fastforce
  from Cons [of "off + int (length (link_Connectors link))"] show ?case unfolding x by simp
qed simp

lemma start_off_bound: "map_of L ln = Some link \<Longrightarrow>
    start_off off L ln + int (length (link_Connectors link)) \<le> off + int (total_connectors L)"
proof (induction L arbitrary: off)
  case (Cons x L)
  obtain k l where x: "x = (k, l)" by fastforce
  show ?case
  proof (cases "k = ln")
    case True
    with Cons.prems x show ?thesis by (simp add: total_connectors_def)
  next
    case False
    with Cons.prems x have "map_of L ln = Some link" by simp
    from Cons.IH [OF this, of "off + int (length (link_Connectors l))"] False x
    show ?thesis by (simp add: total_connectors_def)
  qed
qed simp

lemma start_off_disjoint:
  assumes "map_of L ln = Some link" "map_of L ln' = Some link'" "ln \<noteq> ln'"
  shows "start_off off L ln + int (length (link_Connectors link)) \<le> start_off off L ln' \<or>
    start_off off L ln' + int (length (link_Connectors link')) \<le> start_off off L ln"
  using assms(1,2)
proof (induction L arbitrary: off)
  case (Cons x L)
  obtain k l where x: "x = (k, l)" by fastforce
  show ?case
    using Cons.prems Cons.IH x assms(3) start_off_ge [of "off + int (length (link_Connectors l))" L]
    by (auto split: if_split_asm)
qed simp

lemma length_with_macs [simp]: "length (with_macs off cs) = length cs"
  by (induction off cs rule: with_macs.induct) auto

lemma nth_with_macs: "i < length cs \<Longrightarrow> with_macs off cs ! i =
    (cs ! i)\<lparr>con_Mac := SetDefaultGeneric (con_Mac (cs ! i)) (mac_at (off + int i + 1))\<rparr>"
proof (induction off cs arbitrary: i rule: with_macs.induct)
  case (2 off c cs)
  then show ?case by (cases i) (auto simp: algebra_simps)
qed simp

lemma map_of_mac_links: "distinct (map fst L) \<Longrightarrow> map_of (mac_links off L ls) ln =
    (case map_of L ln of None \<Rightarrow> map_of ls ln
     | Some link \<Rightarrow> Some (link\<lparr>link_Connectors := with_macs (start_off off L ln) (link_Connectors link)\<rparr>))"
proof (induction off L ls rule: mac_links.induct)
  case (2 off k link L ls)
  then have "map_of L k = None" by (simp add: map_of_eq_None_iff)
  with 2 show ?case
    by (cases "ln = k"; cases "map_of L ln") (simp_all add: map_of_update)
qed simp

lemma mac_links_keys: "fst ` set L \<subseteq> fst ` set ls \<Longrightarrow> map fst (mac_links off L ls) = map fst ls"
proof (induction off L ls rule: mac_links.induct)
  case (2 off ln link L ls)
  have "map fst (AList.update ln v ls) = map fst ls" for v
    using 2(2) by (simp add: update_keys)
  with 2 show ?case by (simp add: keys_update subset_insertI2)
qed simp

section \<open>Later stages leave the addresses alone\<close>

definition port_ext :: "Connector \<Rightarrow> Connector \<Rightarrow> bool" where
  "port_ext c c' \<longleftrightarrow> (\<exists>p. c' = c\<lparr>con_PortId := p\<rparr> \<and> (con_PortId c \<noteq> None \<longrightarrow> p = con_PortId c))"

lemma port_ext_mac: "port_ext c c' \<Longrightarrow> con_Mac c' = con_Mac c"
  by (auto simp: port_ext_def)

definition ports_only :: "Link gomap \<Rightarrow> Link gomap \<Rightarrow> bool" where
  "ports_only ls ls' \<longleftrightarrow> map fst ls' = map fst ls \<and>
     (\<forall>ln link. map_of ls ln = Some link \<longrightarrow>
        (\<exists>link'. map_of ls' ln = Some link' \<and> list_all2 port_ext (link_Connectors link) (link_Connectors link')))"

lemma ports_onlyD: "ports_only ls ls' \<Longrightarrow> map_of ls ln = Some link \<Longrightarrow>
    \<exists>link'. map_of ls' ln = Some link' \<and> list_all2 port_ext (link_Connectors link) (link_Connectors link')"
  unfolding ports_only_def by blast

lemma port_ext_refl [simp]: "port_ext c c"
  unfolding port_ext_def by (intro exI [of _ "con_PortId c"]) simp

lemma port_ext_trans: "port_ext a b \<Longrightarrow> port_ext b c \<Longrightarrow> port_ext a c"
proof -
  assume "port_ext a b" "port_ext b c"
  then obtain p q where p: "b = a\<lparr>con_PortId := p\<rparr>" "con_PortId a \<noteq> None \<longrightarrow> p = con_PortId a"
    and q: "c = b\<lparr>con_PortId := q\<rparr>" "con_PortId b \<noteq> None \<longrightarrow> q = con_PortId b"
    unfolding port_ext_def by blast
  have "c = a\<lparr>con_PortId := q\<rparr>" using p(1) q(1) by simp
  moreover have "con_PortId a \<noteq> None \<longrightarrow> q = con_PortId a" using p q(2) by auto
  ultimately show ?thesis unfolding port_ext_def by blast
qed

lemma ports_only_refl [simp]: "ports_only ls ls"
  by (simp add: ports_only_def list_all2_refl)

lemma ports_only_trans: "ports_only a b \<Longrightarrow> ports_only b c \<Longrightarrow> ports_only a c"
proof -
  assume ab: "ports_only a b" and bc: "ports_only b c"
  have "\<exists>link'. map_of c ln = Some link' \<and> list_all2 port_ext (link_Connectors link) (link_Connectors link')"
    if l: "map_of a ln = Some link" for ln link
  proof -
    from ab l obtain lb where lb: "map_of b ln = Some lb" "list_all2 port_ext (link_Connectors link) (link_Connectors lb)"
      by (auto simp: ports_only_def)
    from bc lb(1) obtain lc where lc: "map_of c ln = Some lc" "list_all2 port_ext (link_Connectors lb) (link_Connectors lc)"
      by (auto simp: ports_only_def)
    have "list_all2 port_ext (link_Connectors link) (link_Connectors lc)"
      by (rule list_all2_trans [OF _ lb(2) lc(2)]) (rule port_ext_trans)
    with lc(1) show ?thesis by blast
  qed
  with ab bc show ?thesis by (simp add: ports_only_def)
qed

lemma ports_only_step:
  "ports_only ls (set_connector ln i (\<lambda>cc. cc\<lparr>con_PortId := SetDefaultGeneric (con_PortId cc) slot\<rparr>) ls)"
proof (cases "map_of ls ln")
  case None
  then show ?thesis by (simp add: set_connector_def)
next
  case (Some link)
  let ?f = "\<lambda>cc. cc\<lparr>con_PortId := SetDefaultGeneric (con_PortId cc) slot\<rparr>"
  let ?cs = "link_Connectors link"
  have ext: "port_ext c (?f c)" for c 
    unfolding port_ext_def by (intro exI conjI refl) (auto simp: SetDefaultGeneric_def)
  have "list_all2 port_ext ?cs (?cs[i := ?f (?cs ! i)])"
  proof (rule list_all2_all_nthI)
    fix j assume "j < length ?cs"
    then show "port_ext (?cs ! j) (?cs[i := ?f (?cs ! i)] ! j)" using ext by (cases "i = j") simp_all
  qed simp
  moreover have "ln \<in> set (map fst ls)" using Some by (force dest: map_of_SomeD)
  ultimately show ?thesis
    using Some by (simp add: ports_only_def set_connector_def update_keys map_of_update list_all2_refl)
qed

lemma stage_links_cards:
  assumes "stage_links ro s = Inr s1"
  shows "ds_cards s1 = ds_cards s"
proof -
  have inner: "ds_cards u = ds_cards s" if "foldm (mac_connector ln) cs t = Inr u" "ds_cards t = ds_cards s" for ln cs t u
    using that(1) by (rule foldm_invariant [where P = "\<lambda>t. ds_cards t = ds_cards s"])
      (use that in \<open>auto simp: mac_connector_def Let_def result_simps split: prod.splits\<close>)
  show ?thesis using assms unfolding stage_links_def
    by (rule foldm_invariant [where P = "\<lambda>t. ds_cards t = ds_cards s"]) (auto dest: inner)
qed

lemma stage_ports_only:
  assumes "stage_ports ro s = Inr s'"
  shows "ports_only (ds_links s) (ds_links s') \<and> ds_nodes s' = ds_nodes s \<and> ds_cards s' = ds_cards s"
  using assms unfolding stage_ports_def
proof (rule foldm_invariant)
  fix x u v
  assume inv: "ports_only (ds_links s) (ds_links u) \<and> ds_nodes u = ds_nodes s \<and> ds_cards u = ds_cards s"
    and "(case x of (linkName, link) \<Rightarrow> foldm (port_connector linkName) (List.enumerate 0 (link_Connectors link))) u = Inr v"
  then have "foldm (port_connector (fst x)) (List.enumerate 0 (link_Connectors (snd x))) u = Inr v"
    by (simp add: case_prod_beta)
  then show "ports_only (ds_links s) (ds_links v) \<and> ds_nodes v = ds_nodes s \<and> ds_cards v = ds_cards s"
  proof (rule foldm_invariant)
    fix y a b
    assume "ports_only (ds_links s) (ds_links a) \<and> ds_nodes a = ds_nodes s \<and> ds_cards a = ds_cards s"
      and "port_connector (fst x) y a = Inr b"
    then show "ports_only (ds_links s) (ds_links b) \<and> ds_nodes b = ds_nodes s \<and> ds_cards b = ds_cards s"
      using ports_only_trans [OF _ ports_only_step]
      by (cases y) (auto simp: port_connector_def bindr_eq_Inr split: if_split_asm)
  qed (rule inv)
qed simp

lemma stage_types_frame: "stage_types ro s = Inr s' \<Longrightarrow> ds_links s' = ds_links s \<and> ds_cards s' = ds_cards s"
  by (auto simp: stage_types_def bindr_eq_Inr)

lemma stage_load_frame: "stage_load ro g s = Inr s' \<Longrightarrow> ds_links s' = ds_links s \<and> ds_cards s' = ds_cards s"
  by (auto simp: stage_load_def bindr_eq_Inr)

lemma stage_macs_frame: "stage_macs s = Inr s' \<Longrightarrow> ds_links s' = ds_links s \<and> ds_cards s' = ds_cards s"
  by (auto simp: stage_macs_def bindr_eq_Inr)

lemma stage_fill_frame:
  assumes "stage_fill ro ptr s = Inr s'"
  shows "ds_links s' = ds_links s \<and> store_grows (ds_cards s) (ds_cards s')"
  using assms unfolding stage_fill_def
proof (rule foldm_invariant)
  fix x u v
  assume "ds_links u = ds_links s \<and> store_grows (ds_cards s) (ds_cards u)" and "fill_node ptr x u = Inr v"
  then show "ds_links v = ds_links s \<and> store_grows (ds_cards s) (ds_cards v)"
    by (cases x) (auto simp: fill_node_def bindr_eq_Inr dest!: System_fill_grows elim: store_grows_trans)
qed simp

lemma default_stages_frame:
  assumes "default_stages ro ptr g s = Inr s'"
  obtains s1 where "stage_links ro s = Inr s1" "ports_only (ds_links s1) (ds_links s')"
    "store_grows (ds_cards s1) (ds_cards s')"
proof -
  from assms obtain s1 s2 s3 s4 s5 where st: "stage_links ro s = Inr s1" "stage_types ro (stage_cpm ro s1) = Inr s2"
    "stage_load ro g s2 = Inr s3" "stage_fill ro ptr s3 = Inr s4" "stage_ports ro s4 = Inr s5" "stage_macs s5 = Inr s'"
    by (auto simp: default_stages_def bindr_eq_Inr)
  have "ds_links (stage_cpm ro s1) = ds_links s1" "ds_cards (stage_cpm ro s1) = ds_cards s1"
    by (simp_all add: stage_cpm_def)
  with st stage_types_frame [OF st(2)] stage_load_frame [OF st(3)] stage_fill_frame [OF st(4)]
    stage_ports_only [OF st(5)] stage_macs_frame [OF st(6)]
  show ?thesis by (intro that [OF st(1)]) simp_all
qed

section \<open>Addresses after defaulting\<close>

lemma stage_links_eq:
  assumes "good_order ro" "wfmap (ds_links s)" "named (ds_links s)"
  defines "L \<equiv> visit (ro 0) (ds_links s)"
  shows "stage_links ro s = Inr (s\<lparr>ds_off := ds_off s + int (total_connectors L),
      ds_nodes := fold add_node (concat (map (\<lambda>(_, link). connector_names (link_Connectors link)) L)) (ds_nodes s),
      ds_links := mac_links (ds_off s) L (ds_links s)\<rparr>)"
    and "wfmap L" and "\<And>k. map_of L k = map_of (ds_links s) k" and "set L = set (ds_links s)"
proof -
  have perm: "mset (ro 0 (map fst (ds_links s))) = mset (map fst (ds_links s))"
    using assms(1) by (simp add: good_order_def)
  show keys: "wfmap L"
    using perm assms(2) unfolding wfmap_def L_def fst_visit by (metis mset_eq_imp_distinct_iff)
  show maps: "map_of L k = map_of (ds_links s) k" for k
    unfolding L_def by (rule map_of_visit [of "ro 0", OF perm])
  have "(k, v) \<in> set L \<longleftrightarrow> (k, v) \<in> set (ds_links s)" for k v
    using wfmap_map_of [OF keys, of k v] wfmap_map_of [OF assms(2), of k v] maps by simp
  then show sets: "set L = set (ds_links s)" by auto
  have "\<forall>(ln, link)\<in>set L. map_of (ds_links s) ln = Some link"
    using visit_mem [of "ro 0", OF perm] by (auto simp: L_def)
  moreover have "named L" using assms(3) sets by (simp add: named_def)
  ultimately show "stage_links ro s = Inr (s\<lparr>ds_off := ds_off s + int (total_connectors L),
      ds_nodes := fold add_node (concat (map (\<lambda>(_, link). connector_names (link_Connectors link)) L)) (ds_nodes s),
      ds_links := mac_links (ds_off s) L (ds_links s)\<rparr>)"
    using outer_macs [of L s] keys by (simp add: stage_links_def L_def wfmap_def total_connectors_def)
qed

lemma total_connectors_set: "wfmap L \<Longrightarrow> wfmap M \<Longrightarrow> set L = set M \<Longrightarrow> total_connectors L = total_connectors M"
proof -
  assume "wfmap L" "wfmap M" "set L = set M"
  then have "mset L = mset M" by (metis distinct_map set_eq_iff_mset_eq_distinct wfmap_def)
  moreover have "total_connectors K = sum_mset (image_mset (\<lambda>(_, link). length (link_Connectors link)) (mset K))" for K
    by (simp add: total_connectors_def flip: sum_mset_sum_list)
  ultimately show ?thesis by simp
qed

text \<open>The place of a connector: its link and its index there.\<close>

definition places :: "Link gomap \<Rightarrow> (string \<times> nat) set" where
  "places ls = {(ln, i). \<exists>link. map_of ls ln = Some link \<and> i < length (link_Connectors link)}"

definition connector_at :: "Link gomap \<Rightarrow> string \<times> nat \<Rightarrow> Connector" where
  "connector_at ls p = link_Connectors (the (map_of ls (fst p))) ! snd p"

text \<open>The offset that the connector at a place gets its address from.\<close>

definition mac_off :: "(string list \<Rightarrow> string list) \<Rightarrow> Link gomap \<Rightarrow> string \<times> nat \<Rightarrow> int" where
  "mac_off r ls p = start_off 0 (visit r ls) (fst p) + int (snd p) + 1"

lemma default_macs:
  assumes "default_stages ro ptr g s = Inr s'" "good_order ro" "wfmap (ds_links s)" "named (ds_links s)" "ds_off s = 0"
  defines "off \<equiv> mac_off (ro 0) (ds_links s)"
  shows "inj_on off (places (ds_links s))"
    and "p \<in> places (ds_links s) \<Longrightarrow> 1 \<le> off p \<and> off p \<le> int (total_connectors (ds_links s)) \<and>
       con_Mac (connector_at (ds_links s') p) =
         SetDefaultGeneric (con_Mac (connector_at (ds_links s) p)) (mac_at (off p))"
proof -
  let ?L = "visit (ro 0) (ds_links s)"
  note eqs = stage_links_eq [OF assms(2-4)]
  obtain s1 where s1: "stage_links ro s = Inr s1" "ports_only (ds_links s1) (ds_links s')"
    using default_stages_frame [OF assms(1)] by metis
  then have l1: "ds_links s1 = mac_links 0 ?L (ds_links s)" using eqs(1) assms(5) by auto
  have off_eq: "off p = start_off 0 ?L (fst p) + int (snd p) + 1" for p by (simp add: off_def mac_off_def)
  show "inj_on off (places (ds_links s))"
  proof (rule inj_onI)
    fix p q assume p: "p \<in> places (ds_links s)" and q: "q \<in> places (ds_links s)" and eq: "off p = off q"
    from p obtain link where l: "map_of ?L (fst p) = Some link" "snd p < length (link_Connectors link)"
      by (auto simp: places_def eqs(3))
    from q obtain link' where l': "map_of ?L (fst q) = Some link'" "snd q < length (link_Connectors link')"
      by (auto simp: places_def eqs(3))
    have "fst p = fst q"
      using start_off_disjoint [OF l(1) l'(1), of 0] l(2) l'(2) eq by (force simp: off_eq)
    with eq show "p = q" by (simp add: off_eq prod_eq_iff)
  qed
  show "1 \<le> off p \<and> off p \<le> int (total_connectors (ds_links s)) \<and>
       con_Mac (connector_at (ds_links s') p) = SetDefaultGeneric (con_Mac (connector_at (ds_links s) p)) (mac_at (off p))"
    if p: "p \<in> places (ds_links s)" for p
  proof -
    from p obtain link where l: "map_of ?L (fst p) = Some link" "snd p < length (link_Connectors link)"
      by (auto simp: places_def eqs(3))
    have total: "total_connectors ?L = total_connectors (ds_links s)"
      using total_connectors_set [OF eqs(2) assms(3) eqs(4)] .
    have bounds: "1 \<le> off p" "off p \<le> int (total_connectors (ds_links s))"
      using start_off_ge [of 0 ?L "fst p"] start_off_bound [OF l(1), of 0] l(2) total by (simp_all add: off_eq)
    have "map_of (ds_links s1) (fst p) =
        Some (link\<lparr>link_Connectors := with_macs (start_off 0 ?L (fst p)) (link_Connectors link)\<rparr>)"
      using l(1) eqs(2) by (simp add: l1 map_of_mac_links wfmap_def)
    from ports_onlyD [OF s1(2) this] obtain link' where l': "map_of (ds_links s') (fst p) = Some link'"
      "list_all2 port_ext (with_macs (start_off 0 ?L (fst p)) (link_Connectors link)) (link_Connectors link')"
      by auto
    have "con_Mac (link_Connectors link' ! snd p) = con_Mac (with_macs (start_off 0 ?L (fst p)) (link_Connectors link) ! snd p)"
      using list_all2_nthD [OF l'(2), of "snd p"] l(2) by (simp add: port_ext_mac)
    then have "con_Mac (connector_at (ds_links s') p) = SetDefaultGeneric (con_Mac (connector_at (ds_links s) p)) (mac_at (off p))"
      using l l'(1) by (simp add: connector_at_def nth_with_macs off_eq eqs(3) [symmetric])
    with bounds show ?thesis by simp
  qed
qed

lemma default_links_keys:
  assumes "default_stages ro ptr g s = Inr s'" "good_order ro" "wfmap (ds_links s)" "named (ds_links s)"
  shows "map fst (ds_links s') = map fst (ds_links s)"
proof -
  note eqs = stage_links_eq [OF assms(2-4)]
  obtain s1 where s1: "stage_links ro s = Inr s1" "ports_only (ds_links s1) (ds_links s')"
    using default_stages_frame [OF assms(1)] by metis
  then have "ds_links s1 = mac_links (ds_off s) (visit (ro 0) (ds_links s)) (ds_links s)" using eqs(1) by auto
  then have "map fst (ds_links s1) = map fst (ds_links s)" using mac_links_keys eqs(4) by (metis order_refl)
  then show ?thesis using s1(2) by (simp add: ports_only_def)
qed

end
