(* ===== verification/DefaultNodes.thy ===== *)
theory DefaultNodes
  imports DefaultMacs
begin

text \<open>
  Facts on the nodes the webhook leaves: which nodes there are, and of which type. A node keeps
  the types its user gave it; one without a type gets the type its name announces; the stages
  that fill in defaults change no type.
\<close>

section \<open>Loops that treat the keys of a map one by one\<close>

lemma foldm_pointwise:
  assumes "foldm f L s = Inr s'" and "distinct (map fst L)"
    and step: "\<And>k v u u'. (k, v) \<in> set L \<Longrightarrow> M u k = M s k \<Longrightarrow> f (k, v) u = Inr u' \<Longrightarrow>
      (\<forall>j. j \<noteq> k \<longrightarrow> M u' j = M u j) \<and> Q k (M s k) (M u' k)"
  shows "(k \<notin> fst ` set L \<longrightarrow> M s' k = M s k) \<and> (k \<in> fst ` set L \<longrightarrow> Q k (M s k) (M s' k))"
  using assms
proof (induction L arbitrary: s)
  case (Cons x L)
  obtain j v where x: "x = (j, v)" by fastforce
  from Cons.prems(1) x obtain u where u: "f (j, v) s = Inr u" "foldm f L u = Inr s'"
    by (auto simp: bindr_eq_Inr)
  have first: "(\<forall>i. i \<noteq> j \<longrightarrow> M u i = M s i) \<and> Q j (M s j) (M u j)"
    by (rule Cons.prems(3) [of j v s u]) (simp_all add: x u(1))
  have notin: "j \<notin> fst ` set L" using Cons.prems(2) x by simp
  have rest: "(k \<notin> fst ` set L \<longrightarrow> M s' k = M u k) \<and> (k \<in> fst ` set L \<longrightarrow> Q k (M u k) (M s' k))"
  proof (rule Cons.IH [OF u(2)])
    show "distinct (map fst L)" using Cons.prems(2) by simp
    fix i w t t' assume iw: "(i, w) \<in> set L" "M t i = M u i" "f (i, w) t = Inr t'"
    have "i \<noteq> j" using iw(1) notin by force
    then have "M t i = M s i" using iw(2) first by simp
    from Cons.prems(3) [of i w t t'] iw this first \<open>i \<noteq> j\<close>
    show "(\<forall>j. j \<noteq> i \<longrightarrow> M t' j = M t j) \<and> Q i (M u i) (M t' i)" by simp
  qed
  show ?case
    using rest first notin unfolding x by (cases "k = j") auto
qed simp

section \<open>Types of a node\<close>

definition tys :: "'c OneOfSystem \<Rightarrow> NodeType list" where
  "tys one = map (\<lambda>x. sys_type (fst x)) (one_fields one)"

lemma tys_Nil: "tys one = [] \<longleftrightarrow> one_fields one = []"
  by (simp add: tys_def)

lemma tys_new [simp]: "tys new_OneOfSystem = []"
  by (simp add: tys_Nil)

lemma tys_Assign: "GetSystem one = (Some s, name) \<Longrightarrow> sys_type s' = sys_type s \<Longrightarrow> tys (AssignSystem s' one) = tys one"
  by (cases s; cases s')
     (auto simp: GetSystem_def AssignSystem_def one_fields_def sys_type_def tys_def split: option.splits)

lemma tys_Assign_fst: "fst (GetSystem one) = Some s \<Longrightarrow> sys_type s' = sys_type s \<Longrightarrow> tys (AssignSystem s' one) = tys one"
  using tys_Assign [of one s "snd (GetSystem one)"] by (metis prod.collapse)

lemma tys_named: "tys one = [] \<Longrightarrow> GetNewSystemViaName n = Some s \<Longrightarrow> tys (AssignSystem s one) = [GetNodeTypeViaName n]"
  using one_fields_Assign [of one s] registry_type [of "GetNodeTypeViaName n" s]
  by (simp add: tys_Nil tys_def GetNewSystemViaName_def)

lemma tys_validate: "ok (OneOfSystem_validate one) \<longleftrightarrow> length (tys one) = 1"
  by (auto simp: OneOfSystem_validate_ok tys_def length_Suc_conv)

section \<open>Which nodes there are\<close>

lemma map_of_add_node: "map_of (add_node n nodes) k =
    (if k = n \<and> map_of nodes n = None then Some new_OneOfSystem else map_of nodes k)"
  by (simp add: add_node_def map_of_update)

lemma wfmap_add_node [simp]: "wfmap nodes \<Longrightarrow> wfmap (add_node n nodes)"
  by (simp add: add_node_def)

lemma map_of_add_nodes: "map_of (fold add_node ns nodes) k =
    (case map_of nodes k of Some one \<Rightarrow> Some one
     | None \<Rightarrow> if k \<in> set ns then Some new_OneOfSystem else None)"
  by (induction ns arbitrary: nodes) (auto simp: map_of_add_node split: option.split)

lemma wfmap_add_nodes: "wfmap nodes \<Longrightarrow> wfmap (fold add_node ns nodes)"
  by (induction ns arbitrary: nodes) auto

definition cpm_target :: "string \<Rightarrow> string option" where
  "cpm_target nodeName =
     (case ParseSRVMName nodeName of
        Inl _ \<Rightarrow> None
      | Inr (vmt, vmid, _) \<Rightarrow>
          if vmt = SRVMVSIM \<or> vmt = SRVMMAGC then Some (vmt @ ''-'' @ Itoa vmid @ ''-a'') else None)"

lemma cpm_node_target: "cpm_node n nodes = (case cpm_target n of None \<Rightarrow> nodes | Some c \<Rightarrow> add_node c nodes)"
  by (auto simp: cpm_node_def cpm_target_def split: sum.split prod.split)

lemma fold_cpm: "fold cpm_node ns nodes = fold add_node (List.map_filter cpm_target ns) nodes"
  by (induction ns arbitrary: nodes) (auto simp: cpm_node_target List.map_filter_simps split: option.split)

lemma set_map_filter: "set (List.map_filter f xs) = {y. \<exists>x\<in>set xs. f x = Some y}"
  by (induction xs) (auto simp: List.map_filter_simps split: option.split)

text \<open>The names connectors use, and the CPM names made from the nodes known by then.\<close>

definition link_nodes :: "Link gomap \<Rightarrow> string set" where
  "link_nodes ls = {n. \<exists>c\<in>connectors ls. con_NodeName c = Some n}"

definition wanted_nodes :: "string set \<Rightarrow> Link gomap \<Rightarrow> string set" where
  "wanted_nodes given ls = (let ns = given \<union> link_nodes ls in ns \<union> {c. \<exists>n\<in>ns. cpm_target n = Some c})"

lemma stage_links_cpm_nodes:
  assumes "good_order ro" "wfmap (ds_links s)" "named (ds_links s)" "wfmap (ds_nodes s)" "stage_links ro s = Inr s1"
  shows "wfmap (ds_nodes (stage_cpm ro s1))"
    and "map_of (ds_nodes (stage_cpm ro s1)) n =
      (case map_of (ds_nodes s) n of Some one \<Rightarrow> Some one
       | None \<Rightarrow> if n \<in> wanted_nodes (fst ` set (ds_nodes s)) (ds_links s) then Some new_OneOfSystem else None)"
proof -
  define L where "L = visit (ro 0) (ds_links s)"
  define ns where "ns = concat (map (\<lambda>(_, link). connector_names (link_Connectors link)) L)"
  note eqs = stage_links_eq [OF assms(1-3), folded L_def]
  have n1: "ds_nodes s1 = fold add_node ns (ds_nodes s)" using eqs(1) assms(5) by (auto simp: ns_def)
  have "set ns = (\<lambda>c. the (con_NodeName c)) ` connectors L"
    by (force simp: ns_def connector_names_def connectors_def)
  also have "\<dots> = (\<lambda>c. the (con_NodeName c)) ` connectors (ds_links s)"
    using eqs(4) by (simp add: connectors_def)
  also have "\<dots> = link_nodes (ds_links s)"
    using assms(3) by (force simp: link_nodes_def named_iff)
  finally have ns: "set ns = link_nodes (ds_links s)" .
  have w1: "wfmap (ds_nodes s1)" using n1 assms(4) by (simp add: wfmap_add_nodes)
  then show "wfmap (ds_nodes (stage_cpm ro s1))" by (simp add: stage_cpm_def fold_cpm wfmap_add_nodes)
  have dom: "fst ` set (ds_nodes s1) = fst ` set (ds_nodes s) \<union> link_nodes (ds_links s)"
  proof -
    have "dom (map_of (ds_nodes s1)) = dom (map_of (ds_nodes s)) \<union> set ns"
      unfolding n1 by (auto simp: map_of_add_nodes split: option.splits)
    then show ?thesis by (simp add: dom_map_of_conv_image_fst ns)
  qed
  have "set (ro 1 (map fst (ds_nodes s1))) = fst ` set (ds_nodes s1)"
    using assms(1) unfolding good_order_def by (metis set_map set_mset_mset)
  then have cpm: "set (List.map_filter cpm_target (ro 1 (map fst (ds_nodes s1)))) =
      {c. \<exists>n\<in>fst ` set (ds_nodes s) \<union> link_nodes (ds_links s). cpm_target n = Some c}"
    by (simp add: set_map_filter dom)
  show "map_of (ds_nodes (stage_cpm ro s1)) n =
      (case map_of (ds_nodes s) n of Some one \<Rightarrow> Some one
       | None \<Rightarrow> if n \<in> wanted_nodes (fst ` set (ds_nodes s)) (ds_links s) then Some new_OneOfSystem else None)"
  proof (cases "map_of (ds_nodes s) n")
    case None
    then have "n \<notin> fst ` set (ds_nodes s)" by (simp add: map_of_eq_None_iff)
    with None show ?thesis
      unfolding stage_cpm_def fold_cpm
      by (simp add: map_of_add_nodes n1 ns cpm [unfolded n1 One_nat_def] wanted_nodes_def Let_def)
  next
    case (Some one)
    then show ?thesis unfolding stage_cpm_def fold_cpm by (simp add: map_of_add_nodes n1)
  qed
qed

section \<open>Types through the stages\<close>

definition tys_at :: "'c OneOfSystem gomap \<Rightarrow> string \<Rightarrow> NodeType list option" where
  "tys_at nodes n = map_option tys (map_of nodes n)"

lemma visit_keys: "good_order ro \<Longrightarrow> fst ` set (visit (ro i) m) = fst ` set m"
  unfolding good_order_def by (metis fst_visit set_map set_mset_mset)

lemma visit_wf: "good_order ro \<Longrightarrow> wfmap m \<Longrightarrow> wfmap (visit (ro i) m)"
  unfolding good_order_def wfmap_def fst_visit by (metis mset_eq_imp_distinct_iff)

lemma visit_at: "good_order ro \<Longrightarrow> (k, v) \<in> set (visit (ro i) m) \<Longrightarrow> map_of m k = Some v"
  by (rule visit_mem [of "ro i"]) (auto simp: good_order_def)

lemma visit_map: "good_order ro \<Longrightarrow> map_of (visit (ro i) m) k = map_of m k"
  by (rule map_of_visit [of "ro i"]) (auto simp: good_order_def)

lemma stage_types_tys:
  assumes "stage_types ro s = Inr s'" "good_order ro" "wfmap (ds_nodes s)"
  shows "wfmap (ds_nodes s')"
    and "tys_at (ds_nodes s') n = map_option (\<lambda>ts. if ts = [] then [GetNodeTypeViaName n] else ts) (tys_at (ds_nodes s) n)"
proof -
  let ?L = "visit (ro 2) (ds_nodes s)"
  obtain nodes where f: "foldm type_node ?L (ds_nodes s) = Inr nodes" and s': "s' = s\<lparr>ds_nodes := nodes\<rparr>"
    using assms(1) by (auto simp: stage_types_def bindr_eq_Inr)
  have "wfmap nodes"
    using f by (rule foldm_invariant [where P = wfmap])
      (auto simp: assms(3) type_node_def split: option.split_asm)
  then show "wfmap (ds_nodes s')" by (simp add: s')
  let ?Q = "\<lambda>k old new. new = map_option (\<lambda>ts. if ts = [] then [GetNodeTypeViaName k] else ts) old"
  have "(n \<notin> fst ` set ?L \<longrightarrow> tys_at nodes n = tys_at (ds_nodes s) n) \<and>
      (n \<in> fst ` set ?L \<longrightarrow> ?Q n (tys_at (ds_nodes s) n) (tys_at nodes n))"
  proof (rule foldm_pointwise [OF f])
    show "distinct (map fst ?L)" using visit_wf [OF assms(2,3)] by (simp add: wfmap_def)
    fix k v u u' assume kv: "(k, v) \<in> set ?L" "tys_at u k = tys_at (ds_nodes s) k" "type_node (k, v) u = Inr u'"
    have v: "tys_at (ds_nodes s) k = Some (tys v)" using visit_at [OF assms(2) kv(1)] by (simp add: tys_at_def)
    show "(\<forall>j. j \<noteq> k \<longrightarrow> tys_at u' j = tys_at u j) \<and> ?Q k (tys_at (ds_nodes s) k) (tys_at u' k)"
    proof (cases "fst (GetSystem v)")
      case None
      then have "tys v = []" by (simp add: tys_Nil GetSystem_None)
      with kv(3) None tys_named [of v k] v show ?thesis
        by (auto simp: type_node_def tys_at_def map_of_update split: option.split_asm)
    next
      case (Some sys)
      then have "tys v \<noteq> []" using GetSystem_None [of v] by (simp add: tys_Nil)
      with kv(2,3) Some v show ?thesis by (simp add: type_node_def)
    qed
  qed
  moreover have "tys_at (ds_nodes s) n = None" if "n \<notin> fst ` set ?L"
    using that unfolding visit_keys [OF assms(2)] by (simp add: tys_at_def map_of_eq_None_iff)
  ultimately show "tys_at (ds_nodes s') n = map_option (\<lambda>ts. if ts = [] then [GetNodeTypeViaName n] else ts) (tys_at (ds_nodes s) n)"
    by (cases "n \<in> fst ` set ?L") (auto simp: s')
qed

lemma load_node_tys: "load_node def (n, one) = Inr (n', one') \<Longrightarrow> n' = n \<and> tys one' = tys one"
proof -
  assume l: "load_node def (n, one) = Inr (n', one')"
  then obtain sys name where g: "GetSystem one = (Some sys, name)"
    by (cases "GetSystem one") (auto simp: load_node_def split: option.split_asm)
  from l g obtain dv where dv: "cfg_DefaultNode def = Some dv"
    by (auto simp: load_node_def bindr_eq_Inr deref_eq_Inr)
  show ?thesis
  proof (cases "FieldByName dv name")
    case None
    with l g dv show ?thesis by (simp add: load_node_def)
  next
    case (Some ds)
    from FillNilPointers_same [of sys ds] FieldByName_name [OF Some] GetSystem_name [OF g]
    obtain r where "FillNilPointers sys ds = Inr r" "sys_type r = sys_type sys" by auto
    with l g dv Some tys_Assign [OF g, of r] show ?thesis by (simp add: load_node_def)
  qed
qed

lemma LoadDef_tys: "LoadDef nodes def = Inr nodes' \<Longrightarrow> map fst nodes' = map fst nodes \<and> tys_at nodes' = tys_at nodes"
proof -
  assume "LoadDef nodes def = Inr nodes'"
  then have "list_all2 (\<lambda>x y. load_node def x = Inr y) nodes nodes'" by (simp add: LoadDef_step)
  then have "map fst nodes' = map fst nodes \<and> (\<forall>n. tys_at nodes' n = tys_at nodes n)"
  proof (induction rule: list_all2_induct)
    case (Cons x xs y ys)
    obtain a b c d where xy: "x = (a, b)" "y = (c, d)" by fastforce
    from load_node_tys [of def a b c d] Cons.hyps(1) xy have "c = a" "tys d = tys b" by auto
    with Cons.IH xy show ?case by (simp add: tys_at_def)
  qed (simp add: tys_at_def)
  then show ?thesis by auto
qed

lemma stage_load_tys:
  assumes "stage_load ro g s = Inr s'" "good_order ro" "wfmap (ds_nodes s)"
  shows "wfmap (ds_nodes s')" and "tys_at (ds_nodes s') = tys_at (ds_nodes s)"
proof -
  from assms(1) have l: "LoadDef (visit (ro 3) (ds_nodes s)) g = Inr (ds_nodes s')"
    by (auto simp: stage_load_def bindr_eq_Inr)
  note lt = LoadDef_tys [OF l]
  show "wfmap (ds_nodes s')" using lt visit_wf [OF assms(2,3), of 3] by (simp add: wfmap_def)
  show "tys_at (ds_nodes s') = tys_at (ds_nodes s)"
    using lt visit_map [OF assms(2), of 3 "ds_nodes s"] by (auto simp: tys_at_def fun_eq_iff)
qed

lemma stage_fill_tys:
  assumes "stage_fill ro ptr s = Inr s'" "good_order ro" "wfmap (ds_nodes s)"
  shows "wfmap (ds_nodes s')" and "tys_at (ds_nodes s') n = tys_at (ds_nodes s) n"
proof -
  let ?L = "visit (ro 4) (ds_nodes s)"
  have f: "foldm (fill_node ptr) ?L s = Inr s'" using assms(1) by (simp add: stage_fill_def)
  show "wfmap (ds_nodes s')"
    using f by (rule foldm_invariant [where P = "\<lambda>s. wfmap (ds_nodes s)"])
      (auto simp: assms(3) fill_node_def bindr_eq_Inr)
  have "(n \<notin> fst ` set ?L \<longrightarrow> tys_at (ds_nodes s') n = tys_at (ds_nodes s) n) \<and>
      (n \<in> fst ` set ?L \<longrightarrow> tys_at (ds_nodes s) n = tys_at (ds_nodes s') n)"
  proof (rule foldm_pointwise [OF f, where M = "\<lambda>s. tys_at (ds_nodes s)" and Q = "\<lambda>k old new. old = new"])
    show "distinct (map fst ?L)" using visit_wf [OF assms(2,3)] by (simp add: wfmap_def)
    fix k v u u' assume kv: "(k, v) \<in> set ?L" "tys_at (ds_nodes u) k = tys_at (ds_nodes s) k" "fill_node ptr (k, v) u = Inr u'"
    have v: "tys_at (ds_nodes s) k = Some (tys v)" using visit_at [OF assms(2) kv(1)] by (simp add: tys_at_def)
    from kv(3) obtain sys sys' h' where sys: "fst (GetSystem v) = Some sys"
      "System_FillDefaultVal ptr sys (ds_cards u) = Inr (sys', h')"
      "u' = u\<lparr>ds_nodes := AList.update k (AssignSystem sys' v) (ds_nodes u), ds_cards := h'\<rparr>"
      by (auto simp: fill_node_def bindr_eq_Inr deref_eq_Inr)
    with tys_Assign_fst [OF sys(1) System_fill_type [OF sys(2)]] v
    show "(\<forall>j. j \<noteq> k \<longrightarrow> tys_at (ds_nodes u') j = tys_at (ds_nodes u) j) \<and> tys_at (ds_nodes s) k = tys_at (ds_nodes u') k"
      by (simp add: tys_at_def map_of_update)
  qed
  then show "tys_at (ds_nodes s') n = tys_at (ds_nodes s) n" by auto
qed

lemma upd_chassis_type [simp]: "sys_type (upd_chassis f s) = sys_type s"
  by (cases s) (simp_all add: upd_chassis_def sys_type_def)

lemma chassis_mac_tys: "chassis_mac x nodes = Inr nodes' \<Longrightarrow> wfmap nodes \<Longrightarrow>
    wfmap nodes' \<and> tys_at nodes' = tys_at nodes"
proof -
  assume c: "chassis_mac x nodes = Inr nodes'" and wf: "wfmap nodes"
  obtain i n where x: "x = (i, n)" by fastforce
  have give: "nodes' = nodes \<or> (\<exists>sys f. fst (GetSystem one) = Some sys \<and>
      nodes' = AList.update n (AssignSystem (upd_chassis f sys) one) nodes)"
    if "give_mac i n one ch nodes = Inr nodes'" for one ch
    using that by (auto simp: give_mac_def bindr_eq_Inr deref_eq_Inr split: option.split_asm if_split_asm)
  have "nodes' = nodes \<or> (\<exists>one sys f. map_of nodes n = Some one \<and> fst (GetSystem one) = Some sys \<and>
      nodes' = AList.update n (AssignSystem (upd_chassis f sys) one) nodes)"
  proof (cases "IsSRType (GetNodeTypeViaName n)")
    case True
    with c obtain one ch where one: "map_of nodes n = Some one" "give_mac i n one ch nodes = Inr nodes'"
      by (auto simp: x chassis_mac_def bindr_eq_Inr deref_eq_Inr)
    with give [OF one(2)] show ?thesis by blast
  qed (use c in \<open>simp add: x chassis_mac_def\<close>)
  then consider "nodes' = nodes"
    | one sys f where "map_of nodes n = Some one" "fst (GetSystem one) = Some sys"
        "nodes' = AList.update n (AssignSystem (upd_chassis f sys) one) nodes"
    by blast
  then show ?thesis
  proof cases
    case (2 one sys f)
    with wf tys_Assign_fst [OF 2(2), of "upd_chassis f sys"] show ?thesis
      by (auto simp: tys_at_def map_of_update fun_eq_iff)
  qed (simp add: wf)
qed

lemma stage_macs_tys:
  assumes "stage_macs s = Inr s'" "wfmap (ds_nodes s)"
  shows "wfmap (ds_nodes s') \<and> tys_at (ds_nodes s') = tys_at (ds_nodes s)"
proof -
  from assms(1) have "foldm chassis_mac (List.enumerate 0 (GetSortedKeySlice (ds_nodes s))) (ds_nodes s) = Inr (ds_nodes s')"
    by (auto simp: stage_macs_def bindr_eq_Inr)
  then show ?thesis
    by (rule foldm_invariant [where P = "\<lambda>n. wfmap n \<and> tys_at n = tys_at (ds_nodes s)"])
      (use assms(2) chassis_mac_tys in auto)
qed

lemma default_tys:
  assumes "default_stages ro ptr g s = Inr s'" "good_order ro" "wfmap (ds_links s)" "named (ds_links s)"
    "wfmap (ds_nodes s)"
  shows "wfmap (ds_nodes s')"
    and "tys_at (ds_nodes s') n =
      (case tys_at (ds_nodes s) n of
         Some ts \<Rightarrow> Some (if ts = [] then [GetNodeTypeViaName n] else ts)
       | None \<Rightarrow> if n \<in> wanted_nodes (fst ` set (ds_nodes s)) (ds_links s) then Some [GetNodeTypeViaName n] else None)"
proof -
  from assms(1) obtain s1 s2 s3 s4 s5 where st: "stage_links ro s = Inr s1" "stage_types ro (stage_cpm ro s1) = Inr s2"
    "stage_load ro g s2 = Inr s3" "stage_fill ro ptr s3 = Inr s4" "stage_ports ro s4 = Inr s5" "stage_macs s5 = Inr s'"
    by (auto simp: default_stages_def bindr_eq_Inr)
  note c = stage_links_cpm_nodes [OF assms(2-5) st(1)]
  note t2 = stage_types_tys [OF st(2) assms(2) c(1)]
  note t3 = stage_load_tys [OF st(3) assms(2) t2(1)]
  note t4 = stage_fill_tys [OF st(4) assms(2) t3(1)]
  have n5: "ds_nodes s5 = ds_nodes s4" using stage_ports_only [OF st(5)] by simp
  have t6: "wfmap (ds_nodes s') \<and> tys_at (ds_nodes s') = tys_at (ds_nodes s5)"
    using stage_macs_tys [OF st(6)] t4(1) n5 by simp
  then show "wfmap (ds_nodes s')" by simp
  have "tys_at (ds_nodes s') n = map_option (\<lambda>ts. if ts = [] then [GetNodeTypeViaName n] else ts) (tys_at (ds_nodes (stage_cpm ro s1)) n)"
    using t6 n5 t4(2) t3(2) t2(2) by simp
  then show "tys_at (ds_nodes s') n =
      (case tys_at (ds_nodes s) n of
         Some ts \<Rightarrow> Some (if ts = [] then [GetNodeTypeViaName n] else ts)
       | None \<Rightarrow> if n \<in> wanted_nodes (fst ` set (ds_nodes s)) (ds_links s) then Some [GetNodeTypeViaName n] else None)"
    using c(2) [of n] by (simp add: tys_at_def split: option.split)
qed

end
