(* ===== verification/CloudInit.thy ===== *)
theory CloudInit
  imports LabValidate Mac
begin

text \<open>
  What a general VM is told about its links at first boot: the cloud-init network data
  (cloudinit.go) and the address lines of the ignition file (vmpc.go). Both parse again, with
  functions that panic, the strings that validation accepted: the cloud-init path never panics
  on them, the ignition path panics on every one of them.
\<close>

section \<open>Cloud-init (cloudinit.go)\<close>

record NicConfig =
  nic_Dhcp4 :: bool
  nic_Macaddress :: string
  nic_Addresses :: "prefix list"
  nic_Routes :: "Route list"

record CloudInitNetworkConfig =
  ci_Version :: int
  ci_Ethernets :: "NicConfig gomap"

definition getDefCloudinitNetworkCfg :: CloudInitNetworkConfig where
  "getDefCloudinitNetworkCfg =
     \<lparr>ci_Version = 2,
      ci_Ethernets = [(''firstnic'', \<lparr>nic_Dhcp4 = True, nic_Macaddress = mac_String VMBaseMAC,
                                      nic_Addresses = [], nic_Routes = []\<rparr>)]\<rparr>"

definition AddConnector :: "string \<Rightarrow> Connector \<Rightarrow> CloudInitNetworkConfig \<Rightarrow> CloudInitNetworkConfig result" where
  "AddConnector nicName c netcfg =
     bindr (deref (con_Mac c)) (\<lambda>mac.
     bindr (foldm (\<lambda>addStr nic. bindr (MustParsePrefix addStr) (\<lambda>p.
              Inr (nic\<lparr>nic_Addresses := nic_Addresses nic @ [p]\<rparr>)))
              (con_Addrs c)
              \<lparr>nic_Dhcp4 = False, nic_Macaddress = mac, nic_Addresses = [], nic_Routes = []\<rparr>) (\<lambda>nic.
     bindr (foldm (\<lambda>routeStr nic. bindr (mustParseRoute routeStr) (\<lambda>r.
              Inr (nic\<lparr>nic_Routes := nic_Routes nic @ [r]\<rparr>)))
              (con_Routes c) nic) (\<lambda>nic.
       Inr (netcfg\<lparr>ci_Ethernets := AList.update nicName nic (ci_Ethernets netcfg)\<rparr>))))"

section \<open>Ignition (vmpc.go)\<close>

text \<open>
  The address lines: \<open>String\<close> of an address and of a prefix are parameters. The result is the
  text for IPv4 and the text for IPv6.
\<close>

definition ignition_addr ::
  "(addr \<Rightarrow> string) \<Rightarrow> nat \<times> string \<Rightarrow> string \<times> string \<Rightarrow> (string \<times> string) result" where
  "ignition_addr addr_str = (\<lambda>(i, addrStr) (v4, v6).
     bindr (MustParseAddr addrStr) (\<lambda>addr.
       let line = ''address'' @ show_nat (i + 1) @ ''='' @ addr_str addr @ [CHR 0x0A]
       in if Is4 addr then Inr (v4 @ line, v6) else Inr (v4, v6 @ line)))"

definition ignition_route ::
  "(prefix \<Rightarrow> string) \<Rightarrow> (addr \<Rightarrow> string) \<Rightarrow> nat \<times> string \<Rightarrow> string \<times> string \<Rightarrow> (string \<times> string) result" where
  "ignition_route prefix_str addr_str = (\<lambda>(i, routeStr) (v4, v6).
     bindr (mustParseRoute routeStr) (\<lambda>route.
       let line = ''route'' @ show_nat (i + 1) @ ''='' @ prefix_str (route_To route) @ '','' @
                  addr_str (route_Via route) @ [CHR 0x0A]
       in if Is4 (route_Via route) then Inr (v4 @ line, v6) else Inr (v4, v6 @ line)))"

definition ignition_lines ::
  "(prefix \<Rightarrow> string) \<Rightarrow> (addr \<Rightarrow> string) \<Rightarrow> Connector \<Rightarrow> (string \<times> string) result" where
  "ignition_lines prefix_str addr_str c =
     bindr (foldm (ignition_addr addr_str) (List.enumerate 0 (con_Addrs c)) ([], []))
       (foldm (ignition_route prefix_str addr_str) (List.enumerate 0 (con_Routes c)))"

section \<open>The cloud-init path\<close>

lemma MustParsePrefix_eq: "ParsePrefix s = Inr p \<Longrightarrow> MustParsePrefix s = Inr p"
  by (simp add: MustParsePrefix_def)

lemma mustParseRoute_eq: "parseRoute s = Inr r \<Longrightarrow> mustParseRoute s = Inr r"
  by (simp add: mustParseRoute_def)

lemma fold_addrs: "list_all2 (\<lambda>s p. ParsePrefix s = Inr p) ss ps \<Longrightarrow>
    foldm (\<lambda>addStr nic. bindr (MustParsePrefix addStr) (\<lambda>p. Inr (nic\<lparr>nic_Addresses := nic_Addresses nic @ [p]\<rparr>))) ss nic
    = Inr (nic\<lparr>nic_Addresses := nic_Addresses nic @ ps\<rparr>)"
  by (induction ss ps arbitrary: nic rule: list_all2_induct) (simp_all add: MustParsePrefix_eq)

lemma fold_routes: "list_all2 (\<lambda>s r. parseRoute s = Inr r) ss rs \<Longrightarrow>
    foldm (\<lambda>routeStr nic. bindr (mustParseRoute routeStr) (\<lambda>r. Inr (nic\<lparr>nic_Routes := nic_Routes nic @ [r]\<rparr>))) ss nic
    = Inr (nic\<lparr>nic_Routes := nic_Routes nic @ rs\<rparr>)"
  by (induction ss rs arbitrary: nic rule: list_all2_induct) (simp_all add: mustParseRoute_eq)

lemma ok_all2: "(\<forall>s\<in>set ss. ok (f s)) \<Longrightarrow> \<exists>ps. list_all2 (\<lambda>s p. f s = Inr p) ss ps"
proof (induction ss)
  case (Cons s ss)
  then show ?case by (auto simp: list_all2_Cons1 ok_iff)
qed auto

lemma AddConnector_eq:
  assumes "good_connector c" "con_Mac c = Some mac"
  shows "\<exists>ps rs. list_all2 (\<lambda>s p. ParsePrefix s = Inr p) (con_Addrs c) ps \<and>
    list_all2 (\<lambda>s r. parseRoute s = Inr r) (con_Routes c) rs \<and>
    AddConnector nicName c netcfg =
      Inr (netcfg\<lparr>ci_Ethernets := AList.update nicName
        \<lparr>nic_Dhcp4 = False, nic_Macaddress = mac, nic_Addresses = ps, nic_Routes = rs\<rparr> (ci_Ethernets netcfg)\<rparr>)"
proof -
  obtain ps where ps: "list_all2 (\<lambda>s p. ParsePrefix s = Inr p) (con_Addrs c) ps"
    using assms(1) ok_all2 [of "con_Addrs c" ParsePrefix] by (force simp: good_connector_def ok_iff)
  obtain rs where rs: "list_all2 (\<lambda>s r. parseRoute s = Inr r) (con_Routes c) rs"
    using assms(1) ok_all2 [of "con_Routes c" parseRoute] by (auto simp: good_connector_def)
  show ?thesis
    using ps rs assms(2)
    by (intro exI [of _ ps] exI [of _ rs]) (simp add: AddConnector_def fold_addrs [OF ps] fold_routes [OF rs])
qed

section \<open>The ignition path\<close>

lemma ignition_panics:
  assumes "good_connector c" "con_Addrs c \<noteq> []"
  shows "panics (ignition_lines prefix_str addr_str c)"
proof -
  obtain a as where as: "con_Addrs c = a # as" using assms(2) by (cases "con_Addrs c") auto
  with assms(1) obtain p where "ParsePrefix a = Inr p" by (auto simp: good_connector_def)
  from ParsePrefix_not_addr [OF this] obtain e where "ParseAddr a = Inl e" ..
  then show ?thesis by (simp add: ignition_lines_def as ignition_addr_def MustParseAddr_def)
qed

lemma ignition_no_addrs:
  assumes "good_connector c" "con_Addrs c = []"
  shows "ok (ignition_lines prefix_str addr_str c)"
proof -
  have "\<exists>t. foldm (ignition_route prefix_str addr_str) (List.enumerate n rs) s = Inr t"
    if "\<forall>r\<in>set rs. ok (parseRoute r)" for n rs s
    using that
  proof (induction rs arbitrary: n s)
    case (Cons r rs)
    then obtain x where "parseRoute r = Inr x" by (auto simp: ok_iff)
    then have "\<exists>u. ignition_route prefix_str addr_str (n, r) s = Inr u"
      by (cases s) (auto simp: ignition_route_def mustParseRoute_eq Let_def)
    with Cons show ?case by auto
  qed simp
  with assms show ?thesis by (simp add: ignition_lines_def good_connector_def ok_iff)
qed

end
