(* ===== verification/Props_Lab.thy ===== *)
theory Props_Lab
  imports Props_Data DefaultMacs DefaultNodes CloudInit
begin

text \<open>
  Properties of the operator configuration, of the validation of a lab and of its defaulting.
\<close>

section \<open>Defaults of a node\<close>

text \<open>C28
  Filling the cards of an SR VM gives the same cards in whichever order the slots are visited, and filling
  them a second time changes nothing.
\<close>

theorem fill_cards_order:
  assumes "srvm_Chassis v = Some ch" "ch_Type ch = Some nt" "unshared ch" "fillable ch nt h"
    and "ok (SRChassis_Validate (map_chassis h ch))"
    and "set cs = set (entries (ch_Cards ch))" "wfmap cs"
  shows "\<exists>h'. SRVM_FillDefaultVal ptr v h = Inr h' \<and>
    SRVM_FillDefaultVal ptr (v\<lparr>srvm_Chassis := Some (ch\<lparr>ch_Cards := Some cs\<rparr>)\<rparr>) h = Inr h' \<and>
    SRVM_FillDefaultVal ptr v h' = Inr h'"
proof -
  let ?ch = "ch\<lparr>ch_Cards := Some cs\<rparr>"
  obtain h' where h': "SRVM_FillDefaultVal ptr v h = Inr h'" "defaulted ptr ch nt h h'"
    using SRVM_fill_spec [OF assms(1-3,5,4)] by blast
  have perm: "mset cs = mset (entries (ch_Cards ch))"
    using assms(3,6,7) by (simp add: unshared_def wfmap_def distinct_map set_eq_iff_mset_eq_distinct [symmetric])
  have unsh: "unshared ?ch"
    using assms(3,7) mset_eq_imp_distinct_iff [of "map snd cs" "map snd (entries (ch_Cards ch))"] perm
    by (simp add: unshared_def mset_map)
  have val: "ok (SRChassis_Validate (map_chassis h ?ch))"
    using assms(5,6) by (auto simp: SRChassis_Validate_ok image_iff)
  obtain h2 where h2: "SRVM_FillDefaultVal ptr (v\<lparr>srvm_Chassis := Some ?ch\<rparr>) h = Inr h2" "defaulted ptr ?ch nt h h2"
    using SRVM_fill_spec [of "v\<lparr>srvm_Chassis := Some ?ch\<rparr>" ?ch nt h ptr] assms(2,4,6) unsh val
    by (auto simp: fillable_def)
  have "wfmap (entries (ch_Cards ch))" using assms(3) by (simp add: unshared_def)
  with defaulted_order [of "Some cs" ch ptr nt h h2] assms(6,7) h2(2) have "defaulted ptr ch nt h h2" by simp
  then have same: "h2 = h'" using defaulted_unique [OF h'(2)] by blast
  have grows: "store_grows h h'" by (rule defaulted_grows [OF h'(2)])
  have val': "ok (SRChassis_Validate (map_chassis h' ch))" using chassis_grows_validate [OF grows] assms(5) by simp
  have fill': "fillable ch nt h'" using assms(4) grows by (auto simp: fillable_def store_grows_def card_grows_def)
  obtain h3 where h3: "SRVM_FillDefaultVal ptr v h' = Inr h3" "defaulted ptr ch nt h' h3"
    using SRVM_fill_spec [OF assms(1-3) val' fill'] by blast
  have "h3 = h'" by (rule defaulted_unique [OF h3(2) defaulted_again [OF h'(2)]])
  then show ?thesis using h' h2 h3 same by blast
qed

text \<open>C37
  The system information of a card is written once: whatever node is defaulted later over the same store
  of cards, a card that has it keeps it. Since the cards of the configuration's default chassis are shared
  by every lab that does not give its own, a second lab of another chassis model keeps the first one's text.
\<close>

theorem sysinfo_written_once:
  assumes "default_stages ro ptr g s = Inr s'" and "good_order ro" and "card_SysInfo (ds_cards s a) = Some t"
  shows "card_SysInfo (ds_cards s' a) = Some t"
proof -
  from default_stages_frame [OF assms(1)] obtain s1 where
    "stage_links ro s = Inr s1" "store_grows (ds_cards s1) (ds_cards s')" by blast
  moreover from this(1) have "ds_cards s1 = ds_cards s" by (rule stage_links_cards)
  ultimately show ?thesis using assms(3) by (simp add: store_grows_def card_grows_def)
qed

text \<open>A vSIM of two cards, at the addresses 0 and 1, and a store that holds them.\<close>

definition two_slots :: "string \<Rightarrow> nat SRChassis" where
  "two_slots model = new_chassis\<lparr>ch_Type := Some SRVMVSIM, ch_Model := Some model, ch_Cards := Some [(''A'', 0), (''1'', 1)],
     ch_ChassisMAC := Some ''02:cc:00:00:00:00''\<rparr>"

definition two_cards :: "string option \<Rightarrow> cards" where
  "two_cards sysinfo a = (if a = 0 then new_card\<lparr>card_Model := Some ''cpm5'', card_SysInfo := sysinfo\<rparr>
     else new_card\<lparr>card_Model := Some ''iom4-e''\<rparr>)"

definition one_vsim :: "string \<Rightarrow> cards \<Rightarrow> dstate" where
  "one_vsim model h = \<lparr>ds_nodes = [(''vsim-1'', new_OneOfSystem\<lparr>one_VSIM := Some (new_SRVM\<lparr>srvm_Chassis := Some (two_slots model)\<rparr>)\<rparr>)],
     ds_links = [], ds_cards = h, ds_off = 0\<rparr>"

definition same_order :: order where
  "same_order i ks = ks"

definition empty_config :: "nat KNLConfigSpec" where
  "empty_config = \<lparr>cfg_SFTPSever = None, cfg_VXLANGrpAddr = None, cfg_VXLANDefaultDev = None, cfg_VxDevMap = None,
     cfg_PVCStorageClass = None, cfg_SRCPMLoaderImage = None, cfg_SRIOMLoaderImage = None,
     cfg_SideCarHookImg = None, cfg_DefaultNode = Some new_OneOfSystem\<rparr>"

theorem fill_cards_order_witness:
  "\<exists>h'. SRVM_FillDefaultVal (\<lambda>_ _. []) (new_SRVM\<lparr>srvm_Chassis := Some (two_slots ''SR-7'')\<rparr>) (two_cards None) = Inr h' \<and>
    SRVM_FillDefaultVal (\<lambda>_ _. []) ((new_SRVM\<lparr>srvm_Chassis := Some (two_slots ''SR-7'')\<rparr>)
      \<lparr>srvm_Chassis := Some (two_slots ''SR-7''\<lparr>ch_Cards := Some [(''1'', 1), (''A'', 0)]\<rparr>)\<rparr>) (two_cards None) = Inr h' \<and>
    SRVM_FillDefaultVal (\<lambda>_ _. []) (new_SRVM\<lparr>srvm_Chassis := Some (two_slots ''SR-7'')\<rparr>) h' = Inr h'"
  by (rule fill_cards_order [where nt = SRVMVSIM])
    (auto simp: two_slots_def two_cards_def unshared_def wfmap_def fillable_def SRChassis_Validate_ok SRCard_Validate_ok
      new_chassis_def new_card_def)

lemma one_vsim_defaults: "ok (default_stages same_order (\<lambda>_ _. []) empty_config
    (one_vsim ''SR-14s'' (two_cards (Some ''chassis=SR-7 card=cpm5 slot=A ''))))"
proof -
  have links: "stage_links same_order (one_vsim model h) = Inr (one_vsim model h)" for model h
    by (simp add: stage_links_def one_vsim_def visit_def same_order_def)
  show ?thesis unfolding default_stages_def links bindr_Inr by code_simp
qed

theorem sysinfo_written_once_witness:
  "\<exists>s'. default_stages same_order (\<lambda>_ _. []) empty_config
      (one_vsim ''SR-14s'' (two_cards (Some ''chassis=SR-7 card=cpm5 slot=A ''))) = Inr s' \<and>
    card_SysInfo (ds_cards s' 0) = Some ''chassis=SR-7 card=cpm5 slot=A ''"
proof -
  obtain s' where s': "default_stages same_order (\<lambda>_ _. []) empty_config
      (one_vsim ''SR-14s'' (two_cards (Some ''chassis=SR-7 card=cpm5 slot=A ''))) = Inr s'"
    using one_vsim_defaults by (auto simp: ok_iff)
  have "card_SysInfo (ds_cards s' 0) = Some ''chassis=SR-7 card=cpm5 slot=A ''"
    by (rule sysinfo_written_once [OF s'])
      (simp_all add: good_order_def same_order_def one_vsim_def two_cards_def)
  with s' show ?thesis by blast
qed

section \<open>The configuration\<close>

text \<open>C29
  A configuration is accepted exactly when it has a multicast group that is an IPv6 multicast address, an SFTP server that is a
  host and port, a storage class, a side-car image and a VXLAN device, the default one or one per host, and when its images
  are references the image library parses. The two loader images, which the SR OS nodes need for images from
  the file server, may be missing.
\<close>

theorem config_accepted:
  "ok (KNLConfig_Validate X spec) \<longleftrightarrow>
    (\<exists>grp addr svr. cfg_VXLANGrpAddr spec = Some grp \<and> ParseAddr grp = Inr addr \<and> \<not> Is4 addr \<and> IsMulticast addr \<and>
       cfg_SFTPSever spec = Some svr \<and> IsHostPort svr) \<and>
    \<not> isStrNotSpecfied (cfg_PVCStorageClass spec) \<and>
    \<not> (isStrNotSpecfied (cfg_VXLANDefaultDev spec) \<and> entries (cfg_VxDevMap spec) = []) \<and>
    \<not> isStrNotSpecfied (cfg_SideCarHookImg spec) \<and>
    (\<forall>img\<in>{cfg_SRCPMLoaderImage spec, cfg_SRIOMLoaderImage spec, cfg_SideCarHookImg spec}.
       \<forall>i. img = Some i \<longrightarrow> reference_Parse X i = None)"
  by (rule KNLConfig_Validate_ok)

theorem config_accepted_witness:
  "ok (KNLConfig_Validate \<lparr>reference_Parse = \<lambda>_. None, shlex_Split = \<lambda>_. None\<rparr>
    (DefKNLConfig\<lparr>cfg_PVCStorageClass := Some ''nfs'', cfg_VXLANDefaultDev := Some ''eth0''\<rparr>))"
  unfolding config_accepted
  using default_group default_server default_sidecar not_specified_Some [of "''nfs''"] not_specified_Some [of "''eth0''"]
  by (simp add: DefKNLConfig_def is_space_def)

text \<open>
  A configuration that leaves the multicast group, the SFTP server and the side-car image to the defaulting
  webhook is accepted afterwards, once a storage class and a VXLAN device are given and the image references parse.
\<close>

lemma config_defaulted_accepted:
  assumes "cfg_VXLANGrpAddr (kc_Spec k) = None" "cfg_SFTPSever (kc_Spec k) = None" "cfg_SideCarHookImg (kc_Spec k) = None"
    and "\<not> isStrNotSpecfied (cfg_PVCStorageClass (kc_Spec k))" "\<not> isStrNotSpecfied (cfg_VXLANDefaultDev (kc_Spec k))"
    and "\<forall>img\<in>{cfg_SRCPMLoaderImage (kc_Spec k), cfg_SRIOMLoaderImage (kc_Spec k), cfg_SideCarHookImg DefKNLConfig}.
      \<forall>i. img = Some i \<longrightarrow> reference_Parse X i = None"
  shows "\<exists>k'. KNLConfig_Default (ObjKNLConfig k) = Inr (ObjKNLConfig k') \<and> ok (KNLConfig_ValidateCreate X (ObjKNLConfig k'))"
proof -
  let ?spec = "fill_KNLConfig (kc_Spec k) DefKNLConfig"
  have "cfg_VXLANDefaultDev ?spec = cfg_VXLANDefaultDev (kc_Spec k)"
    "cfg_PVCStorageClass ?spec = cfg_PVCStorageClass (kc_Spec k)"
    using assms(4,5) by (auto simp: fill_KNLConfig_def fillp_def isStrNotSpecfied_def split: option.splits)
  moreover have "cfg_SRCPMLoaderImage ?spec = cfg_SRCPMLoaderImage (kc_Spec k)"
    "cfg_SRIOMLoaderImage ?spec = cfg_SRIOMLoaderImage (kc_Spec k)"
    by (auto simp: fill_KNLConfig_def fillp_def DefKNLConfig_def split: option.splits)
  moreover have "cfg_VXLANGrpAddr ?spec = Some ''ff18::100''"
    "cfg_SFTPSever ?spec = Some ''knl-sftp-service.knl-system.svc.cluster.local:22''"
    "cfg_SideCarHookImg ?spec = Some ''ghcr.io/hujun-open/knl/knlsidecar:latest''"
    using assms(1-3) by (simp_all add: fill_KNLConfig_def fillp_def DefKNLConfig_def)
  ultimately have "ok (KNLConfig_Validate X ?spec)"
    unfolding KNLConfig_Validate_ok using assms(4-6) default_group default_server default_sidecar
    by (auto simp: DefKNLConfig_def)
  then show ?thesis by (simp add: KNLConfig_Default_def KNLConfig_ValidateCreate_def)
qed

definition bare_config :: "SRCard KNLConfigSpec" where
  "bare_config = \<lparr>cfg_SFTPSever = None, cfg_VXLANGrpAddr = None, cfg_VXLANDefaultDev = Some ''eth0'', cfg_VxDevMap = None,
     cfg_PVCStorageClass = Some ''nfs'', cfg_SRCPMLoaderImage = None, cfg_SRIOMLoaderImage = None,
     cfg_SideCarHookImg = None, cfg_DefaultNode = None\<rparr>"

definition bare_object :: "int \<Rightarrow> SRCard KNLConfig" where
  "bare_object gen = \<lparr>kc_Name = ''knlcfg'', kc_Namespace = ''knl-system'', kc_Generation = gen, kc_Spec = bare_config,
     kc_ObservedGeneration = None\<rparr>"

lemma config_defaulted_accepted_example:
  "\<exists>k'. KNLConfig_Default (ObjKNLConfig (bare_object 1)) = Inr (ObjKNLConfig k') \<and>
     ok (KNLConfig_ValidateCreate \<lparr>reference_Parse = \<lambda>_. None, shlex_Split = \<lambda>_. None\<rparr> (ObjKNLConfig k'))"
  by (rule config_defaulted_accepted)
    (simp_all add: bare_object_def bare_config_def isStrNotSpecfied_def TrimSpace_id is_space_def)

text \<open>
  A configuration object of the generation already in effect is ignored, whatever it says. Deleting the
  object and creating another one starts at generation 1 again, so the new one can be ignored.
\<close>

lemma config_same_generation_ignored:
  assumes "gc_generation g = kc_Generation k"
  shows "KNLConfig_Reconcile myns TARGET_KNLCONFIG_NAME myns (Inr k) g = (Inr (), None, g)"
  using assms by (simp add: Reconcile_target)

lemma config_same_generation_ignored_example:
  "KNLConfig_Reconcile ''knl-system'' TARGET_KNLCONFIG_NAME ''knl-system'' (Inr (bare_object 1))
     \<lparr>gc_config = DefKNLConfig, gc_generation = 1\<rparr> = (Inr (), None, \<lparr>gc_config = DefKNLConfig, gc_generation = 1\<rparr>) \<and>
   kc_Spec (bare_object 1) \<noteq> DefKNLConfig"
proof
  show "KNLConfig_Reconcile ''knl-system'' TARGET_KNLCONFIG_NAME ''knl-system'' (Inr (bare_object 1))
     \<lparr>gc_config = DefKNLConfig, gc_generation = 1\<rparr> = (Inr (), None, \<lparr>gc_config = DefKNLConfig, gc_generation = 1\<rparr>)"
    by (rule config_same_generation_ignored) (simp add: bare_object_def)
qed (simp add: bare_object_def bare_config_def DefKNLConfig_def)

text \<open>C34
  Loading the configured defaults into the nodes of a lab succeeds when every node has a type and the
  configuration has a default node, and changes neither the node names, nor their order, nor their types.
\<close>

theorem load_defaults_keeps_types:
  assumes "\<forall>one\<in>snd ` set nodes. one_fields one \<noteq> []" and "cfg_DefaultNode def \<noteq> None"
  shows "\<exists>nodes'. LoadDef nodes def = Inr nodes' \<and> map fst nodes' = map fst nodes \<and> tys_at nodes' = tys_at nodes"
proof -
  obtain nodes' where "LoadDef nodes def = Inr nodes'" using LoadDef_ok [OF assms] by blast
  with LoadDef_tys [OF this] show ?thesis by blast
qed

theorem load_defaults_keeps_types_witness:
  "let nodes = [(''vsim-1'', new_OneOfSystem\<lparr>one_VSIM := Some new_SRVM\<rparr>)]
   in \<exists>nodes'. LoadDef nodes DefKNLConfig = Inr nodes' \<and> map fst nodes' = map fst nodes \<and> tys_at nodes' = tys_at nodes"
  unfolding Let_def
  by (rule load_defaults_keeps_types) (simp_all add: one_fields_def new_OneOfSystem_def DefKNLConfig_def)

section \<open>Validation of a lab\<close>

text \<open>C22
  The conditions under which the spec of a lab is accepted: at least one node, exactly one node type in
  every node and its own validation passed, at least two named connectors on every link, with addresses
  that are unicast prefixes, routes and MAC addresses that parse.
\<close>

theorem lab_accepted:
  "ok (LabSpec_Validate X spec) \<longleftrightarrow>
    entries (lab_NodeList spec) \<noteq> [] \<and>
    (\<forall>(n, one)\<in>set (entries (lab_NodeList spec)). \<exists>s name. one_fields one = [(s, name)] \<and>
       ok (System_Validate X (entries (lab_LinkList spec)) n s)) \<and>
    (\<forall>link\<in>snd ` set (entries (lab_LinkList spec)). 2 \<le> length (link_Connectors link) \<and>
       (\<forall>c\<in>set (link_Connectors link). good_connector c))"
  by (simp add: LabSpec_Validate_ok Link_Validate_ok)

definition pod_connector :: "string \<Rightarrow> Connector" where
  "pod_connector n = \<lparr>con_NodeName = Some n, con_PortId = None, con_Addrs = [], con_Routes = [], con_Mac = None\<rparr>"

definition two_pods :: "SRCard LabSpec" where
  "two_pods = \<lparr>lab_NodeList = Some (map (\<lambda>n. (n, new_OneOfSystem\<lparr>one_Pod := Some (new_GeneralPod
       \<lparr>gpod_Image := Some ''debian'', gpod_PvcSize := Some (MustParse ''1Gi'')\<rparr>)\<rparr>)) [''pod-1'', ''pod-2'']),
     lab_LinkList = Some [(''l'', \<lparr>link_Connectors = [pod_connector ''pod-1'', pod_connector ''pod-2'']\<rparr>)]\<rparr>"

definition all_parse :: Externs where
  "all_parse = \<lparr>reference_Parse = \<lambda>_. None, shlex_Split = \<lambda>_. None\<rparr>"

lemmas two_pods_simps = two_pods_def pod_connector_def all_parse_def one_fields_def new_OneOfSystem_def
  new_GeneralPod_def good_connector_def System_Validate_def GeneralPod_Validate_def named_def

theorem lab_accepted_witness: "ok (LabSpec_Validate all_parse two_pods)"
  unfolding lab_accepted by (simp add: two_pods_simps)

text \<open>C23
  Validation of a lab whose connectors all name a node never panics, and whether it accepts does not depend
  on the order in which nodes and links are visited.
\<close>

theorem lab_validation_total_and_ordered:
  assumes "named (entries (lab_LinkList spec))"
    and "set (entries (lab_NodeList spec)) = set (entries (lab_NodeList spec'))"
    and "set (entries (lab_LinkList spec)) = set (entries (lab_LinkList spec'))"
  shows "\<not> panics (LabSpec_Validate X spec) \<and> (ok (LabSpec_Validate X spec) \<longleftrightarrow> ok (LabSpec_Validate X spec'))"
  using LabSpec_Validate_no_panic [OF assms(1)] LabSpec_Validate_order [OF assms(2,3)] by blast

theorem lab_validation_total_and_ordered_witness:
  "\<not> panics (LabSpec_Validate all_parse two_pods) \<and> (ok (LabSpec_Validate all_parse two_pods) \<longleftrightarrow>
     ok (LabSpec_Validate all_parse (two_pods\<lparr>lab_NodeList := map_option rev (lab_NodeList two_pods)\<rparr>)))"
  by (rule lab_validation_total_and_ordered) (auto simp: two_pods_simps)

text \<open>C24
  An update of a lab is let through only if it changes nothing: the new spec has as many nodes and links as
  the old one, every node of it is in the old one with an equal definition, every link with the same connectors.
\<close>

theorem lab_update_immutable:
  assumes "ok (Lab_ValidateUpdate X (ObjLab old) (ObjLab new))"
  shows "length (entries (lab_NodeList (lab_Spec new))) = length (entries (lab_NodeList (lab_Spec old))) \<and>
    length (entries (lab_LinkList (lab_Spec new))) = length (entries (lab_LinkList (lab_Spec old))) \<and>
    (\<forall>(n, one)\<in>set (entries (lab_NodeList (lab_Spec new))).
      \<exists>one'. map_of (entries (lab_NodeList (lab_Spec old))) n = Some one' \<and> deq_one one one') \<and>
    (\<forall>(l, link)\<in>set (entries (lab_LinkList (lab_Spec new))). map_of (entries (lab_LinkList (lab_Spec old))) l = Some link)"
proof -
  have "deq_labspec (lab_Spec new) (lab_Spec old)"
    using assms by (auto simp: Lab_ValidateUpdate_def split: if_splits)
  then have "deq_map deq_one (lab_NodeList (lab_Spec new)) (lab_NodeList (lab_Spec old))"
    "deq_map (=) (lab_LinkList (lab_Spec new)) (lab_LinkList (lab_Spec old))" by (simp_all add: deq_labspec_def)
  note eq = this
  from eq have "length (entries (lab_NodeList (lab_Spec new))) = length (entries (lab_NodeList (lab_Spec old)))"
    "length (entries (lab_LinkList (lab_Spec new))) = length (entries (lab_LinkList (lab_Spec old)))"
    by (auto simp: deq_map_def split: option.splits)
  moreover have "\<forall>(n, one)\<in>set (entries (lab_NodeList (lab_Spec new))).
      \<exists>one'. map_of (entries (lab_NodeList (lab_Spec old))) n = Some one' \<and> deq_one one one'"
    using deq_map_keys [OF eq(1)] by blast
  moreover have "\<forall>(l, link)\<in>set (entries (lab_LinkList (lab_Spec new))).
      map_of (entries (lab_LinkList (lab_Spec old))) l = Some link"
    using deq_map_keys [OF eq(2)] by blast
  ultimately show ?thesis by blast
qed

definition pods_lab :: "SRCard Lab" where
  "pods_lab = \<lparr>lab_Name = ''lab1'', lab_Namespace = ''knl-system'', lab_UID = ''u1'', lab_Spec = two_pods\<rparr>"

lemma two_pods_ok: "ok (LabSpec_Validate all_parse two_pods)"
  by (simp add: LabSpec_Validate_ok Link_Validate_ok two_pods_simps)

theorem lab_update_immutable_witness:
  "ok (Lab_ValidateUpdate all_parse (ObjLab pods_lab) (ObjLab pods_lab)) \<and>
   map_of (entries (lab_LinkList (lab_Spec pods_lab))) ''l'' =
     Some \<lparr>link_Connectors = [pod_connector ''pod-1'', pod_connector ''pod-2'']\<rparr>"
proof -
  have "deq_labspec two_pods two_pods" by (simp add: deq_labspec_def deq_map_def deq_one_def deq_ptr_def two_pods_simps)
  then have okay: "ok (Lab_ValidateUpdate all_parse (ObjLab pods_lab) (ObjLab pods_lab))"
    using two_pods_ok by (simp add: Lab_ValidateUpdate_def pods_lab_def)
  have "map_of (entries (lab_LinkList (lab_Spec pods_lab))) ''l'' =
     Some \<lparr>link_Connectors = [pod_connector ''pod-1'', pod_connector ''pod-2'']\<rparr>"
    using lab_update_immutable [OF okay] by (simp add: pods_lab_def two_pods_def)
  with okay show ?thesis by blast
qed

text \<open>
  A static route is read exactly when it has the form prefix, the word via, address, in any letter case and
  with blanks around the parts, prefix and next hop of one address family.
\<close>

lemma route_syntax:
  "parseRoute s = Inr r \<longleftrightarrow>
    (\<exists>a b. Split (ToLower s) ''via'' = [a, b] \<and> ParsePrefix (TrimSpace a) = Inr (route_To r) \<and>
       ParseAddr (TrimSpace b) = Inr (route_Via r) \<and> (Is4 (fst (route_To r)) \<longleftrightarrow> Is4 (route_Via r)))"
  by (rule parseRoute_ok)

section \<open>Addresses of a VM\<close>

text \<open>
  The cloud-init network data of a VM is built without panic from every connector that passed validation and
  has a MAC address: one entry for the interface, with its addresses and routes in the order given.
\<close>

lemma cloudinit_of_validated:
  assumes "ok (connector_check (i, c))" "con_Mac c = Some mac"
  shows "\<exists>ps rs. list_all2 (\<lambda>s p. ParsePrefix s = Inr p) (con_Addrs c) ps \<and>
    list_all2 (\<lambda>s r. parseRoute s = Inr r) (con_Routes c) rs \<and>
    AddConnector nicName c netcfg =
      Inr (netcfg\<lparr>ci_Ethernets := AList.update nicName
        \<lparr>nic_Dhcp4 = False, nic_Macaddress = mac, nic_Addresses = ps, nic_Routes = rs\<rparr> (ci_Ethernets netcfg)\<rparr>)"
  using AddConnector_eq [of c mac nicName netcfg] assms by (simp add: connector_check_ok)

definition addr_connector :: "string list \<Rightarrow> Connector" where
  "addr_connector addrs = \<lparr>con_NodeName = Some ''vm-1'', con_PortId = None, con_Addrs = addrs, con_Routes = [],
     con_Mac = Some ''12:20:22:00:00:01''\<rparr>"

lemma mac_ok: "ok (ParseMAC ''12:20:22:00:00:01'')"
  by code_simp

lemma prefix_ok: "ParsePrefix ''10.0.0.1/24'' = Inr (V4 [10, 0, 0, 1], 24)"
  by code_simp

lemma cloudinit_of_validated_example:
  "\<exists>ps rs. list_all2 (\<lambda>s p. ParsePrefix s = Inr p) [''10.0.0.1/24''] ps \<and>
    list_all2 (\<lambda>s r. parseRoute s = Inr r) [] rs \<and>
    AddConnector ''nic1'' (addr_connector [''10.0.0.1/24'']) getDefCloudinitNetworkCfg =
      Inr (getDefCloudinitNetworkCfg\<lparr>ci_Ethernets := AList.update ''nic1''
        \<lparr>nic_Dhcp4 = False, nic_Macaddress = ''12:20:22:00:00:01'', nic_Addresses = ps, nic_Routes = rs\<rparr>
        (ci_Ethernets getDefCloudinitNetworkCfg)\<rparr>)"
  using cloudinit_of_validated [of 0 "addr_connector [''10.0.0.1/24'']" "''12:20:22:00:00:01''" "''nic1''" getDefCloudinitNetworkCfg]
    mac_ok prefix_ok
  by (simp add: connector_check_ok good_connector_def addr_connector_def IsMulticast_def)

text \<open>C40
  The ignition path does not work for any validated connector that has addresses: validation asks for
  prefixes, and this path parses them as addresses, with a call that panics on anything else.
\<close>

theorem ignition_panics_on_addresses:
  assumes "ok (connector_check (i, c))" and "con_Addrs c \<noteq> []"
  shows "panics (ignition_lines prefix_str addr_str c)"
  using ignition_panics [of c] assms by (simp add: connector_check_ok)

theorem ignition_panics_on_addresses_witness:
  "panics (ignition_lines (\<lambda>_. []) (\<lambda>_. []) (addr_connector [''10.0.0.1/24'']))"
  using ignition_panics_on_addresses [of 0 "addr_connector [''10.0.0.1/24'']"] mac_ok prefix_ok
  by (simp add: connector_check_ok good_connector_def addr_connector_def IsMulticast_def)

end
