(* ===== verification/Props_Default.thy ===== *)
theory Props_Default
  imports Props_Lab
begin

text \<open>
  Properties of the defaulting webhook of a lab as a whole: MAC addresses, the set of nodes and
  their types, and two cases in which the result is not what was meant.
\<close>

section \<open>Running the webhook\<close>

definition lab_links :: "'c Lab \<Rightarrow> Link gomap" where
  "lab_links lab = entries (lab_LinkList (lab_Spec lab))"

definition lab_nodes :: "'c Lab \<Rightarrow> 'c OneOfSystem gomap" where
  "lab_nodes lab = entries (lab_NodeList (lab_Spec lab))"

lemma Lab_Default_stages:
  assumes "Lab_Default ro ptr g (ObjLab lab) h = Inr (ObjLab lab', h')"
  obtains s' where "default_stages ro ptr g
      \<lparr>ds_nodes = lab_nodes lab, ds_links = lab_links lab, ds_cards = h, ds_off = 0\<rparr> = Inr s'"
    "lab_nodes lab' = ds_nodes s'" "h' = ds_cards s'" "lab_LinkList (lab_Spec lab) \<noteq> None \<Longrightarrow> lab_links lab' = ds_links s'"
proof -
  from assms obtain s' where run: "default_stages ro ptr g
      \<lparr>ds_nodes = lab_nodes lab, ds_links = lab_links lab, ds_cards = h, ds_off = 0\<rparr> = Inr s'"
    and lab': "lab' = lab\<lparr>lab_Spec := \<lparr>lab_NodeList = Some (ds_nodes s'),
      lab_LinkList = map_option (\<lambda>_. ds_links s') (lab_LinkList (lab_Spec lab))\<rparr>\<rparr>" "h' = ds_cards s'"
    by (auto simp: Lab_Default_def Let_def lab_nodes_def lab_links_def bindr_eq_Inr)
  show thesis by (rule that [OF run]) (auto simp: lab' lab_nodes_def lab_links_def)
qed

lemma mac_at_inj:
  assumes "mac_at i = mac_at j" "\<bar>i - j\<bar> < 2 ^ 48"
  shows "i = j"
proof -
  from DeriveMac_at [of i] obtain a where a: "DeriveMac BaseMACAddr i = Inr a" "mac_at i = mac_String a" "length a = 6" by blast
  from DeriveMac_at [of j] obtain b where b: "DeriveMac BaseMACAddr j = Inr b" "mac_at j = mac_String b" "length b = 6" by blast
  have "a = b" using mac_String_inj [OF a(3) b(3)] a(2) b(2) assms(1) by simp
  then have "DeriveMac BaseMACAddr i = DeriveMac BaseMACAddr j" using a(1) b(1) by simp
  then show ?thesis using DeriveMac_inj [of BaseMACAddr i j] assms(2) by simp
qed

text \<open>A lab of two pods and two links, and the two orders of visiting the links.\<close>

definition two_links :: "nat Lab" where
  "two_links = \<lparr>lab_Name = ''lab1'', lab_Namespace = ''ns'', lab_UID = ''u1'', lab_Spec = \<lparr>lab_NodeList = None,
     lab_LinkList = Some (map (\<lambda>l. (l, \<lparr>link_Connectors = [pod_connector ''pod-1'', pod_connector ''pod-2'']\<rparr>)) [''l1'', ''l2''])\<rparr>\<rparr>"

definition link_order :: "bool \<Rightarrow> order" where
  "link_order b i ks = (if i = 0 \<and> b then rev ks else ks)"

definition with_mac :: "string \<Rightarrow> int \<Rightarrow> Connector" where
  "with_mac n off = (pod_connector n)\<lparr>con_Mac := Some (mac_at off)\<rparr>"

definition pods_state :: "cards \<Rightarrow> (string \<Rightarrow> int \<Rightarrow> Connector) \<Rightarrow> int \<Rightarrow> int \<Rightarrow> dstate" where
  "pods_state h con i j = \<lparr>ds_nodes = [(''pod-1'', new_OneOfSystem), (''pod-2'', new_OneOfSystem)],
     ds_links = [(''l1'', \<lparr>link_Connectors = [con ''pod-1'' (i + 1), con ''pod-2'' (i + 2)]\<rparr>),
                 (''l2'', \<lparr>link_Connectors = [con ''pod-1'' (j + 1), con ''pod-2'' (j + 2)]\<rparr>)],
     ds_cards = h, ds_off = 4\<rparr>"

lemma link_order_good: "good_order (link_order b)"
  by (simp add: good_order_def link_order_def)

lemma two_links_facts:
  "lab_LinkList (lab_Spec two_links) \<noteq> None" "wfmap (lab_links two_links)" "named (lab_links two_links)"
  "total_connectors (lab_links two_links) = 4" "(''l1'', 0) \<in> places (lab_links two_links)"
  "con_Mac (connector_at (lab_links two_links) (''l1'', 0)) = None"
  "mac_off (link_order False 0) (lab_links two_links) (''l1'', 0) = 1"
  "mac_off (link_order True 0) (lab_links two_links) (''l1'', 0) = 3"
  by (simp_all add: two_links_def lab_links_def wfmap_def named_def pod_connector_def total_connectors_def places_def
      connector_at_def mac_off_def link_order_def visit_def)

lemma pods_rest:
  "ok (bindr (stage_types (link_order b) (stage_cpm (link_order b) (pods_state h con i j))) (\<lambda>s.
     bindr (stage_load (link_order b) empty_config s) (\<lambda>s.
     bindr (stage_fill (link_order b) (\<lambda>_ _. []) s) (\<lambda>s.
     bindr (stage_ports (link_order b) s) stage_macs))))"
  if "\<And>n off. con n off = \<lparr>con_NodeName = Some n, con_PortId = None, con_Addrs = [], con_Routes = [], con_Mac = m off\<rparr>"
  unfolding pods_state_def that by code_simp

lemma two_links_default: "\<exists>lab' h'. Lab_Default (link_order b) (\<lambda>_ _. []) empty_config (ObjLab two_links) h = Inr (ObjLab lab', h')"
proof -
  let ?s = "(\<lparr>ds_nodes = [], ds_links = lab_links two_links, ds_cards = h, ds_off = 0\<rparr>) :: dstate"
  note eq = stage_links_eq(1) [OF link_order_good [of b], of ?s, unfolded dstate.simps, OF two_links_facts(2,3)]
  have links: "stage_links (link_order b) ?s = Inr (pods_state h with_mac (if b then 2 else 0) (if b then 0 else 2))"
    unfolding eq
    by (cases b) (simp_all add: two_links_def lab_links_def link_order_def visit_def pods_state_def with_mac_def
      pod_connector_def total_connectors_def connector_names_def add_node_def)
  have "ok (default_stages (link_order b) (\<lambda>_ _. []) empty_config ?s)"
    unfolding default_stages_def links bindr_Inr
    by (rule pods_rest [where m = "\<lambda>off. Some (mac_at off)"]) (simp add: with_mac_def pod_connector_def)
  then show ?thesis
    by (auto simp: ok_iff Lab_Default_def two_links_def lab_links_def Let_def)
qed

section \<open>MAC addresses of connectors\<close>

text \<open>C1
  After defaulting, every connector that had a MAC address keeps it, every other one has got one that
  parses, and no two of those are equal, whatever order the links were visited in.
\<close>

theorem defaulted_macs_distinct:
  assumes "Lab_Default ro ptr g (ObjLab lab) h = Inr (ObjLab lab', h')" "good_order ro"
    and "lab_LinkList (lab_Spec lab) \<noteq> None" "wfmap (lab_links lab)" "named (lab_links lab)"
    and "total_connectors (lab_links lab) < 16777216"
  shows "(\<forall>p\<in>places (lab_links lab). case con_Mac (connector_at (lab_links lab) p) of
        Some m \<Rightarrow> con_Mac (connector_at (lab_links lab') p) = Some m
      | None \<Rightarrow> \<exists>m. con_Mac (connector_at (lab_links lab') p) = Some m \<and> ok (ParseMAC m)) \<and>
    inj_on (\<lambda>p. con_Mac (connector_at (lab_links lab') p))
      {p \<in> places (lab_links lab). con_Mac (connector_at (lab_links lab) p) = None}"
proof -
  let ?L = "lab_links lab" and ?L' = "lab_links lab'"
  from Lab_Default_stages [OF assms(1)] obtain s' where run: "default_stages ro ptr g
      \<lparr>ds_nodes = lab_nodes lab, ds_links = ?L, ds_cards = h, ds_off = 0\<rparr> = Inr s'"
    and links: "?L' = ds_links s'" using assms(3) by metis
  let ?off = "mac_off (ro 0) ?L"
  note macs = default_macs [OF run assms(2), unfolded dstate.simps links [symmetric], OF assms(4,5) refl]
  note inj = macs(1) and off = macs(2)
  have given: "case con_Mac (connector_at ?L p) of
        Some m \<Rightarrow> con_Mac (connector_at ?L' p) = Some m
      | None \<Rightarrow> \<exists>m. con_Mac (connector_at ?L' p) = Some m \<and> ok (ParseMAC m)" if p: "p \<in> places ?L" for p
  proof (cases "con_Mac (connector_at ?L p)")
    case None
    obtain hw where hw: "DeriveMac BaseMACAddr (?off p) = Inr hw" "mac_at (?off p) = mac_String hw"
      using DeriveMac_at by blast
    have "ParseMAC (mac_String hw) = Inr hw" by (rule ParseMAC_derived [OF _ hw(1)]) simp
    then show ?thesis using off [OF p] None hw(2) by simp
  qed (use off [OF p] in simp)
  have "inj_on (\<lambda>p. con_Mac (connector_at ?L' p)) {p \<in> places ?L. con_Mac (connector_at ?L p) = None}"
  proof (rule inj_onI)
    fix p q
    assume p: "p \<in> {p \<in> places ?L. con_Mac (connector_at ?L p) = None}"
      and q: "q \<in> {p \<in> places ?L. con_Mac (connector_at ?L p) = None}"
      and eq: "con_Mac (connector_at ?L' p) = con_Mac (connector_at ?L' q)"
    have "mac_at (?off p) = mac_at (?off q)" using p q eq off [of p] off [of q] by simp
    moreover have "\<bar>?off p - ?off q\<bar> < 2 ^ 48" using off [of p] off [of q] p q assms(6) by auto
    ultimately have "?off p = ?off q" by (rule mac_at_inj)
    then show "p = q" using inj p q by (simp add: inj_on_eq_iff)
  qed
  with given show ?thesis by blast
qed

theorem defaulted_macs_distinct_witness:
  "\<exists>lab' h'. Lab_Default (link_order True) (\<lambda>_ _. []) empty_config (ObjLab two_links) (two_cards None) = Inr (ObjLab lab', h') \<and>
    inj_on (\<lambda>p. con_Mac (connector_at (lab_links lab') p))
      {p \<in> places (lab_links two_links). con_Mac (connector_at (lab_links two_links) p) = None}"
proof -
  obtain lab' h' where run: "Lab_Default (link_order True) (\<lambda>_ _. []) empty_config (ObjLab two_links) (two_cards None) = Inr (ObjLab lab', h')"
    using two_links_default by blast
  from defaulted_macs_distinct [OF run link_order_good two_links_facts(1-3)] run show ?thesis
    by (simp add: two_links_facts(4))
qed

section \<open>Nodes and types\<close>

text \<open>C17
  The nodes of a defaulted lab are those given, those named by a connector, and the first CPM of each
  distributed chassis among these; a given node with a type keeps it, every other gets the type of its name,
  so that each node has exactly one type.
\<close>

theorem defaulted_nodes:
  assumes "Lab_Default ro ptr g (ObjLab lab) h = Inr (ObjLab lab', h')" "good_order ro"
    and "wfmap (lab_links lab)" "named (lab_links lab)" "wfmap (lab_nodes lab)"
  shows "wfmap (lab_nodes lab') \<and>
    tys_at (lab_nodes lab') n =
      (case tys_at (lab_nodes lab) n of
         Some ts \<Rightarrow> Some (if ts = [] then [GetNodeTypeViaName n] else ts)
       | None \<Rightarrow> if n \<in> wanted_nodes (fst ` set (lab_nodes lab)) (lab_links lab) then Some [GetNodeTypeViaName n] else None)"
proof -
  from Lab_Default_stages [OF assms(1)] obtain s' where run: "default_stages ro ptr g
      \<lparr>ds_nodes = lab_nodes lab, ds_links = lab_links lab, ds_cards = h, ds_off = 0\<rparr> = Inr s'"
    and nodes: "lab_nodes lab' = ds_nodes s'" by metis
  show ?thesis unfolding nodes using default_tys [OF run assms(2)] assms(3-5) by simp
qed

theorem defaulted_nodes_witness:
  "\<exists>lab' h'. Lab_Default (link_order False) (\<lambda>_ _. []) empty_config (ObjLab two_links) (two_cards None) = Inr (ObjLab lab', h') \<and>
    wfmap (lab_nodes lab') \<and> tys_at (lab_nodes lab') ''pod-1'' = Some [GetNodeTypeViaName ''pod-1'']"
proof -
  obtain lab' h' where run: "Lab_Default (link_order False) (\<lambda>_ _. []) empty_config (ObjLab two_links) (two_cards None) = Inr (ObjLab lab', h')"
    using two_links_default by blast
  have "''pod-1'' \<in> wanted_nodes {} (lab_links two_links)"
    by (simp add: wanted_nodes_def link_nodes_def connectors_def two_links_def lab_links_def pod_connector_def)
  with defaulted_nodes [OF run link_order_good two_links_facts(2,3), of "''pod-1''"] run show ?thesis
    by (auto simp: two_links_def lab_nodes_def tys_at_def)
qed

section \<open>Applying a lab twice\<close>

definition map_lab :: "('c \<Rightarrow> 'd) \<Rightarrow> 'c Lab \<Rightarrow> 'd Lab" where
  "map_lab f lab = \<lparr>lab_Name = lab_Name lab, lab_Namespace = lab_Namespace lab, lab_UID = lab_UID lab,
     lab_Spec = map_labspec f (lab_Spec lab)\<rparr>"

text \<open>C35
  The MAC address a connector gets depends on the order in which the map of links happens to be visited, so
  the same manifest applied again is refused by the update webhook whenever the two visits give some
  connector different offsets: a lab of two links with no MAC addresses can be created but not re-applied.
\<close>

theorem reapplied_lab_refused:
  assumes "Lab_Default ro1 ptr g (ObjLab lab) h = Inr (ObjLab lab1, h1)" "good_order ro1"
    and "Lab_Default ro2 ptr g (ObjLab lab) h = Inr (ObjLab lab2, h2)" "good_order ro2"
    and "lab_LinkList (lab_Spec lab) \<noteq> None" "wfmap (lab_links lab)" "named (lab_links lab)"
    and "total_connectors (lab_links lab) < 16777216"
    and "p \<in> places (lab_links lab)" "con_Mac (connector_at (lab_links lab) p) = None"
    and "mac_off (ro1 0) (lab_links lab) p \<noteq> mac_off (ro2 0) (lab_links lab) p"
  shows "\<not> ok (Lab_ValidateUpdate X (ObjLab (map_lab h1 lab1)) (ObjLab (map_lab h2 lab2)))"
proof
  assume upd: "ok (Lab_ValidateUpdate X (ObjLab (map_lab h1 lab1)) (ObjLab (map_lab h2 lab2)))"
  let ?L = "lab_links lab"
  from Lab_Default_stages [OF assms(1)] obtain s1 where run1: "default_stages ro1 ptr g
      \<lparr>ds_nodes = lab_nodes lab, ds_links = ?L, ds_cards = h, ds_off = 0\<rparr> = Inr s1"
    and l1: "lab_links lab1 = ds_links s1" using assms(5) by metis
  from Lab_Default_stages [OF assms(3)] obtain s2 where run2: "default_stages ro2 ptr g
      \<lparr>ds_nodes = lab_nodes lab, ds_links = ?L, ds_cards = h, ds_off = 0\<rparr> = Inr s2"
    and l2: "lab_links lab2 = ds_links s2" using assms(5) by metis
  note m1 = default_macs(2) [OF run1 assms(2), unfolded dstate.simps, OF assms(6,7) refl assms(9)]
  note m2 = default_macs(2) [OF run2 assms(4), unfolded dstate.simps, OF assms(6,7) refl assms(9)]
  have "deq_labspec (lab_Spec (map_lab h2 lab2)) (lab_Spec (map_lab h1 lab1))"
    using upd by (auto simp: Lab_ValidateUpdate_def split: if_splits)
  then have deq: "deq_map (=) (lab_LinkList (lab_Spec lab2)) (lab_LinkList (lab_Spec lab1))"
    by (simp add: deq_labspec_def map_lab_def map_labspec_def)
  obtain ln i where p: "p = (ln, i)" by fastforce
  from assms(9) p have "ln \<in> fst ` set ?L" by (auto simp: places_def dest: map_of_SomeD intro: rev_image_eqI)
  moreover have keys: "map fst (lab_links lab2) = map fst ?L"
    using default_links_keys [OF run2 assms(4)] assms(6,7) l2 by simp
  ultimately have "ln \<in> fst ` set (lab_links lab2)" by (metis set_map)
  then obtain link where link: "(ln, link) \<in> set (lab_links lab2)" by auto
  have "map_of (lab_links lab1) ln = Some link"
    using deq_map_keys [OF deq] link unfolding lab_links_def by blast
  moreover have "map_of (lab_links lab2) ln = Some link"
    using link keys assms(6) by (simp add: wfmap_def)
  ultimately have "mac_at (mac_off (ro1 0) ?L p) = mac_at (mac_off (ro2 0) ?L p)"
    using m1 m2 assms(10) l1 l2 p by (simp add: connector_at_def)
  moreover have "\<bar>mac_off (ro1 0) ?L p - mac_off (ro2 0) ?L p\<bar> < 2 ^ 48" using m1 m2 assms(8) by auto
  ultimately show False using mac_at_inj assms(11) by blast
qed

theorem reapplied_lab_refused_witness:
  "\<exists>lab1 h1 lab2 h2.
    Lab_Default (link_order False) (\<lambda>_ _. []) empty_config (ObjLab two_links) (two_cards None) = Inr (ObjLab lab1, h1) \<and>
    Lab_Default (link_order True) (\<lambda>_ _. []) empty_config (ObjLab two_links) (two_cards None) = Inr (ObjLab lab2, h2) \<and>
    \<not> ok (Lab_ValidateUpdate all_parse (ObjLab (map_lab h1 lab1)) (ObjLab (map_lab h2 lab2)))"
proof -
  obtain lab1 h1 where run1: "Lab_Default (link_order False) (\<lambda>_ _. []) empty_config (ObjLab two_links) (two_cards None) = Inr (ObjLab lab1, h1)"
    using two_links_default by blast
  obtain lab2 h2 where run2: "Lab_Default (link_order True) (\<lambda>_ _. []) empty_config (ObjLab two_links) (two_cards None) = Inr (ObjLab lab2, h2)"
    using two_links_default by blast
  from reapplied_lab_refused [OF run1 link_order_good run2 link_order_good two_links_facts(1-3) _ two_links_facts(5,6)]
  have "\<not> ok (Lab_ValidateUpdate all_parse (ObjLab (map_lab h1 lab1)) (ObjLab (map_lab h2 lab2)))"
    by (simp add: two_links_facts(4,7,8))
  with run1 run2 show ?thesis by blast
qed

text \<open>Defaulting leaves the node names of the connectors as they are.\<close>

lemma default_link_nodes:
  assumes "default_stages ro ptr g s = Inr s'" "good_order ro" "wfmap (ds_links s)" "named (ds_links s)"
  shows "link_nodes (ds_links s') \<subseteq> link_nodes (ds_links s)"
proof
  fix n
  assume "n \<in> link_nodes (ds_links s')"
  then obtain ln link' c' where c': "(ln, link') \<in> set (ds_links s')" "c' \<in> set (link_Connectors link')" "con_NodeName c' = Some n"
    by (auto simp: link_nodes_def connectors_def)
  let ?L = "visit (ro 0) (ds_links s)"
  note eqs = stage_links_eq [OF assms(2-4)]
  obtain s1 where s1: "stage_links ro s = Inr s1" "ports_only (ds_links s1) (ds_links s')"
    using default_stages_frame [OF assms(1)] by metis
  then have l1: "ds_links s1 = mac_links (ds_off s) ?L (ds_links s)" using eqs(1) by auto
  have keys: "map fst (ds_links s') = map fst (ds_links s)" by (rule default_links_keys [OF assms])
  then have "wfmap (ds_links s')" using assms(3) by (simp add: wfmap_def)
  then have m': "map_of (ds_links s') ln = Some link'" using c'(1) by (simp add: wfmap_def)
  have "ln \<in> fst ` set (ds_links s)" using c'(1) keys by (metis fst_conv image_eqI image_set)
  then obtain link where l: "map_of (ds_links s) ln = Some link" by (metis map_of_eq_None_iff not_None_eq)
  have "map_of (ds_links s1) ln = Some (link\<lparr>link_Connectors := with_macs (start_off (ds_off s) ?L ln) (link_Connectors link)\<rparr>)"
    using l eqs(2,3) by (simp add: l1 map_of_mac_links wfmap_def)
  from ports_onlyD [OF s1(2) this] m'
  have ext: "list_all2 port_ext (with_macs (start_off (ds_off s) ?L ln) (link_Connectors link)) (link_Connectors link')" by auto
  from c'(2) obtain i where i: "i < length (link_Connectors link')" "link_Connectors link' ! i = c'" by (auto simp: in_set_conv_nth)
  then have len: "i < length (link_Connectors link)" using list_all2_lengthD [OF ext] by simp
  have "port_ext (with_macs (start_off (ds_off s) ?L ln) (link_Connectors link) ! i) c'"
    using list_all2_nthD2 [OF ext i(1)] i(2) by simp
  then have "con_NodeName (link_Connectors link ! i) = Some n"
    using c'(3) by (auto simp: nth_with_macs [OF len] port_ext_def)
  moreover have "link_Connectors link ! i \<in> connectors (ds_links s)"
    using map_of_SomeD [OF l] len unfolding connectors_def by (force intro: nth_mem)
  ultimately show "n \<in> link_nodes (ds_links s)" unfolding link_nodes_def by blast
qed

lemma cpm_name_type: "t = SRVMVSIM \<or> t = SRVMMAGC \<Longrightarrow> GetNodeTypeViaName (t @ ''-'' @ rest) = t"
  by (auto simp: GetNodeTypeViaName_def IndexByte_def)

text \<open>C38
  A vSIM or MAG-c node whose name has a third part, say vsim-1-west, brings another node into the lab that neither the
  user nor a link names: vsim-1-a, after the old scheme of one node per CPM. It stands beside the given node, is of
  the same type, and no connector of the defaulted lab names it.
\<close>

theorem phantom_cpm_node:
  assumes "Lab_Default ro ptr g (ObjLab lab) h = Inr (ObjLab lab', h')" "good_order ro"
    and "wfmap (lab_links lab)" "named (lab_links lab)" "wfmap (lab_nodes lab)"
    and "n \<in> fst ` set (lab_nodes lab)" "ParseSRVMName n = Inr (t, i, c)" "t = SRVMVSIM \<or> t = SRVMMAGC"
    and "t @ ''-'' @ Itoa i @ ''-a'' \<notin> fst ` set (lab_nodes lab)" "t @ ''-'' @ Itoa i @ ''-a'' \<notin> link_nodes (lab_links lab)"
  shows "n \<in> fst ` set (lab_nodes lab') \<and> tys_at (lab_nodes lab') (t @ ''-'' @ Itoa i @ ''-a'') = Some [t] \<and>
    t @ ''-'' @ Itoa i @ ''-a'' \<noteq> n \<and> t @ ''-'' @ Itoa i @ ''-a'' \<notin> link_nodes (lab_links lab')"
proof -
  let ?a = "t @ ''-'' @ Itoa i @ ''-a''"
  have "cpm_target n = Some ?a" using assms(7,8) by (auto simp: cpm_target_def)
  then have want: "?a \<in> wanted_nodes (fst ` set (lab_nodes lab)) (lab_links lab)"
    using assms(6) unfolding wanted_nodes_def Let_def by blast
  from Lab_Default_stages [OF assms(1)] obtain s' where run: "default_stages ro ptr g
      \<lparr>ds_nodes = lab_nodes lab, ds_links = lab_links lab, ds_cards = h, ds_off = 0\<rparr> = Inr s'"
    and nodes: "lab_nodes lab' = ds_nodes s'" and links: "lab_LinkList (lab_Spec lab) \<noteq> None \<Longrightarrow> lab_links lab' = ds_links s'" by metis
  note tys = default_tys(2) [OF run assms(2), unfolded dstate.simps, OF assms(3-5)]
  have new: "tys_at (lab_nodes lab) ?a = None" using assms(9) by (simp add: tys_at_def map_of_eq_None_iff)
  have "tys_at (lab_nodes lab') ?a = Some [t]"
    unfolding nodes tys [of ?a] new using want cpm_name_type [OF assms(8)] by simp
  moreover have "tys_at (lab_nodes lab') n \<noteq> None"
  proof -
    have "tys_at (lab_nodes lab) n \<noteq> None" using assms(6) by (simp add: tys_at_def map_of_eq_None_iff)
    then show ?thesis unfolding nodes tys [of n] by auto
  qed
  then have "n \<in> fst ` set (lab_nodes lab')" by (simp add: tys_at_def map_of_eq_None_iff)
  moreover have "?a \<notin> link_nodes (lab_links lab')"
  proof (cases "lab_LinkList (lab_Spec lab)")
    case None
    then have "lab_links lab' = []" using assms(1) by (auto simp: Lab_Default_def Let_def lab_links_def bindr_eq_Inr)
    then show ?thesis by (simp add: link_nodes_def connectors_def)
  next
    case (Some ls)
    then have "link_nodes (lab_links lab') \<subseteq> link_nodes (lab_links lab)"
      using default_link_nodes [OF run assms(2)] assms(3,4) links by simp
    then show ?thesis using assms(10) by blast
  qed
  moreover have "?a \<noteq> n" using assms(6,9) by metis
  ultimately show ?thesis by blast
qed

definition vsim_config :: "nat KNLConfigSpec" where
  "vsim_config = empty_config\<lparr>cfg_DefaultNode := Some (new_OneOfSystem
     \<lparr>one_VSIM := Some (new_SRVM\<lparr>srvm_Chassis := Some (two_slots ''SR-7'')\<rparr>)\<rparr>)\<rparr>"

definition west_lab :: "nat Lab" where
  "west_lab = \<lparr>lab_Name = ''lab1'', lab_Namespace = ''ns'', lab_UID = ''u1'',
     lab_Spec = \<lparr>lab_NodeList = Some [(''vsim-1-west'', new_OneOfSystem)], lab_LinkList = None\<rparr>\<rparr>"

definition west_state :: dstate where
  "west_state = \<lparr>ds_nodes = [(''vsim-1-west'', new_OneOfSystem)], ds_links = [], ds_cards = two_cards None, ds_off = 0\<rparr>"

lemma west_default: "\<exists>lab' h'. Lab_Default same_order (\<lambda>_ _. []) vsim_config (ObjLab west_lab) (two_cards None) = Inr (ObjLab lab', h')"
proof -
  have links: "stage_links same_order west_state = Inr west_state"
    by (simp add: stage_links_def west_state_def visit_def same_order_def)
  have "ok (default_stages same_order (\<lambda>_ _. []) vsim_config west_state)"
    unfolding default_stages_def links bindr_Inr by code_simp
  then show ?thesis
    by (auto simp: ok_iff Lab_Default_def west_lab_def west_state_def Let_def)
qed

theorem phantom_cpm_node_witness:
  "\<exists>lab' h'. Lab_Default same_order (\<lambda>_ _. []) vsim_config (ObjLab west_lab) (two_cards None) = Inr (ObjLab lab', h') \<and>
    ''vsim-1-west'' \<in> fst ` set (lab_nodes lab') \<and> tys_at (lab_nodes lab') ''vsim-1-a'' = Some [SRVMVSIM]"
proof -
  obtain lab' h' where run: "Lab_Default same_order (\<lambda>_ _. []) vsim_config (ObjLab west_lab) (two_cards None) = Inr (ObjLab lab', h')"
    using west_default by blast
  have name: "ParseSRVMName ''vsim-1-west'' = Inr (SRVMVSIM, 1, ''west'')" by code_simp
  have one: "Itoa 1 = ''1''" by code_simp
  have facts: "good_order same_order" "wfmap (lab_links west_lab)" "named (lab_links west_lab)" "wfmap (lab_nodes west_lab)"
    "''vsim-1-west'' \<in> fst ` set (lab_nodes west_lab)"
    by (simp_all add: good_order_def same_order_def west_lab_def lab_links_def lab_nodes_def wfmap_def named_def)
  have "''vsim-1-west'' \<in> fst ` set (lab_nodes lab') \<and> tys_at (lab_nodes lab') ''vsim-1-a'' = Some [SRVMVSIM]"
    using phantom_cpm_node [OF run facts name, unfolded one]
    by (simp add: west_lab_def lab_links_def lab_nodes_def link_nodes_def connectors_def)
  with run show ?thesis by blast
qed

end
