(* ===== verification/ClusterObjects.thy ===== *)
theory ClusterObjects
  imports Names
begin

text \<open>
  The objects the operator creates or reads: LANs, volume claims, config maps, pods, network
  attachments, data volumes, VMs and secrets. Their types come from Kubernetes and other
  operators; a record here has the fields that the code of this repository sets or reads.
  What the API server adds to an object on its own (status, defaults of fields the code leaves
  unset) is not part of a body, but for the phase of a VM and the data of a secret.
\<close>

section \<open>LANs of the k8slan operator\<close>

record LANSpec =
  lan_NS :: "string option"
  lan_BridgeName :: "string option"
  lan_VxLANName :: "string option"
  lan_VNI :: "int option"
  lan_DefaultVxDev :: string
  lan_VxDevMap :: "string gomap option"
  lan_VxPort :: "int option"
  lan_VxLANGrp :: "string option"
  lan_SpokeList :: "string list"

section \<open>Pods and volume claims\<close>

record VolumeMount =
  mnt_Name :: string
  mnt_Path :: string
  mnt_SubPath :: string

text \<open>\<open>ClaimVolume name readonly\<close> is a volume backed by a claim.\<close>

datatype VolumeSource =
    ClaimVolume string bool
  | ConfigMapVolume string
  | EmptyDirVolume quantity
  | SecretVolume string

record Volume =
  vol_Name :: string
  vol_Source :: VolumeSource

record SecurityContext =
  sec_Privileged :: "bool option"
  sec_RunAsUser :: "int option"
  sec_RunAsGroup :: "int option"

record Container =
  ctr_Name :: string
  ctr_Image :: string
  ctr_Command :: "string list"
  ctr_Env :: "(string \<times> string) list"
  ctr_Security :: "SecurityContext option"
  ctr_Mounts :: "VolumeMount list"
  ctr_PreStop :: "string list option"
  ctr_Limits :: "quantity gomap option"
  ctr_Requests :: "quantity gomap option"

record PodSpec =
  pod_InitContainers :: "Container list"
  pod_Containers :: "Container list"
  pod_Volumes :: "Volume list"

record PVCSpec =
  pvc_AccessModes :: "string list"
  pvc_StorageClass :: "string option"
  pvc_Storage :: "quantity option"

section \<open>Virtual machines\<close>

datatype DVSource = RegistrySource string | HTTPSource string

record DVSpec =
  dv_PVC :: PVCSpec
  dv_Source :: DVSource

text \<open>\<open>NoCloud userdata networkdata\<close> and \<open>ConfigDrive userdata\<close> are the volumes read at first boot.\<close>

datatype VMVolumeSource =
    DataVolume string
  | ContainerDisk string
  | NoCloud string string
  | ConfigDrive string

record VMVolume =
  vmv_Name :: string
  vmv_Source :: VMVolumeSource

record Disk =
  disk_Name :: string
  disk_Bus :: string

datatype NetworkSource = PodNetwork | MultusNetwork string

record Network =
  net_Name :: string
  net_Source :: NetworkSource

datatype Binding = Masquerade | BridgeBinding | PluginBinding string

record Interface =
  ifc_Name :: string
  ifc_Ports :: "Port list"
  ifc_MacAddress :: string
  ifc_Binding :: Binding

record CPU =
  cpu_Model :: string
  cpu_Cores :: int
  cpu_Dedicated :: bool
  cpu_IsolateEmulator :: bool

record Affinity =
  aff_Key :: string
  aff_Values :: "string list"
  aff_TopologyKey :: string

record VMISpec =
  vmi_CPU :: CPU
  vmi_UUID :: "string option"
  vmi_Guest :: "quantity option"
  vmi_Hugepages :: "string option"
  vmi_ReqMemory :: "quantity option"
  vmi_Graphics :: "bool option"
  vmi_SerialConsole :: "bool option"
  vmi_Volumes :: "VMVolume list"
  vmi_Disks :: "Disk list"
  vmi_Networks :: "Network list"
  vmi_Interfaces :: "Interface list"
  vmi_Affinity :: "Affinity option"

section \<open>Objects\<close>

text \<open>The body of a VM is its spec and its phase; that of a config map or a secret, its data.\<close>

datatype Body =
    LANBody LANSpec
  | LabBody "SRCard LabSpec"
  | PVCBody PVCSpec
  | ConfigMapBody "string gomap"
  | PodBody PodSpec
  | NADBody string
  | DVBody DVSpec
  | VMIBody VMISpec string
  | SecretBody "string gomap"
  | NoBody

record KObj =
  obj_Kind :: string
  obj_Meta :: ObjectMeta
  obj_Body :: Body

type_synonym key = "string \<times> string \<times> string"

definition obj_key :: "KObj \<Rightarrow> key" where
  "obj_key x = (obj_Kind x, meta_Namespace (obj_Meta x), meta_Name (obj_Meta x))"

text \<open>A new object, into which one is read: \<open>new(T)\<close>.\<close>

definition new_obj :: "string \<Rightarrow> KObj" where
  "new_obj kind = \<lparr>obj_Kind = kind, obj_Meta = GetObjMeta [] [] [] [] [], obj_Body = NoBody\<rparr>"

lemma new_obj_name [simp]: "meta_Name (obj_Meta (new_obj kind)) = []" "fst (obj_key (new_obj kind)) = kind"
  "obj_Kind (new_obj kind) = kind"
  by (simp_all add: new_obj_def obj_key_def)

end
