(* ===== verification/Cluster.thy ===== *)
theory Cluster
  imports Config ClusterObjects
begin

text \<open>
  Creating and removing cluster objects (k8s.go), over the client of the API server. The client
  is a parameter: a record of the calls the code makes, on a state of its own.
  \<open>client_laws\<close> states what the code relies on, through a view of the state as a map from kind,
  namespace and name to the object stored there. A failing call may have any effect on the
  object it is about, and none on others; but no \<open>Create\<close> changes an object that is there.

  \<open>SetControllerReference\<close> is a parameter of the parsed lab (\<open>SetOwnerFunc\<close>, parsed_lab.go).
\<close>

section \<open>The API client\<close>

record 's Client =
  clnt_Get :: "string \<Rightarrow> string \<Rightarrow> KObj \<Rightarrow> ('s, KObj) proc"
  clnt_Create :: "KObj \<Rightarrow> ('s, KObj) proc"
  clnt_Update :: "KObj \<Rightarrow> ('s, unit) proc"
  clnt_Delete :: "KObj \<Rightarrow> ('s, unit) proc"
  clnt_List :: "string \<Rightarrow> ('s, KObj list) proc"

definition IsNotFound :: "fault \<Rightarrow> bool" where
  "IsNotFound e = (case e of Err (NotFoundErr _) \<Rightarrow> True | _ \<Rightarrow> False)"

section \<open>Parsed labs (parsed_lab.go)\<close>

record ParsedLab =
  plab_Lab :: "SRCard Lab"
  plab_ConnectorMap :: "string list gomap"
  plab_SetOwnerFunc :: "KObj \<Rightarrow> KObj result"
  plab_SpokeMap :: "string list gomap gomap"
  plab_SpokeConnectorMap :: "Connector gomap"
  plab_SpokeLinkMap :: "string gomap"

section \<open>Create or remove (k8s.go)\<close>

definition MakeErr :: "('s, 'a) proc \<Rightarrow> ('s, 'a) proc" where
  "MakeErr m = wrapp ''[%s:%d]: %v'' [] m"

definition IsOwnedbyLab :: "KObj \<Rightarrow> ParsedLab \<Rightarrow> unit result" where
  "IsOwnedbyLab x lab =
     (let owners = meta_Owners (obj_Meta x); kind = obj_Kind x; name = meta_Name (obj_Meta x)
      in if owners = [] then errf ''%v %v already exists, and it doesn't have owner'' [kind, name]
         else if list_ex (\<lambda>w. own_UID w = lab_UID (plab_Lab lab)) owners then Inr ()
         else errf ''%v %v already exists and is owned by %v'' [kind, name, Join (map own_Name owners) '','' ])"

definition set_owner :: "ParsedLab \<Rightarrow> bool \<Rightarrow> KObj \<Rightarrow> ('s, KObj) proc" where
  "set_owner lab needOwner target = (if needOwner then MakeErr (liftp (plab_SetOwnerFunc lab target)) else retp target)"

definition createIfNotExistsOrRemove ::
  "'s Client \<Rightarrow> ParsedLab \<Rightarrow> KObj \<Rightarrow> bool \<Rightarrow> bool \<Rightarrow> ('s, unit) proc" where
  "createIfNotExistsOrRemove clnt lab target needOwner remove =
     bindp (set_owner lab needOwner target) (\<lambda>target s.
       case clnt_Get clnt (lab_Namespace (plab_Lab lab)) (meta_Name (obj_Meta target)) target s of
         (Inl e, s') \<Rightarrow>
           if IsNotFound e then
             if remove then (Inr (), s')
             else MakeErr (bindp (clnt_Create clnt target) (\<lambda>_. retp ())) s'
           else MakeErr (liftp (Inl e)) s'
       | (Inr found, s') \<Rightarrow>
           if remove then MakeErr (clnt_Delete clnt found) s'
           else if needOwner then MakeErr (liftp (IsOwnedbyLab found lab)) s'
           else (Inr (), s'))"

definition checkVMIfail :: "KObj \<Rightarrow> unit result" where
  "checkVMIfail x = (case obj_Body x of
      VMIBody _ phase \<Rightarrow>
        if phase = ''Failed'' \<or> phase = ''Succeeded'' then errf ''VMI %v is in phase %v'' [meta_Name (obj_Meta x), phase]
        else Inr ()
    | _ \<Rightarrow> errf ''object is not a vmi'' [])"

text \<open>
  \<open>WaitForObjGone\<close> (common.go) starts a goroutine whose context is cancelled when the function
  returns, and returns at once: the first poll, due after a second, never happens.
\<close>

definition WaitForObjGone :: "KObj \<Rightarrow> ('s, unit) proc" where
  "WaitForObjGone x = retp ()"

definition recreateIfFailed ::
  "'s Client \<Rightarrow> (KObj \<Rightarrow> unit result) \<Rightarrow> KObj \<Rightarrow> ('s, unit) proc" where
  "recreateIfFailed clnt chkFunc target =
     (case chkFunc target of
        Inr _ \<Rightarrow> retp ()
      | Inl (Panic p) \<Rightarrow> liftp (Inl (Panic p))
      | Inl (Err _) \<Rightarrow>
          bindp (clnt_Delete clnt target) (\<lambda>_.
          bindp (WaitForObjGone target) (\<lambda>_.
            MakeErr (bindp (clnt_Create clnt target) (\<lambda>_. retp ())))))"

definition createIfNotExistsOrFailedOrRemove ::
  "'s Client \<Rightarrow> ParsedLab \<Rightarrow> KObj \<Rightarrow> (KObj \<Rightarrow> unit result) \<Rightarrow> bool \<Rightarrow> bool \<Rightarrow> ('s, unit) proc" where
  "createIfNotExistsOrFailedOrRemove clnt lab target chkFunc needOwner remove =
     bindp (set_owner lab needOwner target) (\<lambda>target s.
       case clnt_Get clnt (lab_Namespace (plab_Lab lab)) (meta_Name (obj_Meta target)) target s of
         (Inl e, s') \<Rightarrow>
           if IsNotFound e then
             if remove then (Inr (), s')
             else bindp (MakeErr (clnt_Create clnt target)) (recreateIfFailed clnt chkFunc) s'
           else MakeErr (liftp (Inl e)) s'
       | (Inr found, s') \<Rightarrow>
           if remove then MakeErr (clnt_Delete clnt found) s'
           else bindp (if needOwner then MakeErr (liftp (IsOwnedbyLab found lab)) else retp ())
                  (\<lambda>_. recreateIfFailed clnt chkFunc found) s')"

section \<open>What the code relies on\<close>

definition unchanged_except :: "key \<Rightarrow> (key \<Rightarrow> KObj option) \<Rightarrow> (key \<Rightarrow> KObj option) \<Rightarrow> bool" where
  "unchanged_except k v v' \<longleftrightarrow> (\<forall>j. j \<noteq> k \<longrightarrow> v' j = v j)"

definition get_law :: "('s \<Rightarrow> key \<Rightarrow> KObj option) \<Rightarrow> 's Client \<Rightarrow> bool" where
  "get_law view clnt \<longleftrightarrow> (\<forall>ns n t s r s'. clnt_Get clnt ns n t s = (r, s') \<longrightarrow> view s' = view s \<and>
     (\<forall>x. r = Inr x \<longrightarrow> view s (obj_Kind t, ns, n) = Some x) \<and>
     (\<forall>e. r = Inl e \<longrightarrow> IsNotFound e \<longrightarrow> view s (obj_Kind t, ns, n) = None))"

text \<open>
  What is stored of a pod, a claim or a VM may differ from what was sent: the API server and admission
  webhooks fill in defaults and add volumes. Of a LAN, a custom resource, the spec sent is stored.
\<close>

definition create_law :: "('s \<Rightarrow> key \<Rightarrow> KObj option) \<Rightarrow> 's Client \<Rightarrow> bool" where
  "create_law view clnt \<longleftrightarrow> (\<forall>t s r s'. clnt_Create clnt t s = (r, s') \<longrightarrow>
     unchanged_except (obj_key t) (view s) (view s') \<and>
     (\<forall>x. view s (obj_key t) = Some x \<longrightarrow> view s' (obj_key t) = Some x) \<and>
     (\<forall>x. r = Inr x \<longrightarrow> view s (obj_key t) = None \<and> view s' (obj_key t) = Some x \<and>
        obj_key x = obj_key t \<and> meta_Owners (obj_Meta x) = meta_Owners (obj_Meta t) \<and>
        (obj_Kind t = ''LAN'' \<longrightarrow> obj_Body x = obj_Body t)))"

text \<open>
  An object that is being deleted goes away with the update that removes its last finalizer. An
  update creates nothing. No object has an empty name.
\<close>

definition gone_after :: "KObj \<Rightarrow> bool" where
  "gone_after t \<longleftrightarrow> meta_DeletionTimestamp (obj_Meta t) \<noteq> None \<and> meta_Finalizers (obj_Meta t) = []"

definition update_law :: "('s \<Rightarrow> key \<Rightarrow> KObj option) \<Rightarrow> 's Client \<Rightarrow> bool" where
  "update_law view clnt \<longleftrightarrow> (\<forall>t s r s'. clnt_Update clnt t s = (r, s') \<longrightarrow>
     unchanged_except (obj_key t) (view s) (view s') \<and>
     (view s (obj_key t) = None \<longrightarrow> \<not> ok r \<and> view s' (obj_key t) = None) \<and>
     (ok r \<longrightarrow>
        (if gone_after t then view s' (obj_key t) = None
         else \<exists>x. view s' (obj_key t) = Some x \<and> meta_Finalizers (obj_Meta x) = meta_Finalizers (obj_Meta t))))"

definition delete_law :: "('s \<Rightarrow> key \<Rightarrow> KObj option) \<Rightarrow> 's Client \<Rightarrow> bool" where
  "delete_law view clnt \<longleftrightarrow> (\<forall>t s r s'. clnt_Delete clnt t s = (r, s') \<longrightarrow>
     unchanged_except (obj_key t) (view s) (view s'))"

definition list_law :: "('s \<Rightarrow> key \<Rightarrow> KObj option) \<Rightarrow> 's Client \<Rightarrow> bool" where
  "list_law view clnt \<longleftrightarrow> (\<forall>kind s r s'. clnt_List clnt kind s = (r, s') \<longrightarrow> view s' = view s \<and>
     (\<forall>xs. r = Inr xs \<longrightarrow> (\<forall>k x. fst k = kind \<longrightarrow> view s k = Some x \<longrightarrow> x \<in> set xs)))"

definition key_law :: "('s \<Rightarrow> key \<Rightarrow> KObj option) \<Rightarrow> bool" where
  "key_law view \<longleftrightarrow> (\<forall>s k x. view s k = Some x \<longrightarrow> obj_key x = k \<and> meta_Name (obj_Meta x) \<noteq> [])"

definition client_laws :: "('s \<Rightarrow> key \<Rightarrow> KObj option) \<Rightarrow> 's Client \<Rightarrow> bool" where
  "client_laws view clnt \<longleftrightarrow>
     get_law view clnt \<and> create_law view clnt \<and> update_law view clnt \<and> delete_law view clnt \<and> list_law view clnt \<and> key_law view"

definition owner_laws :: "ParsedLab \<Rightarrow> bool" where
  "owner_laws lab \<longleftrightarrow> (\<forall>t t'. plab_SetOwnerFunc lab t = Inr t' \<longrightarrow>
     obj_key t' = obj_key t \<and> obj_Body t' = obj_Body t \<and>
     (\<exists>w\<in>set (meta_Owners (obj_Meta t')). own_UID w = lab_UID (plab_Lab lab)))"

definition owned_by :: "ParsedLab \<Rightarrow> KObj \<Rightarrow> bool" where
  "owned_by lab x \<longleftrightarrow> (\<exists>w\<in>set (meta_Owners (obj_Meta x)). own_UID w = lab_UID (plab_Lab lab))"

lemma IsOwnedbyLab_ok: "ok (IsOwnedbyLab x lab) \<longleftrightarrow> owned_by lab x"
  by (auto simp: IsOwnedbyLab_def Let_def owned_by_def list_ex_iff)


section \<open>What creating and removing does\<close>

lemma client_Get:
  assumes "client_laws view clnt" and "clnt_Get clnt ns n t s = (r, s')"
  shows "view s' = view s" and "r = Inr x \<Longrightarrow> view s (obj_Kind t, ns, n) = Some x"
    and "r = Inl e \<Longrightarrow> IsNotFound e \<Longrightarrow> view s (obj_Kind t, ns, n) = None"
  using assms by (simp_all add: client_laws_def get_law_def)

lemma client_Create:
  assumes "client_laws view clnt" and "clnt_Create clnt t s = (r, s')"
  shows "unchanged_except (obj_key t) (view s) (view s')"
    and "r = Inr x \<Longrightarrow> view s (obj_key t) = None \<and> view s' (obj_key t) = Some x \<and>
      obj_key x = obj_key t \<and> meta_Owners (obj_Meta x) = meta_Owners (obj_Meta t) \<and>
      (obj_Kind t = ''LAN'' \<longrightarrow> obj_Body x = obj_Body t)"
    and "view s (obj_key t) = Some y \<Longrightarrow> view s' (obj_key t) = Some y"
  using assms by (simp_all add: client_laws_def create_law_def)

lemma client_Update:
  assumes "client_laws view clnt" and "clnt_Update clnt t s = (r, s')"
  shows "unchanged_except (obj_key t) (view s) (view s')"
    and "view s (obj_key t) = None \<Longrightarrow> \<not> ok r \<and> view s' (obj_key t) = None"
    and "ok r \<Longrightarrow> gone_after t \<Longrightarrow> view s' (obj_key t) = None"
    and "ok r \<Longrightarrow> \<not> gone_after t \<Longrightarrow> \<exists>x. view s' (obj_key t) = Some x \<and>
      meta_Finalizers (obj_Meta x) = meta_Finalizers (obj_Meta t)"
  using assms by (simp_all add: client_laws_def update_law_def)

lemma client_Delete:
  assumes "client_laws view clnt" and "clnt_Delete clnt t s = (r, s')"
  shows "unchanged_except (obj_key t) (view s) (view s')"
  using assms by (simp add: client_laws_def delete_law_def)

lemma client_List:
  assumes "client_laws view clnt" and "clnt_List clnt kind s = (r, s')"
  shows "view s' = view s"
    and "r = Inr xs \<Longrightarrow> fst k = kind \<Longrightarrow> view s k = Some x \<Longrightarrow> x \<in> set xs"
  using assms unfolding client_laws_def list_law_def by blast+

lemma client_key: "client_laws view clnt \<Longrightarrow> view s k = Some x \<Longrightarrow> obj_key x = k"
  unfolding client_laws_def key_law_def by blast

lemma client_nameless: "client_laws view clnt \<Longrightarrow> view s (kind, ns, []) = None"
  unfolding client_laws_def key_law_def obj_key_def by (metis not_None_eq prod.inject)

lemma unchanged_refl [simp]: "unchanged_except k v v"
  by (simp add: unchanged_except_def)

lemma unchanged_trans:
  "unchanged_except k u v \<Longrightarrow> unchanged_except k v w \<Longrightarrow> unchanged_except k u w"
  by (simp add: unchanged_except_def)

lemma MakeErr_eq: "MakeErr m s = (r, s') \<Longrightarrow> \<exists>r0. m s = (r0, s') \<and> (\<forall>x. r = Inr x \<longleftrightarrow> r0 = Inr x)"
  by (auto simp: MakeErr_def wrapp_def wrapf_eq_Inr split: prod.splits)

lemma set_owner_eq:
  assumes "set_owner lab needOwner t s = (r, s')" and "owner_laws lab"
  shows "s' = s" and "r = Inr t' \<Longrightarrow> obj_key t' = obj_key t \<and> obj_Body t' = obj_Body t \<and> (needOwner \<longrightarrow> owned_by lab t')"
  using assms by (auto simp: set_owner_def owner_laws_def owned_by_def MakeErr_def wrapp_def wrapf_eq_Inr
      split: if_splits)

text \<open>The four ways a call ends once the owner is set.\<close>

lemma createOrRemove_cases:
  assumes laws: "client_laws view clnt" "owner_laws lab"
    and ns: "meta_Namespace (obj_Meta t) = lab_Namespace (plab_Lab lab)"
    and run: "createIfNotExistsOrRemove clnt lab t needOwner remove s = (r, s')"
  obtains (unchanged) "view s' = view s" "\<not> ok r"
  | (absent) "view s' = view s" "view s (obj_key t) = None" "remove" "r = Inr ()"
  | (created) t1 s1 r1 where "view s1 = view s" "view s (obj_key t) = None" "\<not> remove" "obj_key t1 = obj_key t"
      "obj_Body t1 = obj_Body t" "needOwner \<longrightarrow> owned_by lab t1" "clnt_Create clnt t1 s1 = (r1, s')" "ok r \<longleftrightarrow> ok r1"
  | (deleted) x s1 r1 where "view s1 = view s" "view s (obj_key t) = Some x" "remove"
      "clnt_Delete clnt x s1 = (r1, s')" "ok r \<longleftrightarrow> ok r1"
  | (kept) x where "view s' = view s" "view s (obj_key t) = Some x" "\<not> remove" "r = Inr ()"
      "needOwner \<longrightarrow> owned_by lab x"
proof -
  obtain r0 s0 where own: "set_owner lab needOwner t s = (r0, s0)" by fastforce
  note so = set_owner_eq [OF own laws(2)]
  show thesis
  proof (cases r0)
    case (Inl e)
    then have "r = Inl e" "s' = s" using run own so(1) by (auto simp: createIfNotExistsOrRemove_def bindp_def)
    then show thesis using unchanged by simp
  next
    case (Inr t1)
    note t1 = so(2) [OF Inr]
    obtain g s1 where get: "clnt_Get clnt (lab_Namespace (plab_Lab lab)) (meta_Name (obj_Meta t1)) t1 s = (g, s1)"
      by fastforce
    note cg = client_Get [OF laws(1) get]
    have key: "(obj_Kind t1, lab_Namespace (plab_Lab lab), meta_Name (obj_Meta t1)) = obj_key t"
      using t1 ns by (simp add: obj_key_def)
    have step: "(case g of
         Inl e \<Rightarrow> if IsNotFound e then
             if remove then (Inr (), s1) else MakeErr (bindp (clnt_Create clnt t1) (\<lambda>_. retp ())) s1
           else MakeErr (liftp (Inl e)) s1
       | Inr found \<Rightarrow> if remove then MakeErr (clnt_Delete clnt found) s1
           else if needOwner then MakeErr (liftp (IsOwnedbyLab found lab)) s1 else (Inr (), s1)) = (r, s')"
      using run own so(1) Inr get by (simp add: createIfNotExistsOrRemove_def bindp_def split: sum.splits)
    show thesis
    proof (cases g)
      case (Inl e)
      show thesis
      proof (cases "IsNotFound e")
        case False
        then have "\<not> ok r" "s' = s1" using step Inl by (auto simp: MakeErr_def wrapp_def ok_wrapf)
        then show thesis using unchanged cg(1) by simp
      next
        case True
        have none: "view s (obj_key t) = None" using cg(3) [OF Inl True] key by simp
        show thesis
        proof (cases remove)
          case rm: True
          then have "r = Inr ()" "s' = s1" using step Inl True by auto
          then show thesis using absent none rm cg(1) by simp
        next
          case rm: False
          obtain r1 s2 where cr: "clnt_Create clnt t1 s1 = (r1, s2)" by fastforce
          have "s' = s2" "ok r \<longleftrightarrow> ok r1"
            using step Inl True rm cr by (cases r1; auto simp: MakeErr_def wrapp_def ok_wrapf bindp_def)+
          then show thesis using created [OF cg(1) none rm _ _ _ _] cr t1 by blast
        qed
      qed
    next
      case (Inr x)
      have some: "view s (obj_key t) = Some x" using cg(2) [OF Inr] key by simp
      show thesis
      proof (cases remove)
        case rm: True
        obtain r1 s2 where d: "clnt_Delete clnt x s1 = (r1, s2)" by fastforce
        have "s' = s2" "ok r \<longleftrightarrow> ok r1" using step Inr rm d by (auto simp: MakeErr_def wrapp_def ok_wrapf)
        then show thesis using deleted [OF cg(1) some rm] d by blast
      next
        case rm: False
        show thesis
        proof (cases "needOwner \<and> \<not> owned_by lab x")
          case True
          then have "\<not> ok r" "s' = s1"
            using step Inr rm IsOwnedbyLab_ok [of x lab] by (auto simp: MakeErr_def wrapp_def ok_wrapf)
          then show thesis using unchanged cg(1) by simp
        next
          case False
          then have "r = Inr ()" "s' = s1"
            using step Inr rm IsOwnedbyLab_ok [of x lab]
            by (auto simp: MakeErr_def wrapp_def ok_iff split: if_splits)
          then show thesis using kept [OF _ some rm] cg(1) False by simp
        qed
      qed
    qed
  qed
qed

lemma createOrRemove_frame:
  assumes "client_laws view clnt" "owner_laws lab"
    and "meta_Namespace (obj_Meta t) = lab_Namespace (plab_Lab lab)"
    and "createIfNotExistsOrRemove clnt lab t needOwner remove s = (r, s')"
  shows "unchanged_except (obj_key t) (view s) (view s')"
  using assms
proof (cases rule: createOrRemove_cases)
  case (created t1 s1 r1)
  then show ?thesis using client_Create(1) [OF assms(1) created(7)] by simp
next
  case (deleted x s1 r1)
  then show ?thesis using client_Delete [OF assms(1) deleted(4)] client_key [OF assms(1) deleted(2)] by simp
qed auto

lemma createOrRemove_keeps:
  assumes "client_laws view clnt" "owner_laws lab"
    and "meta_Namespace (obj_Meta t) = lab_Namespace (plab_Lab lab)"
    and "createIfNotExistsOrRemove clnt lab t needOwner False s = (r, s')"
    and "view s k = Some x"
  shows "view s' k = Some x"
  using assms(1-4)
proof (cases rule: createOrRemove_cases)
  case (created t1 s1 r1)
  then have "k \<noteq> obj_key t" using assms(5) by auto
  then show ?thesis using client_Create(1) [OF assms(1) created(7)] created assms(5)
    by (metis unchanged_except_def)
qed (use assms(5) in auto)

lemma createOrRemove_exists:
  assumes "client_laws view clnt" "owner_laws lab"
    and "meta_Namespace (obj_Meta t) = lab_Namespace (plab_Lab lab)"
    and "createIfNotExistsOrRemove clnt lab t needOwner False s = (Inr u, s')"
  shows "\<exists>x. view s' (obj_key t) = Some x \<and> (needOwner \<longrightarrow> owned_by lab x) \<and>
    (obj_Kind t = ''LAN'' \<longrightarrow> view s (obj_key t) = None \<longrightarrow> obj_Body x = obj_Body t)"
  using assms
proof (cases rule: createOrRemove_cases)
  case (created t1 s1 r1)
  then obtain x where "r1 = Inr x" by (auto simp: ok_iff)
  moreover have "obj_Kind t1 = obj_Kind t" using created(4) by (simp add: obj_key_def)
  ultimately show ?thesis using client_Create(2) [OF assms(1) created(7)] created by (simp add: owned_by_def)
qed auto

section \<open>Frames\<close>

text \<open>
  \<open>outside view K\<close> relates two states that differ at most at the keys \<open>K\<close>, \<open>additive view\<close>
  two states of which the second has every object of the first, unchanged.
\<close>

definition outside :: "('s \<Rightarrow> key \<Rightarrow> KObj option) \<Rightarrow> key set \<Rightarrow> 's \<Rightarrow> 's \<Rightarrow> bool" where
  "outside view K s s' \<longleftrightarrow> (\<forall>k. k \<notin> K \<longrightarrow> view s' k = view s k)"

definition additive :: "('s \<Rightarrow> key \<Rightarrow> KObj option) \<Rightarrow> 's \<Rightarrow> 's \<Rightarrow> bool" where
  "additive view s s' \<longleftrightarrow> (\<forall>k x. view s k = Some x \<longrightarrow> view s' k = Some x)"

lemma outside_refl [simp]: "reflp (outside view K)" "transp (outside view K)" "outside view K s s"
  by (auto simp: outside_def reflp_def transp_def)

lemma additive_refl [simp]: "reflp (additive view)" "transp (additive view)" "additive view s s"
  by (auto simp: additive_def reflp_def transp_def)

lemma outside_mono: "outside view K s s' \<Longrightarrow> K \<subseteq> L \<Longrightarrow> outside view L s s'"
  unfolding outside_def by blast

lemma unchanged_outside: "unchanged_except k (view s) (view s') \<Longrightarrow> k \<in> K \<Longrightarrow> outside view K s s'"
  unfolding unchanged_except_def outside_def by metis

lemma same_view: "view s' = view s \<Longrightarrow> outside view K s s' \<and> additive view s s'"
  by (simp add: outside_def additive_def)

lemma MakeErr_snd [simp]: "snd (MakeErr m s) = snd (m s)"
  by (simp add: MakeErr_def)

lemma keeps_MakeErr: "keeps R m \<Longrightarrow> keeps R (MakeErr m)"
  by (simp add: keeps_def)

section \<open>A cluster in memory\<close>

text \<open>
  A client over a list of objects that has the properties above: the hypotheses of the theorems
  about the cluster can be met.
\<close>

definition mem_view :: "KObj list \<Rightarrow> key \<Rightarrow> KObj option" where
  "mem_view s k = (if snd (snd k) = [] then None else find (\<lambda>x. obj_key x = k) s)"

definition mem_client :: "KObj list Client" where
  "mem_client = \<lparr>
     clnt_Get = (\<lambda>ns n t s. case mem_view s (obj_Kind t, ns, n) of
         None \<Rightarrow> (Inl (Err (NotFoundErr n)), s) | Some x \<Rightarrow> (Inr x, s)),
     clnt_Create = (\<lambda>t s. case mem_view s (obj_key t) of
         None \<Rightarrow> if meta_Name (obj_Meta t) = [] then (Inl (Err (ApiErr ''name is required'')), s) else (Inr t, t # s)
       | Some x \<Rightarrow> (Inl (Err (ApiErr ''already exists'')), s)),
     clnt_Update = (\<lambda>t s. if mem_view s (obj_key t) = None
         then (Inl (Err (NotFoundErr (meta_Name (obj_Meta t)))), s)
         else (Inr (), (if gone_after t then [] else [t]) @ filter (\<lambda>x. obj_key x \<noteq> obj_key t) s)),
     clnt_Delete = (\<lambda>t s. (Inr (), filter (\<lambda>x. obj_key x \<noteq> obj_key t) s)),
     clnt_List = (\<lambda>kind s. (Inr (filter (\<lambda>x. obj_Kind x = kind \<and> mem_view s (obj_key x) = Some x) s), s))\<rparr>"

lemma mem_view_Some: "mem_view s k = Some x \<Longrightarrow> x \<in> set s \<and> obj_key x = k \<and> snd (snd k) \<noteq> []"
  by (auto simp: mem_view_def find_Some_iff split: if_splits)

lemma mem_view_filter: "j \<noteq> k \<Longrightarrow> mem_view (filter (\<lambda>x. obj_key x \<noteq> k) s) j = mem_view s j"
  unfolding mem_view_def by (induction s) auto

lemma mem_view_Cons: "mem_view (t # s) j = (if obj_key t = j \<and> snd (snd j) \<noteq> [] then Some t else mem_view s j)"
  by (simp add: mem_view_def)

lemma obj_key_name [simp]: "snd (snd (obj_key t)) = meta_Name (obj_Meta t)"
  by (simp add: obj_key_def)

lemma mem_get_law: "get_law mem_view mem_client"
  by (simp add: get_law_def mem_client_def IsNotFound_def split: option.split)

lemma mem_create_law: "create_law mem_view mem_client"
  by (simp add: create_law_def mem_client_def unchanged_except_def mem_view_Cons split: option.split)

lemma mem_view_removed: "mem_view (filter (\<lambda>x. obj_key x \<noteq> k) s) k = None"
  by (simp add: mem_view_def find_None_iff)

lemma mem_view_nameless [simp]: "meta_Name (obj_Meta t) = [] \<Longrightarrow> mem_view s (obj_key t) = None"
  by (simp add: mem_view_def)

lemma mem_update_law: "update_law mem_view mem_client"
  by (simp add: update_law_def mem_client_def unchanged_except_def mem_view_Cons mem_view_filter mem_view_removed)

lemma mem_delete_law: "delete_law mem_view mem_client"
  by (simp add: delete_law_def mem_client_def unchanged_except_def mem_view_filter)

lemma mem_list_law: "list_law mem_view mem_client"
proof -
  have "x \<in> set (filter (\<lambda>x. obj_Kind x = fst k \<and> mem_view s (obj_key x) = Some x) s)" if "mem_view s k = Some x" for s k x
    using that mem_view_Some [OF that] by (auto simp: obj_key_def)
  then show ?thesis by (simp add: list_law_def mem_client_def)
qed

lemma mem_client_laws: "client_laws mem_view mem_client"
  using mem_get_law mem_create_law mem_update_law mem_delete_law mem_list_law
  by (auto simp: client_laws_def key_law_def dest: mem_view_Some)
    (metis mem_view_Some obj_key_name)

end
