(* ===== verification/Links.thy ===== *)
theory Links
  imports Cluster LabValidate
begin

text \<open>
  Parsed labs (parsed_lab.go) and the LAN objects of their links (link.go): the choice of free
  VNIs and bridge indices, and \<open>EnsureLinks\<close>, which creates one LAN per link and records the
  spoke names of its connectors.

  The package bitset is a parameter: a record of the operations the code calls, and
  \<open>bitset_laws\<close>, what its documentation promises of them.
\<close>

section \<open>Bit sets\<close>

record 'b Bitset =
  bs_New :: "nat \<Rightarrow> 'b"
  bs_Set :: "nat \<Rightarrow> 'b \<Rightarrow> 'b result"
  bs_NextClear :: "nat \<Rightarrow> 'b \<Rightarrow> nat option"

definition bitset_laws :: "('b \<Rightarrow> nat \<Rightarrow> bool) \<Rightarrow> ('b \<Rightarrow> nat) \<Rightarrow> 'b Bitset \<Rightarrow> bool" where
  "bitset_laws bv len bs \<longleftrightarrow>
     (\<forall>n i. \<not> bv (bs_New bs n) i) \<and> (\<forall>n. len (bs_New bs n) = n) \<and>
     (\<forall>i b. i < 2 ^ 32 \<longrightarrow> ok (bs_Set bs i b)) \<and>
     (\<forall>i b b'. bs_Set bs i b = Inr b' \<longrightarrow> len b \<le> len b' \<and> (\<forall>j. bv b' j \<longleftrightarrow> j = i \<or> bv b j)) \<and>
     (\<forall>i b j. bs_NextClear bs i b = Some j \<longrightarrow> i \<le> j \<and> \<not> bv b j \<and> (\<forall>k. i \<le> k \<longrightarrow> k < j \<longrightarrow> bv b k)) \<and>
     (\<forall>i b. bs_NextClear bs i b = None \<longrightarrow> (\<forall>k. i \<le> k \<longrightarrow> k < len b \<longrightarrow> bv b k))"

text \<open>A machine integer converted to \<open>uint\<close>.\<close>

definition to_uint :: "int \<Rightarrow> nat" where
  "to_uint i = nat (i mod 2 ^ 64)"

section \<open>Free numbers (link.go)\<close>

abbreviation maxVNI :: nat where "maxVNI \<equiv> 16777215"

fun alloc :: "'b Bitset \<Rightarrow> string \<Rightarrow> nat \<Rightarrow> nat \<Rightarrow> 'b \<Rightarrow> nat list result" where
  "alloc bs msg 0 nxt b = Inr []"
| "alloc bs msg (Suc n) nxt b = (case bs_NextClear bs nxt b of
      None \<Rightarrow> errf msg []
    | Some v \<Rightarrow> if v > maxVNI then errf msg []
               else bindr (alloc bs msg n (v + 1) b) (\<lambda>vs. Inr (v # vs)))"

definition lan_spec :: "KObj \<Rightarrow> LANSpec" where
  "lan_spec x = (case obj_Body x of LANBody l \<Rightarrow> l
     | _ \<Rightarrow> \<lparr>lan_NS = None, lan_BridgeName = None, lan_VxLANName = None, lan_VNI = None, lan_DefaultVxDev = [],
             lan_VxDevMap = None, lan_VxPort = None, lan_VxLANGrp = None, lan_SpokeList = []\<rparr>)"

definition mark_lan :: "'b Bitset \<Rightarrow> KObj \<Rightarrow> 'b \<Rightarrow> 'b result" where
  "mark_lan bs x b = bindr (deref (lan_VNI (lan_spec x))) (\<lambda>v. bs_Set bs (to_uint v) b)"

definition GetAvailableVNIs :: "'b Bitset \<Rightarrow> 's Client \<Rightarrow> nat \<Rightarrow> ('s, int list) proc" where
  "GetAvailableVNIs bs clnt requiredNum =
     bindp (liftp (bs_Set bs 0 (bs_New bs maxVNI))) (\<lambda>b.
     bindp (wrapp ''failed to list lans, %w'' [] (clnt_List clnt ''LAN'')) (\<lambda>lans.
     liftp (bindr (foldm (mark_lan bs) lans b) (\<lambda>b.
       bindr (alloc bs ''no available vni to allocate'' requiredNum 0 b) (\<lambda>vs. Inr (map int vs))))))"

definition mark_nad :: "'b Bitset \<Rightarrow> KObj \<Rightarrow> 'b \<Rightarrow> 'b result" where
  "mark_nad bs x b = (case map_of (meta_Labels (obj_Meta x)) BridgeIndexLabelKey of
      None \<Rightarrow> Inr b
    | Some val \<Rightarrow>
        bindr (wrapf ''invalid %v value found in NAD %v: %v, %w'' [BridgeIndexLabelKey, val, meta_Name (obj_Meta x)]
          (Atoi val)) (\<lambda>i. bs_Set bs (to_uint i) b))"

definition GetAvailableBrIndex :: "'b Bitset \<Rightarrow> 's Client \<Rightarrow> nat \<Rightarrow> ('s, nat list) proc" where
  "GetAvailableBrIndex bs clnt requiredNum =
     bindp (liftp (bs_Set bs 0 (bs_New bs maxVNI))) (\<lambda>b.
     bindp (wrapp ''failed to list net-attach-def, %w'' []
       (\<lambda>s. case clnt_List clnt ''NetworkAttachmentDefinition'' s of
          (r, s') \<Rightarrow> (map_sum id (filter (\<lambda>x. map_of (meta_Labels (obj_Meta x)) BridgeIndexLabelKey \<noteq> None)) r, s'))) (\<lambda>nads.
     liftp (bindr (foldm (mark_nad bs) nads b) (alloc bs ''no available bridge index to allocate'' requiredNum 0))))"

section \<open>Parsed labs (parsed_lab.go)\<close>

definition add_node_link :: "string \<Rightarrow> Connector \<Rightarrow> string list gomap \<Rightarrow> string list gomap result" where
  "add_node_link linkName c m = bindr (deref (con_NodeName c)) (\<lambda>n. case map_of m n of
      Some ls \<Rightarrow> Inr (AList.update n (ls @ [linkName]) m)
    | None \<Rightarrow> Inr (AList.update n [linkName] m))"

definition ParseLab :: "SRCard Lab \<Rightarrow> (SRCard Lab \<Rightarrow> KObj \<Rightarrow> KObj result) \<Rightarrow> ParsedLab result" where
  "ParseLab lab SetControllerReference =
     bindr (foldm (\<lambda>(linkName, link). foldm (add_node_link linkName) (link_Connectors link))
              (entries (lab_LinkList (lab_Spec lab))) []) (\<lambda>m.
     Inr \<lparr>plab_Lab = lab, plab_ConnectorMap = m, plab_SetOwnerFunc = SetControllerReference lab,
          plab_SpokeMap = [], plab_SpokeConnectorMap = [], plab_SpokeLinkMap = []\<rparr>)"

fun find_connector :: "string \<Rightarrow> Connector list \<Rightarrow> Connector option result" where
  "find_connector node [] = Inr None"
| "find_connector node (c # cs) = bindr (deref (con_NodeName c)) (\<lambda>n.
     if n = node then Inr (Some c) else find_connector node cs)"

definition getLinkandConnector :: "ParsedLab \<Rightarrow> string \<Rightarrow> string \<Rightarrow> (Link \<times> Connector) option result" where
  "getLinkandConnector lab node linkName =
     (case map_of (entries (lab_LinkList (lab_Spec (plab_Lab lab)))) linkName of
        Some link \<Rightarrow> bindr (find_connector node (link_Connectors link)) (\<lambda>c. Inr (map_option (\<lambda>c. (link, c)) c))
      | None \<Rightarrow> Inr None)"

section \<open>LAN objects (link.go)\<close>

abbreviation VxLANPort :: int where "VxLANPort \<equiv> 48622"
abbreviation FinalizerName :: string where "FinalizerName \<equiv> ''lab.kubenetlab.net/finalizer''"

definition new_lan :: "SRCard KNLConfigSpec \<Rightarrow> SRCard Lab \<Rightarrow> string \<Rightarrow> int \<Rightarrow> KObj result" where
  "new_lan gconf lab linkName vni =
     bindr (deref (cfg_VXLANDefaultDev gconf)) (\<lambda>dev.
       let name = Getk8lanName (lab_Name lab) linkName in
       Inr \<lparr>obj_Kind = ''LAN'',
         obj_Meta = (GetObjMeta name (lab_Name lab) (lab_Namespace lab) [] []) \<lparr>meta_Finalizers := [FinalizerName]\<rparr>,
         obj_Body = LANBody \<lparr>lan_NS = Some name, lan_BridgeName = Some (Getk8lanBRName (lab_Name lab) linkName),
           lan_VxLANName = Some (Getk8lanVxName (lab_Name lab) linkName vni), lan_VNI = Some vni,
           lan_DefaultVxDev = dev, lan_VxDevMap = cfg_VxDevMap gconf, lan_VxPort = Some VxLANPort,
           lan_VxLANGrp = cfg_VXLANGrpAddr gconf, lan_SpokeList = []\<rparr>\<rparr>)"

text \<open>One connector of a link: its spoke name, added to the LAN and to the three maps.\<close>

definition add_spoke :: "string \<Rightarrow> int \<times> Connector \<Rightarrow> LANSpec \<times> ParsedLab \<Rightarrow> (LANSpec \<times> ParsedLab) result" where
  "add_spoke linkName = (\<lambda>(i, c) (lan, plab).
     bindr (deref (lan_VNI lan)) (\<lambda>vni.
       let spokeName = getSpokeName vni i in
       bindr (deref (con_NodeName c)) (\<lambda>node.
         let byLink = (case map_of (plab_SpokeMap plab) node of Some m \<Rightarrow> m | None \<Rightarrow> []);
             spokes = (case map_of byLink linkName of Some l \<Rightarrow> l | None \<Rightarrow> [])
         in Inr (lan\<lparr>lan_SpokeList := lan_SpokeList lan @ [spokeName]\<rparr>,
                 plab\<lparr>plab_SpokeMap := AList.update node (AList.update linkName (spokes @ [spokeName]) byLink) (plab_SpokeMap plab),
                      plab_SpokeConnectorMap := AList.update spokeName c (plab_SpokeConnectorMap plab),
                      plab_SpokeLinkMap := AList.update spokeName linkName (plab_SpokeLinkMap plab)\<rparr>))))"

definition indexed :: "'a list \<Rightarrow> (int \<times> 'a) list" where
  "indexed xs = zip (map int [0..<length xs]) xs"

definition get_lan :: "SRCard KNLConfigSpec \<Rightarrow> 's Client \<Rightarrow> SRCard Lab \<Rightarrow> string \<Rightarrow> int \<Rightarrow> ('s, KObj) proc" where
  "get_lan gconf clnt lab linkName vni s =
     (let name = Getk8lanName (lab_Name lab) linkName;
          empty = new_obj ''LAN''
      in case clnt_Get clnt (lab_Namespace lab) name empty s of
           (Inr lan, s') \<Rightarrow> (Inr lan, s')
         | (Inl e, s') \<Rightarrow> if IsNotFound e then (new_lan gconf lab linkName vni, s')
             else (wrapf ''unexpected error getting existing LAN %v, %w'' [name] (Inl e), s'))"

definition ensure_link ::
  "SRCard KNLConfigSpec \<Rightarrow> 's Client \<Rightarrow> string \<times> int \<Rightarrow> ParsedLab \<Rightarrow> ('s, ParsedLab) proc" where
  "ensure_link gconf clnt = (\<lambda>(linkName, vni) plab.
     let lab = plab_Lab plab;
         cs = (case map_of (entries (lab_LinkList (lab_Spec lab))) linkName of Some l \<Rightarrow> link_Connectors l | None \<Rightarrow> [])
     in bindp (get_lan gconf clnt lab linkName vni) (\<lambda>lan.
        bindp (liftp (foldm (add_spoke linkName) (indexed cs) (lan_spec lan, plab))) (\<lambda>(spec, plab).
        bindp (wrapp ''failed to create LAN CR for lab %v link %v, %w'' [lab_Name lab, linkName]
                (createIfNotExistsOrRemove clnt plab (lan\<lparr>obj_Body := LANBody spec\<rparr>) True False)) (\<lambda>_.
        retp plab))))"

definition EnsureLinks :: "'b Bitset \<Rightarrow> SRCard KNLConfigSpec \<Rightarrow> 's Client \<Rightarrow> ParsedLab \<Rightarrow> ('s, ParsedLab) proc" where
  "EnsureLinks bs gconf clnt plab =
     (let links = GetSortedKeySlice (entries (lab_LinkList (lab_Spec (plab_Lab plab))))
      in bindp (wrapp ''failed to get %d vni, %w'' [] (GetAvailableVNIs bs clnt (length links))) (\<lambda>vniList.
           foldp (ensure_link gconf clnt) (zip links vniList) plab))"

section \<open>The numbers handed out\<close>

lemma bitset_New: "bitset_laws bv len bs \<Longrightarrow> \<not> bv (bs_New bs n) i \<and> len (bs_New bs n) = n"
  unfolding bitset_laws_def by blast

lemma bitset_Set:
  "bitset_laws bv len bs \<Longrightarrow> bs_Set bs i b = Inr b' \<Longrightarrow> len b \<le> len b' \<and> (\<forall>j. bv b' j \<longleftrightarrow> j = i \<or> bv b j)"
  unfolding bitset_laws_def by blast

lemma bitset_Set_ok: "bitset_laws bv len bs \<Longrightarrow> i < 2 ^ 32 \<Longrightarrow> ok (bs_Set bs i b)"
  unfolding bitset_laws_def by blast

lemma bitset_Next:
  "bitset_laws bv len bs \<Longrightarrow> bs_NextClear bs i b = Some j \<Longrightarrow> i \<le> j \<and> \<not> bv b j \<and> (\<forall>k. i \<le> k \<longrightarrow> k < j \<longrightarrow> bv b k)"
  unfolding bitset_laws_def by blast

lemma bitset_Next_None:
  "bitset_laws bv len bs \<Longrightarrow> bs_NextClear bs i b = None \<Longrightarrow> i \<le> k \<Longrightarrow> k < len b \<Longrightarrow> bv b k"
  unfolding bitset_laws_def by blast

lemma alloc_ok:
  assumes "bitset_laws bv len bs" and "alloc bs msg n nxt b = Inr vs"
  shows "length vs = n" and "sorted_wrt (<) vs" and "v \<in> set vs \<Longrightarrow> nxt \<le> v \<and> v \<le> maxVNI \<and> \<not> bv b v"
    and "v \<in> set vs \<Longrightarrow> nxt \<le> k \<Longrightarrow> k \<le> v \<Longrightarrow> \<not> bv b k \<Longrightarrow> k \<in> set vs"
proof -
  have "length vs = n \<and> sorted_wrt (<) vs \<and> (\<forall>v\<in>set vs. nxt \<le> v \<and> v \<le> maxVNI \<and> \<not> bv b v) \<and>
    (\<forall>v\<in>set vs. \<forall>k. nxt \<le> k \<longrightarrow> k \<le> v \<longrightarrow> \<not> bv b k \<longrightarrow> k \<in> set vs)"
    using assms(2)
  proof (induction n arbitrary: nxt vs)
    case (Suc n)
    from Suc.prems obtain w ws where w: "bs_NextClear bs nxt b = Some w" "w \<le> maxVNI"
      and ws: "alloc bs msg n (Suc w) b = Inr ws" "vs = w # ws"
      by (auto simp: result_simps split: option.splits if_splits)
    note nx = bitset_Next [OF assms(1) w(1)]
    note IH = Suc.IH [OF ws(1)]
    have IH1: "Suc w \<le> v \<and> v \<le> maxVNI \<and> \<not> bv b v" if "v \<in> set ws" for v
      using IH that by blast
    have IH2: "k \<in> set ws" if "v \<in> set ws" "Suc w \<le> k" "k \<le> v" "\<not> bv b k" for v k
      using IH that by blast
    have 1: "k \<in> set vs" if "v \<in> set vs" "nxt \<le> k" "k \<le> v" "\<not> bv b k" for v k
    proof (cases "k \<le> w")
      case True
      then have "k = w" using nx that(2,4) by (metis le_neq_implies_less)
      then show ?thesis using ws(2) by simp
    next
      case False
      then have "v \<in> set ws" using that(1,3) ws(2) by auto
      from IH2 [OF this _ that(3,4)] False show ?thesis using ws(2) by simp
    qed
    have 2: "sorted_wrt (<) vs" using IH IH1 ws(2) by (simp add: Suc_le_eq)
    have 3: "nxt \<le> v \<and> v \<le> maxVNI \<and> \<not> bv b v" if v: "v \<in> set vs" for v
    proof (cases "v = w")
      case False
      then have "v \<in> set ws" using v ws(2) by simp
      from IH1 [OF this] show ?thesis using nx by simp
    qed (use nx w(2) in simp)
    have 4: "length vs = Suc n" using IH ws(2) by simp
    show ?case using 1 2 3 4 by blast
  qed simp
  then show "length vs = n" and "sorted_wrt (<) vs" and "v \<in> set vs \<Longrightarrow> nxt \<le> v \<and> v \<le> maxVNI \<and> \<not> bv b v"
    and "v \<in> set vs \<Longrightarrow> nxt \<le> k \<Longrightarrow> k \<le> v \<Longrightarrow> \<not> bv b k \<Longrightarrow> k \<in> set vs"
    by blast+
qed

text \<open>A refusal means that the free numbers below the last one do run out.\<close>

lemma alloc_complete:
  assumes "bitset_laws bv len bs" and "maxVNI \<le> len b"
    and "n \<le> card {k. nxt \<le> k \<and> k < maxVNI \<and> \<not> bv b k}"
  shows "ok (alloc bs msg n nxt b)"
  using assms(3)
proof (induction n arbitrary: nxt)
  case (Suc n)
  let ?S = "{k. nxt \<le> k \<and> k < maxVNI \<and> \<not> bv b k}"
  have fin: "finite ?S" by simp
  have "?S \<noteq> {}" using Suc.prems by (metis card.empty not_less_eq_eq zero_le)
  then obtain k where k: "nxt \<le> k" "k < maxVNI" "\<not> bv b k" by blast
  then obtain w where w: "bs_NextClear bs nxt b = Some w"
    using bitset_Next_None [OF assms(1), of nxt b k] assms(2) by fastforce
  note nx = bitset_Next [OF assms(1) w]
  have "w \<le> k" using nx k by (metis linorder_not_le)
  have sub: "?S - {w} \<subseteq> {k. Suc w \<le> k \<and> k < maxVNI \<and> \<not> bv b k}"
  proof
    fix j assume j: "j \<in> ?S - {w}"
    then have "\<not> j < w" using nx by auto
    then show "j \<in> {k. Suc w \<le> k \<and> k < maxVNI \<and> \<not> bv b k}" using j by auto
  qed
  have "n \<le> card (?S - {w})" using Suc.prems fin by (metis Suc_le_mono card_Diff_singleton_if card_Suc_Diff1 le_diff_conv Suc_eq_plus1 le_Suc_eq le_trans)
  also have "\<dots> \<le> card {k. Suc w \<le> k \<and> k < maxVNI \<and> \<not> bv b k}" by (rule card_mono [OF _ sub]) simp
  finally have "ok (alloc bs msg n (Suc w) b)" by (rule Suc.IH)
  then show ?case using w \<open>w \<le> k\<close> k(2) by (auto simp: ok_bindr ok_iff)
qed simp

lemma mark_lan_eq:
  "mark_lan bs x b = Inr b1 \<longleftrightarrow> (\<exists>v. lan_VNI (lan_spec x) = Some v \<and> bs_Set bs (to_uint v) b = Inr b1)"
  by (auto simp: mark_lan_def result_simps)

lemma mark_lans:
  assumes "bitset_laws bv len bs" and "foldm (mark_lan bs) lans b = Inr b'"
  shows "len b \<le> len b' \<and> (\<forall>j. bv b' j \<longleftrightarrow> bv b j \<or> (\<exists>x\<in>set lans. \<exists>v. lan_VNI (lan_spec x) = Some v \<and> j = to_uint v))"
  using assms(2)
proof (induction lans arbitrary: b)
  case (Cons x lans)
  from Cons.prems obtain v b1 where v: "lan_VNI (lan_spec x) = Some v" "bs_Set bs (to_uint v) b = Inr b1"
    and rest: "foldm (mark_lan bs) lans b1 = Inr b'"
    by (auto simp: result_simps mark_lan_eq simp del: foldm.simps(1))
  show ?case using Cons.IH [OF rest] bitset_Set [OF assms(1) v(2)] v(1) by auto
qed simp

lemma to_uint_int [simp]: "i < 2 ^ 32 \<Longrightarrow> to_uint (int i) = i"
  by (simp add: to_uint_def)

lemma GetAvailableVNIs_ok:
  assumes "client_laws view clnt" and "bitset_laws bv len bs"
    and "GetAvailableVNIs bs clnt n s = (Inr vs, s')"
  shows "view s' = view s" and "length vs = n" and "sorted_wrt (<) vs"
    and "v \<in> set vs \<Longrightarrow> 1 \<le> v \<and> v \<le> 16777215"
    and "v \<in> set vs \<Longrightarrow> view s k = Some x \<Longrightarrow> fst k = ''LAN'' \<Longrightarrow> lan_VNI (lan_spec x) \<noteq> Some v"
proof -
  from assms(3) obtain b0 lans b1 ws where b0: "bs_Set bs 0 (bs_New bs maxVNI) = Inr b0"
    and list: "clnt_List clnt ''LAN'' s = (Inr lans, s')" and b1: "foldm (mark_lan bs) lans b0 = Inr b1"
    and ws: "alloc bs ''no available vni to allocate'' n 0 b1 = Inr ws" and vs: "vs = map int ws"
    by (auto simp: GetAvailableVNIs_def result_simps)
  note al = alloc_ok [OF assms(2) ws]
  note ml = mark_lans [OF assms(2) b1]
  note st = bitset_Set [OF assms(2) b0]
  show "view s' = view s" by (rule client_List(1) [OF assms(1) list])
  show "length vs = n" using al(1) vs by simp
  show "sorted_wrt (<) vs" using al(2) vs by (simp add: sorted_wrt_map)
  have zero: "bv b1 0" using ml st by simp
  show "1 \<le> v \<and> v \<le> 16777215" if v: "v \<in> set vs"
  proof -
    from v vs obtain w where w: "w \<in> set ws" "v = int w" by auto
    have "w \<noteq> 0" using al(3) [OF w(1)] zero by (metis)
    then show ?thesis using al(3) [OF w(1)] w(2) by simp
  qed
  show "lan_VNI (lan_spec x) \<noteq> Some v" if v: "v \<in> set vs" "view s k = Some x" "fst k = ''LAN''"
  proof
    assume vni: "lan_VNI (lan_spec x) = Some v"
    from v vs obtain w where w: "w \<in> set ws" "v = int w" by auto
    have "w \<le> maxVNI" "\<not> bv b1 w" using al(3) [OF w(1)] by auto
    moreover from this w have "to_uint v = w" by simp
    moreover have "x \<in> set lans" by (rule client_List(2) [OF assms(1) list refl v(3,2)])
    ultimately show False using ml vni by blast
  qed
qed

lemma GetAvailableVNIs_complete:
  assumes "bitset_laws bv len bs" and "clnt_List clnt ''LAN'' s = (Inr lans, s1)"
    and "\<forall>x\<in>set lans. \<exists>v. lan_VNI (lan_spec x) = Some v \<and> 0 \<le> v \<and> v < 2 ^ 31"
    and "n \<le> card {k. 1 \<le> k \<and> k < 16777215 \<and> (\<forall>x\<in>set lans. lan_VNI (lan_spec x) \<noteq> Some (int k))}"
  shows "ok (fst (GetAvailableVNIs bs clnt n s))"
proof -
  obtain b0 where b0: "bs_Set bs 0 (bs_New bs maxVNI) = Inr b0"
    using bitset_Set_ok [OF assms(1), of 0 "bs_New bs maxVNI"] by (auto simp: ok_iff)
  note st = bitset_Set [OF assms(1) b0]
  have mark: "\<exists>b'. foldm (mark_lan bs) lans b0 = Inr b' \<and> True"
  proof (rule foldm_ok)
    fix x u assume "x \<in> set lans"
    then obtain v where v: "lan_VNI (lan_spec x) = Some v" "0 \<le> v" "v < 2 ^ 31" using assms(3) by blast
    then have "to_uint v < 2 ^ 32" by (simp add: to_uint_def nat_less_iff)
    from bitset_Set_ok [OF assms(1) this] v(1) show "\<exists>w. mark_lan bs x u = Inr w \<and> True"
      by (auto simp: mark_lan_eq ok_iff)
  qed simp
  then obtain b1 where b1: "foldm (mark_lan bs) lans b0 = Inr b1" by blast
  note ml = mark_lans [OF assms(1) b1]
  have len: "maxVNI \<le> len b1" using bitset_New [OF assms(1), of maxVNI] st ml by (metis le_trans)
  have bits: "bv b1 j \<longleftrightarrow> j = 0 \<or> (\<exists>x\<in>set lans. \<exists>v. lan_VNI (lan_spec x) = Some v \<and> j = to_uint v)" for j
    using ml st bitset_New [OF assms(1)] by simp
  have "{k. 1 \<le> k \<and> k < 16777215 \<and> (\<forall>x\<in>set lans. lan_VNI (lan_spec x) \<noteq> Some (int k))}
      \<subseteq> {k. 0 \<le> k \<and> k < maxVNI \<and> \<not> bv b1 k}"
  proof
    fix k assume k: "k \<in> {k. 1 \<le> k \<and> k < 16777215 \<and> (\<forall>x\<in>set lans. lan_VNI (lan_spec x) \<noteq> Some (int k))}"
    have False if x: "x \<in> set lans" "lan_VNI (lan_spec x) = Some v" "k = to_uint v" for x v
    proof -
      have "v = int k" using assms(3) x by (force simp: to_uint_def)
      then show False using k x by auto
    qed
    then show "k \<in> {k. 0 \<le> k \<and> k < maxVNI \<and> \<not> bv b1 k}" using k by (auto simp: bits)
  qed
  then have "card {k. 1 \<le> k \<and> k < 16777215 \<and> (\<forall>x\<in>set lans. lan_VNI (lan_spec x) \<noteq> Some (int k))}
      \<le> card {k. 0 \<le> k \<and> k < maxVNI \<and> \<not> bv b1 k}" by (rule card_mono [rotated]) simp
  with assms(4) have "n \<le> card {k. 0 \<le> k \<and> k < maxVNI \<and> \<not> bv b1 k}" by (rule order_trans)
  from alloc_complete [OF assms(1) len this] obtain vs where
    "alloc bs ''no available vni to allocate'' n 0 b1 = Inr vs" by (auto simp: ok_iff)
  then show ?thesis using assms(2) b0 b1 by (simp add: GetAvailableVNIs_def bindp_def wrapp_def)
qed

section \<open>What \<open>EnsureLinks\<close> does to the cluster\<close>

definition lan_key :: "ParsedLab \<Rightarrow> string \<Rightarrow> key" where
  "lan_key plab linkName =
     (''LAN'', lab_Namespace (plab_Lab plab), Getk8lanName (lab_Name (plab_Lab plab)) linkName)"

lemma lan_key_inj [simp]: "lan_key plab l = lan_key plab l' \<longleftrightarrow> l = l'"
  by (simp add: lan_key_def Getk8lanName_def)

lemma add_spoke_same:
  assumes "foldm (add_spoke linkName) cs (lan, plab) = Inr (lan', plab')"
  shows "plab_Lab plab' = plab_Lab plab \<and> plab_SetOwnerFunc plab' = plab_SetOwnerFunc plab \<and> lan_VNI lan' = lan_VNI lan"
  using assms
proof (induction cs arbitrary: lan plab)
  case (Cons ic cs)
  from Cons.prems obtain u where u: "add_spoke linkName ic (lan, plab) = Inr u" "foldm (add_spoke linkName) cs u = Inr (lan', plab')"
    by (auto simp: bindr_eq_Inr)
  obtain lan1 plab1 where u1: "u = (lan1, plab1)" by fastforce
  have "plab_Lab plab1 = plab_Lab plab \<and> plab_SetOwnerFunc plab1 = plab_SetOwnerFunc plab \<and> lan_VNI lan1 = lan_VNI lan"
    using u(1) u1 by (auto simp: add_spoke_def Let_def result_simps split: prod.splits)
  then show ?case using Cons.IH [of lan1 plab1] u(2) u1 by simp
qed simp

lemma get_lan_ok:
  assumes "client_laws view clnt" and "get_lan gconf clnt (plab_Lab plab) linkName vni s = (Inr lan, s')"
  shows "view s' = view s" and "obj_key lan = lan_key plab linkName"
    and "view s (lan_key plab linkName) = Some lan \<or>
      view s (lan_key plab linkName) = None \<and> lan_VNI (lan_spec lan) = Some vni"
proof -
  let ?lab = "plab_Lab plab"
  let ?n = "Getk8lanName (lab_Name ?lab) linkName"
  let ?e = "new_obj ''LAN''"
  obtain r s1 where get: "clnt_Get clnt (lab_Namespace ?lab) ?n ?e s = (r, s1)" by fastforce
  note cg = client_Get [OF assms(1) get]
  have "s1 = s'" using assms(2) get by (auto simp: get_lan_def Let_def split: sum.splits if_splits)
  with cg(1) show "view s' = view s" by simp
  have "obj_key lan = lan_key plab linkName \<and> (view s (lan_key plab linkName) = Some lan \<or>
      view s (lan_key plab linkName) = None \<and> lan_VNI (lan_spec lan) = Some vni)"
  proof (cases r)
    case (Inr x)
    then have "x = lan" using assms(2) get by (simp add: get_lan_def Let_def)
    then have "view s (lan_key plab linkName) = Some lan" using cg(2) [OF Inr] by (simp add: lan_key_def)
    then show ?thesis using client_key [OF assms(1)] by blast
  next
    case (Inl e)
    then have nf: "IsNotFound e" and lan: "new_lan gconf ?lab linkName vni = Inr lan"
      using assms(2) get by (auto simp: get_lan_def Let_def wrapf_eq_Inr split: if_splits)
    have "view s (lan_key plab linkName) = None" using cg(3) [OF Inl nf] by (simp add: lan_key_def)
    then show ?thesis using lan
      by (auto simp: new_lan_def Let_def result_simps lan_spec_def obj_key_def lan_key_def)
  qed
  then show "obj_key lan = lan_key plab linkName"
    and "view s (lan_key plab linkName) = Some lan \<or>
      view s (lan_key plab linkName) = None \<and> lan_VNI (lan_spec lan) = Some vni" by blast+
qed

lemma ensure_link_ok:
  assumes "client_laws view clnt" "owner_laws plab"
    and "ensure_link gconf clnt (linkName, vni) plab s = (Inr plab', s')"
  shows "plab_Lab plab' = plab_Lab plab" and "plab_SetOwnerFunc plab' = plab_SetOwnerFunc plab"
    and "unchanged_except (lan_key plab linkName) (view s) (view s')"
    and "\<exists>x. view s' (lan_key plab linkName) = Some x \<and> owned_by plab x \<and>
      (case view s (lan_key plab linkName) of Some y \<Rightarrow> x = y | None \<Rightarrow> lan_VNI (lan_spec x) = Some vni)"
proof -
  let ?k = "lan_key plab linkName"
  from assms(3) obtain lan s1 cs spec where get: "get_lan gconf clnt (plab_Lab plab) linkName vni s = (Inr lan, s1)"
    and sp: "foldm (add_spoke linkName) cs (lan_spec lan, plab) = Inr (spec, plab')"
    and cr: "createIfNotExistsOrRemove clnt plab' (lan\<lparr>obj_Body := LANBody spec\<rparr>) True False s1 = (Inr (), s')"
    by (fastforce simp: ensure_link_def Let_def result_simps split: prod.splits)
  note gl = get_lan_ok [OF assms(1) get]
  note same = add_spoke_same [OF sp]
  show lab: "plab_Lab plab' = plab_Lab plab" "plab_SetOwnerFunc plab' = plab_SetOwnerFunc plab" using same by auto
  let ?t = "lan\<lparr>obj_Body := LANBody spec\<rparr>"
  have own: "owner_laws plab'" using assms(2) lab by (simp add: owner_laws_def)
  have key: "obj_key ?t = ?k" using gl(2) by (simp add: obj_key_def)
  have ns: "meta_Namespace (obj_Meta ?t) = lab_Namespace (plab_Lab plab')"
    using gl(2) lab by (simp add: obj_key_def lan_key_def)
  show "unchanged_except ?k (view s) (view s')"
    using createOrRemove_frame [OF assms(1) own ns cr] key gl(1) by simp
  have ob: "owned_by plab' = owned_by plab" by (rule ext) (simp add: owned_by_def lab)
  have "\<exists>x. view s' ?k = Some x \<and> owned_by plab' x \<and> (view s ?k = None \<longrightarrow> obj_Body x = LANBody spec)"
    using createOrRemove_exists [OF assms(1) own ns cr] key unfolding gl(1) by (simp add: obj_key_def lan_key_def)
  then obtain x where x: "view s' ?k = Some x" "owned_by plab x" "view s ?k = None \<longrightarrow> obj_Body x = LANBody spec"
    unfolding ob by (elim exE conjE) rule
  have "case view s ?k of Some y \<Rightarrow> x = y | None \<Rightarrow> lan_VNI (lan_spec x) = Some vni"
  proof (cases "view s ?k")
    case None
    then show ?thesis using x(3) gl(3) same by (simp add: lan_spec_def)
  next
    case (Some y)
    then have "view s' ?k = Some y" using createOrRemove_keeps [OF assms(1) own ns cr] gl(1) by simp
    then show ?thesis using x(1) Some by simp
  qed
  then show "\<exists>x. view s' ?k = Some x \<and> owned_by plab x \<and>
      (case view s ?k of Some y \<Rightarrow> x = y | None \<Rightarrow> lan_VNI (lan_spec x) = Some vni)"
    using x(1,2) by (intro exI [of _ x]) simp
qed

lemma ensure_links_ok:
  assumes "client_laws view clnt" "owner_laws plab" "distinct (map fst ls)"
    and "foldp (ensure_link gconf clnt) ls plab s = (Inr plab', s')"
  shows "k \<notin> lan_key plab ` fst ` set ls \<Longrightarrow> view s' k = view s k"
    and "(l, v) \<in> set ls \<Longrightarrow> \<exists>x. view s' (lan_key plab l) = Some x \<and> owned_by plab x \<and>
      (case view s (lan_key plab l) of Some y \<Rightarrow> x = y | None \<Rightarrow> lan_VNI (lan_spec x) = Some v)"
proof -
  have "(\<forall>k. k \<notin> lan_key plab ` fst ` set ls \<longrightarrow> view s' k = view s k) \<and>
    (\<forall>(l, v)\<in>set ls. \<exists>x. view s' (lan_key plab l) = Some x \<and> owned_by plab x \<and>
      (case view s (lan_key plab l) of Some y \<Rightarrow> x = y | None \<Rightarrow> lan_VNI (lan_spec x) = Some v))"
    using assms(2-4)
  proof (induction ls arbitrary: plab s)
    case (Cons lv ls)
    obtain l0 v0 where lv: "lv = (l0, v0)" by fastforce
    from Cons.prems(3) obtain p1 s1 where one: "ensure_link gconf clnt (l0, v0) plab s = (Inr p1, s1)"
      and rest: "foldp (ensure_link gconf clnt) ls p1 s1 = (Inr plab', s')"
      by (auto simp: result_simps lv)
    note el = ensure_link_ok [OF assms(1) Cons.prems(1) one]
    have own: "owner_laws p1" using Cons.prems(1) el(1,2) by (simp add: owner_laws_def)
    have keys: "lan_key p1 = lan_key plab" by (rule ext) (simp add: lan_key_def el(1))
    have ob: "owned_by p1 = owned_by plab" by (rule ext) (simp add: owned_by_def el(1))
    have "distinct (map fst ls)" and l0: "l0 \<notin> fst ` set ls" using Cons.prems(2) by (auto simp: lv)
    note IH = Cons.IH [OF own this(1) rest, unfolded keys ob]
    have fr: "view s1 k = view s k" if "k \<noteq> lan_key plab l0" for k
      using el(3) that by (simp add: unchanged_except_def del: split_paired_All)
    have "lan_key plab l0 \<notin> lan_key plab ` fst ` set ls" using l0 by (metis (no_types, lifting) imageE lan_key_inj)
    then have at: "view s' (lan_key plab l0) = view s1 (lan_key plab l0)" using IH by blast
    show ?case
    proof (intro conjI ballI allI impI)
      fix k assume "k \<notin> lan_key plab ` fst ` set (lv # ls)"
      then have k: "k \<noteq> lan_key plab l0" "k \<notin> lan_key plab ` fst ` set ls" by (simp_all add: lv)
      from IH k(2) have "view s' k = view s1 k" by blast
      then show "view s' k = view s k" using fr [OF k(1)] by simp
    next
      fix y assume y: "y \<in> set (lv # ls)"
      show "case y of (l, v) \<Rightarrow> \<exists>x. view s' (lan_key plab l) = Some x \<and> owned_by plab x \<and>
        (case view s (lan_key plab l) of Some y \<Rightarrow> x = y | None \<Rightarrow> lan_VNI (lan_spec x) = Some v)"
      proof (cases "y = lv")
        case True
        then show ?thesis using el(4) at lv by simp
      next
        case False
        then have y': "y \<in> set ls" using y by simp
        obtain l v where ylv: "y = (l, v)" by fastforce
        then have "l \<noteq> l0" using l0 y' by force
        then have "view s1 (lan_key plab l) = view s (lan_key plab l)" using fr by simp
        then show ?thesis using IH y' ylv by fastforce
      qed
    qed
  qed simp
  then show "k \<notin> lan_key plab ` fst ` set ls \<Longrightarrow> view s' k = view s k"
    and "(l, v) \<in> set ls \<Longrightarrow> \<exists>x. view s' (lan_key plab l) = Some x \<and> owned_by plab x \<and>
      (case view s (lan_key plab l) of Some y \<Rightarrow> x = y | None \<Rightarrow> lan_VNI (lan_spec x) = Some v)" by blast+
qed

definition link_names :: "ParsedLab \<Rightarrow> string set" where
  "link_names plab = fst ` set (entries (lab_LinkList (lab_Spec (plab_Lab plab))))"

definition vnis_unique :: "(key \<Rightarrow> KObj option) \<Rightarrow> bool" where
  "vnis_unique v \<longleftrightarrow> (\<forall>k k' x x' n. fst k = ''LAN'' \<longrightarrow> fst k' = ''LAN'' \<longrightarrow> v k = Some x \<longrightarrow> v k' = Some x' \<longrightarrow>
     lan_VNI (lan_spec x) = Some n \<longrightarrow> lan_VNI (lan_spec x') = Some n \<longrightarrow> k = k')"

lemma EnsureLinks_run:
  assumes "client_laws view clnt" "owner_laws plab" "bitset_laws bv len bs"
    and "wfmap (entries (lab_LinkList (lab_Spec (plab_Lab plab))))"
    and "EnsureLinks bs gconf clnt plab s = (Inr plab', s')"
  obtains vs where "sorted_wrt (<) vs" "length vs = length (GetSortedKeySlice (entries (lab_LinkList (lab_Spec (plab_Lab plab)))))"
    "\<And>v k x. v \<in> set vs \<Longrightarrow> view s k = Some x \<Longrightarrow> fst k = ''LAN'' \<Longrightarrow> lan_VNI (lan_spec x) \<noteq> Some v"
    "\<And>k. k \<notin> lan_key plab ` link_names plab \<Longrightarrow> view s' k = view s k"
    "\<And>l v. (l, v) \<in> set (zip (GetSortedKeySlice (entries (lab_LinkList (lab_Spec (plab_Lab plab))))) vs) \<Longrightarrow>
      \<exists>x. view s' (lan_key plab l) = Some x \<and> owned_by plab x \<and>
        (case view s (lan_key plab l) of Some y \<Rightarrow> x = y | None \<Rightarrow> lan_VNI (lan_spec x) = Some v)"
proof -
  let ?ls = "GetSortedKeySlice (entries (lab_LinkList (lab_Spec (plab_Lab plab))))"
  from assms(5) obtain vs s1 where vs: "GetAvailableVNIs bs clnt (length ?ls) s = (Inr vs, s1)"
    and run: "foldp (ensure_link gconf clnt) (zip ?ls vs) plab s1 = (Inr plab', s')"
    by (auto simp: EnsureLinks_def Let_def result_simps)
  note av = GetAvailableVNIs_ok [OF assms(1,3) vs]
  have fst: "map fst (zip ?ls vs) = ?ls" using av(2) by simp
  have dist: "distinct (map fst (zip ?ls vs))" unfolding fst using assms(4) by simp
  have names: "fst ` set (zip ?ls vs) = link_names plab"
    using arg_cong [OF fst, of set] by (simp add: link_names_def)
  note en = ensure_links_ok [OF assms(1,2) dist run, unfolded av(1) names]
  show thesis by (rule that [OF av(3,2) av(5) en])
qed

lemma vnis_unique_add:
  assumes "vnis_unique v" and "distinct (map fst ls)" and "distinct (map snd ls)"
    and "inj key" and "\<And>l. fst (key l) = ''LAN''"
    and fresh: "\<And>l n k x. (l, n) \<in> set ls \<Longrightarrow> v k = Some x \<Longrightarrow> fst k = ''LAN'' \<Longrightarrow> lan_VNI (lan_spec x) \<noteq> Some n"
    and frame: "\<And>k. k \<notin> key ` fst ` set ls \<Longrightarrow> v' k = v k"
    and new: "\<And>l n. (l, n) \<in> set ls \<Longrightarrow> \<exists>x. v' (key l) = Some x \<and>
        (case v (key l) of Some y \<Rightarrow> x = y | None \<Rightarrow> lan_VNI (lan_spec x) = Some n)"
  shows "vnis_unique v'"
proof -
  have origin: "v k = Some x \<or> (\<exists>l n. (l, n) \<in> set ls \<and> k = key l \<and> lan_VNI (lan_spec x) = Some n)"
    if "v' k = Some x" for k x
  proof (cases "k \<in> key ` fst ` set ls")
    case True
    then obtain l n where ln: "(l, n) \<in> set ls" "k = key l" by auto
    then show ?thesis using new [OF ln(1)] that by (auto split: option.splits)
  qed (use frame that in auto)
  show ?thesis unfolding vnis_unique_def
  proof (intro allI impI)
    fix k k' x x' n
    assume lan: "fst k = ''LAN''" "fst k' = ''LAN''" and at: "v' k = Some x" "v' k' = Some x'"
      and n: "lan_VNI (lan_spec x) = Some n" "lan_VNI (lan_spec x') = Some n"
    have o: "v k = Some x \<or> (\<exists>l. (l, n) \<in> set ls \<and> k = key l)" if "v' k = Some x" "lan_VNI (lan_spec x) = Some n" for k x
      using origin [OF that(1)] that(2) by auto
    consider (old) "v k = Some x" "v k' = Some x'"
      | (new) l l' where "(l, n) \<in> set ls" "(l', n) \<in> set ls" "k = key l" "k' = key l'"
      | (mixed) l k x where "(l, n) \<in> set ls" "v k = Some x" "fst k = ''LAN''" "lan_VNI (lan_spec x) = Some n"
      using o [OF at(1) n(1)] o [OF at(2) n(2)] n lan by blast
    then show "k = k'"
    proof cases
      case old
      then show ?thesis using assms(1) lan n unfolding vnis_unique_def by blast
    next
      case new
      from assms(3) have "inj_on snd (set ls)" by (simp add: distinct_map)
      then have "(l, n) = (l', n)" using new(1,2) by (metis inj_onD snd_conv)
      then show ?thesis using new by simp
    next
      case mixed
      then show ?thesis using fresh [OF mixed(1-3)] by simp
    qed
  qed
qed

section \<open>A bit set in memory\<close>

function next_clear :: "nat \<Rightarrow> nat list \<Rightarrow> nat" where
  "next_clear i xs = (if i \<in> set xs then next_clear (i + 1) (removeAll i xs) else i)"
  by auto
termination by (relation "measure (\<lambda>(i, xs). length xs)") (auto simp: length_removeAll_less)

declare next_clear.simps [simp del]

definition mem_bitset :: "(nat \<times> nat list) Bitset" where
  "mem_bitset = \<lparr>bs_New = (\<lambda>n. (n, [])), bs_Set = (\<lambda>i (n, xs). Inr (max n (i + 1), i # xs)),
     bs_NextClear = (\<lambda>i (n, xs). let j = next_clear i xs in if j < n then Some j else None)\<rparr>"

lemma next_clear_ok:
  "i \<le> next_clear i xs \<and> next_clear i xs \<notin> set xs \<and> (\<forall>k. i \<le> k \<longrightarrow> k < next_clear i xs \<longrightarrow> k \<in> set xs)"
proof (induction i xs rule: next_clear.induct)
  case (1 i xs)
  show ?case
  proof (cases "i \<in> set xs")
    case True
    note IH = 1 [OF True]
    have eq: "next_clear i xs = next_clear (i + 1) (removeAll i xs)" using True by (simp add: next_clear.simps [of i xs])
    have "k \<in> set xs" if "i \<le> k" "k < next_clear (i + 1) (removeAll i xs)" for k
      using IH that True by (cases "k = i") auto
    then show ?thesis using IH unfolding eq by auto
  qed (simp add: next_clear.simps [of i xs])
qed

lemma mem_bitset_laws: "bitset_laws (\<lambda>b i. i \<in> set (snd b)) fst mem_bitset"
  using next_clear_ok by (auto simp: bitset_laws_def mem_bitset_def Let_def split: if_splits)

lemma links_made:
  assumes "client_laws view clnt" "owner_laws plab" "bitset_laws bv len bs"
    and "wfmap (entries (lab_LinkList (lab_Spec (plab_Lab plab))))"
    and "EnsureLinks bs gconf clnt plab s = (Inr plab', s')" and "l \<in> link_names plab"
  shows "\<exists>x. view s' (lan_key plab l) = Some x \<and> owned_by plab x \<and> (\<forall>y. view s (lan_key plab l) = Some y \<longrightarrow> x = y)"
proof -
  let ?ls = "GetSortedKeySlice (entries (lab_LinkList (lab_Spec (plab_Lab plab))))"
  obtain vs where vs: "length vs = length ?ls" "\<And>l v. (l, v) \<in> set (zip ?ls vs) \<Longrightarrow>
      \<exists>x. view s' (lan_key plab l) = Some x \<and> owned_by plab x \<and>
        (case view s (lan_key plab l) of Some y \<Rightarrow> x = y | None \<Rightarrow> lan_VNI (lan_spec x) = Some v)"
    using EnsureLinks_run [OF assms(1-5)] by metis
  have "l \<in> set ?ls" using assms(6) by (simp add: link_names_def)
  then obtain v where "(l, v) \<in> set (zip ?ls vs)" using vs(1) by (metis in_set_impl_in_set_zip1)
  from vs(2) [OF this] show ?thesis by (auto split: option.splits)
qed

end
