(* ===== verification/LabController.thy ===== *)
theory LabController
  imports Links
begin

text \<open>
  The lab controller (internal/controller/lab_controller.go): one call of \<open>Reconcile\<close> over the
  cluster. The \<open>Ensure\<close> methods of the node types are an argument, called through the \<open>System\<close>
  interface as the code does.

  A lab is stored as an object of kind Lab; its finalizers and deletion timestamp are those of
  its metadata.
\<close>

section \<open>Finalizers\<close>

definition ContainsFinalizer :: "KObj \<Rightarrow> string \<Rightarrow> bool" where
  "ContainsFinalizer x f \<longleftrightarrow> f \<in> set (meta_Finalizers (obj_Meta x))"

definition set_finalizers :: "(string list \<Rightarrow> string list) \<Rightarrow> KObj \<Rightarrow> KObj" where
  "set_finalizers g x = x\<lparr>obj_Meta := (obj_Meta x)\<lparr>meta_Finalizers := g (meta_Finalizers (obj_Meta x))\<rparr>\<rparr>"

definition AddFinalizer :: "KObj \<Rightarrow> string \<Rightarrow> KObj" where
  "AddFinalizer x f = set_finalizers (\<lambda>fs. if f \<in> set fs then fs else fs @ [f]) x"

definition RemoveFinalizer :: "KObj \<Rightarrow> string \<Rightarrow> KObj" where
  "RemoveFinalizer x f = set_finalizers (removeAll f) x"

section \<open>Reconciliation\<close>

text \<open>The lab an object of kind Lab decodes to.\<close>

definition lab_of :: "KObj \<Rightarrow> SRCard Lab" where
  "lab_of x = \<lparr>lab_Name = meta_Name (obj_Meta x), lab_Namespace = meta_Namespace (obj_Meta x),
     lab_UID = meta_UID (obj_Meta x),
     lab_Spec = (case obj_Body x of LabBody spec \<Rightarrow> spec | _ \<Rightarrow> \<lparr>lab_NodeList = None, lab_LinkList = None\<rparr>)\<rparr>"

definition release_lan :: "'s Client \<Rightarrow> SRCard Lab \<Rightarrow> string \<Rightarrow> ('s, unit) proc" where
  "release_lan clnt lab link s =
     (let lanName = Getk8lanName (lab_Name lab) link;
          update = (\<lambda>lan. wrapp ''failed to remove finalizer on LAN %v, %w'' [lanName]
                            (clnt_Update clnt (RemoveFinalizer lan FinalizerName)))
      in case clnt_Get clnt (lab_Namespace lab) lanName (new_obj ''LAN'') s of
           (Inl e, s') \<Rightarrow>
             if IsNotFound e then update (new_obj ''LAN'') s'
             else (wrapf ''failed to check finalizer on LAN %v, %w'' [lanName] (Inl e), s')
         | (Inr lan, s') \<Rightarrow> update lan s')"

definition deleteExternalResources :: "'s Client \<Rightarrow> SRCard Lab \<Rightarrow> ('s, unit) proc" where
  "deleteExternalResources clnt lab = eachp (release_lan clnt lab) (map fst (entries (lab_LinkList (lab_Spec lab))))"

type_synonym 's ensure = "ParsedLab \<Rightarrow> string \<Rightarrow> SRCard System \<Rightarrow> ('s, unit) proc"

definition ensure_node :: "'s ensure \<Rightarrow> ParsedLab \<Rightarrow> string \<times> SRCard OneOfSystem \<Rightarrow> ('s, unit) proc" where
  "ensure_node Ensure plab = (\<lambda>(nodeName, node).
     bindp (liftp (deref (fst (GetSystem node)))) (Ensure plab nodeName))"

text \<open>An error is logged and dropped; a panic is not caught.\<close>

definition logged :: "('s, 'a) proc \<Rightarrow> ('s, unit) proc" where
  "logged m s = (case m s of
      (Inl (Panic p), s') \<Rightarrow> (Inl (Panic p), s') | (Inl (Err _), s') \<Rightarrow> (Inr (), s') | (Inr _, s') \<Rightarrow> (Inr (), s'))"

definition build ::
  "'b Bitset \<Rightarrow> SRCard KNLConfigSpec \<Rightarrow> 's Client \<Rightarrow> 's ensure \<Rightarrow> ParsedLab \<Rightarrow> ('s, unit) proc" where
  "build bs gconf clnt Ensure plab =
     bindp (EnsureLinks bs gconf clnt plab) (\<lambda>plab.
       eachp (ensure_node Ensure plab) (entries (lab_NodeList (lab_Spec (plab_Lab plab)))))"

definition Reconcile ::
  "'b Bitset \<Rightarrow> SRCard KNLConfigSpec \<Rightarrow> 's Client \<Rightarrow> (SRCard Lab \<Rightarrow> KObj \<Rightarrow> KObj result) \<Rightarrow> 's ensure \<Rightarrow>
   string \<Rightarrow> string \<Rightarrow> ('s, unit) proc" where
  "Reconcile bs gconf clnt SetControllerReference Ensure ns name s =
     (case clnt_Get clnt ns name (new_obj ''Lab'') s of
        (Inl e, s') \<Rightarrow> ((if IsNotFound e then Inr () else Inl e), s')
      | (Inr x, s') \<Rightarrow>
          bindp (liftp (ParseLab (lab_of x) SetControllerReference)) (\<lambda>plab.
            if meta_DeletionTimestamp (obj_Meta x) = None then
              bindp (if ContainsFinalizer x FinalizerName then retp ()
                     else clnt_Update clnt (AddFinalizer x FinalizerName))
                (\<lambda>_. logged (build bs gconf clnt Ensure plab))
            else if ContainsFinalizer x FinalizerName then
              bindp (deleteExternalResources clnt (lab_of x)) (\<lambda>_.
                clnt_Update clnt (RemoveFinalizer x FinalizerName))
            else retp ()) s')"

section \<open>Links, whatever the result\<close>

lemma ensure_link_frame:
  assumes "client_laws view clnt" "owner_laws plab" and "ensure_link gconf clnt (linkName, vni) plab s = (r, s')"
  shows "unchanged_except (lan_key plab linkName) (view s) (view s')"
proof -
  let ?k = "lan_key plab linkName"
  obtain g s1 where get: "get_lan gconf clnt (plab_Lab plab) linkName vni s = (g, s1)" by fastforce
  have view1: "view s1 = view s"
  proof -
    let ?n = "Getk8lanName (lab_Name (plab_Lab plab)) linkName"
    let ?e = "new_obj ''LAN''"
    obtain q s2 where c: "clnt_Get clnt (lab_Namespace (plab_Lab plab)) ?n ?e s = (q, s2)" by fastforce
    have "s1 = s2" using get c by (auto simp: get_lan_def Let_def split: sum.splits if_splits)
    then show ?thesis using client_Get(1) [OF assms(1) c] by simp
  qed
  show ?thesis
  proof (cases g)
    case (Inl e)
    then show ?thesis using assms(3) get view1 by (simp add: ensure_link_def Let_def)
  next
    case (Inr lan)
    note gl = get_lan_ok [OF assms(1) get [unfolded Inr]]
    define cs where "cs = indexed (case map_of (entries (lab_LinkList (lab_Spec (plab_Lab plab)))) linkName of
        Some l \<Rightarrow> link_Connectors l | None \<Rightarrow> [])"
    have run: "bindp (liftp (foldm (add_spoke linkName) cs (lan_spec lan, plab))) (\<lambda>(spec, p).
        bindp (wrapp ''failed to create LAN CR for lab %v link %v, %w'' [lab_Name (plab_Lab plab), linkName]
                (createIfNotExistsOrRemove clnt p (lan\<lparr>obj_Body := LANBody spec\<rparr>) True False)) (\<lambda>_.
        retp p)) s1 = (r, s')"
      using assms(3) get Inr by (simp add: ensure_link_def Let_def cs_def)
    show ?thesis
    proof (cases "foldm (add_spoke linkName) cs (lan_spec lan, plab)")
      case (Inl e)
      then show ?thesis using run view1 by (simp add: bindp_def)
    next
      case (Inr sp)
      obtain spec p1 where sp: "sp = (spec, p1)" by fastforce
      note same = add_spoke_same [OF Inr [unfolded sp]]
      let ?t = "lan\<lparr>obj_Body := LANBody spec\<rparr>"
      obtain q s2 where c: "createIfNotExistsOrRemove clnt p1 ?t True False s1 = (q, s2)" by fastforce
      have "s' = s2" using run Inr sp c by (auto simp: bindp_def wrapp_def split: sum.splits)
      moreover have "owner_laws p1" using assms(2) same by (simp add: owner_laws_def)
      moreover have "obj_key ?t = ?k" using gl(2) by (simp add: obj_key_def)
      moreover have "meta_Namespace (obj_Meta ?t) = lab_Namespace (plab_Lab p1)"
        using gl(2) same by (simp add: obj_key_def lan_key_def)
      ultimately show ?thesis using createOrRemove_frame [OF assms(1) _ _ c] view1 by simp
    qed
  qed
qed

text \<open>A parsed lab that differs only in its spoke maps.\<close>

definition same_lab :: "ParsedLab \<Rightarrow> ParsedLab \<Rightarrow> bool" where
  "same_lab p q \<longleftrightarrow> plab_Lab q = plab_Lab p \<and> plab_SetOwnerFunc q = plab_SetOwnerFunc p"

lemma same_lab_refl [simp]: "same_lab p p"
  by (simp add: same_lab_def)

lemma same_lab_trans: "same_lab p q \<Longrightarrow> same_lab q r \<Longrightarrow> same_lab p r"
  by (simp add: same_lab_def)

lemma same_lab_laws: "same_lab p q \<Longrightarrow> owner_laws p \<Longrightarrow> owner_laws q"
  by (simp add: same_lab_def owner_laws_def)

lemma same_lab_key: "same_lab p q \<Longrightarrow> lan_key q = lan_key p"
  by (simp add: same_lab_def lan_key_def fun_eq_iff)

lemma ensure_links_frame:
  assumes "client_laws view clnt" "owner_laws plab" and "foldp (ensure_link gconf clnt) ls plab s = (r, s')"
  shows "outside view (lan_key plab ` fst ` set ls) s s'" and "r = Inr plab' \<Longrightarrow> same_lab plab plab'"
proof -
  have "outside view (lan_key plab ` fst ` set ls) s s' \<and> (\<forall>p. r = Inr p \<longrightarrow> same_lab plab p)"
    using assms(2,3)
  proof (induction ls arbitrary: plab s)
    case (Cons lv ls)
    obtain l v where lv: "lv = (l, v)" by fastforce
    obtain q s1 where one: "ensure_link gconf clnt (l, v) plab s = (q, s1)" by fastforce
    have step: "outside view (lan_key plab ` fst ` set (lv # ls)) s s1"
      by (rule unchanged_outside [OF ensure_link_frame [OF assms(1) Cons.prems(1) one]]) (simp add: lv)
    show ?case
    proof (cases q)
      case (Inl e)
      then show ?thesis using Cons.prems(2) one lv step by auto
    next
      case (Inr p1)
      note el = ensure_link_ok [OF assms(1) Cons.prems(1) one [unfolded Inr]]
      have same: "same_lab plab p1" using el(1,2) by (simp add: same_lab_def)
      from Cons.IH [OF same_lab_laws [OF same Cons.prems(1)]] Cons.prems(2) one lv Inr
      have rest: "outside view (lan_key p1 ` fst ` set ls) s1 s'" "\<forall>p. r = Inr p \<longrightarrow> same_lab p1 p" by auto
      have "outside view (lan_key plab ` fst ` set (lv # ls)) s1 s'"
        by (rule outside_mono [OF rest(1)]) (auto simp: same_lab_key [OF same])
      with step have "outside view (lan_key plab ` fst ` set (lv # ls)) s s'" using transpD [OF outside_refl(2)] by fastforce
      then show ?thesis using rest(2) same_lab_trans [OF same] by blast
    qed
  qed auto
  then show "outside view (lan_key plab ` fst ` set ls) s s'" "r = Inr plab' \<Longrightarrow> same_lab plab plab'" by blast+
qed

lemma EnsureLinks_frame:
  assumes "client_laws view clnt" "owner_laws plab" and "EnsureLinks bs gconf clnt plab s = (r, s')"
  shows "outside view (lan_key plab ` link_names plab) s s'" and "r = Inr plab' \<Longrightarrow> same_lab plab plab'"
proof -
  let ?ls = "GetSortedKeySlice (entries (lab_LinkList (lab_Spec (plab_Lab plab))))"
  obtain q s1 where vs: "GetAvailableVNIs bs clnt (length ?ls) s = (q, s1)" by fastforce
  have view1: "view s1 = view s"
  proof -
    obtain p s2 where c: "clnt_List clnt ''LAN'' s = (p, s2)" by fastforce
    have "s1 = s \<or> s1 = s2"
      using vs c by (auto simp: GetAvailableVNIs_def bindp_def wrapp_def split: sum.splits prod.splits)
    then show ?thesis using client_List(1) [OF assms(1) c] by auto
  qed
  have "outside view (lan_key plab ` link_names plab) s s' \<and> (\<forall>p. r = Inr p \<longrightarrow> same_lab plab p)"
  proof (cases q)
    case (Inl e)
    then have "s' = s1 \<and> \<not> ok r" using assms(3) vs by (auto simp: EnsureLinks_def Let_def bindp_def wrapp_def wrapf_eq_Inr split: sum.splits)
    then show ?thesis using view1 by (auto simp: outside_def)
  next
    case (Inr vl)
    then have "foldp (ensure_link gconf clnt) (zip ?ls vl) plab s1 = (r, s')"
      using assms(3) vs by (simp add: EnsureLinks_def Let_def bindp_def wrapp_def)
    note el = ensure_links_frame [OF assms(1,2) this]
    have "fst ` set (zip ?ls vl) \<subseteq> link_names plab" by (auto simp: link_names_def dest!: set_zip_leftD)
    then have "outside view (lan_key plab ` link_names plab) s1 s'" using outside_mono [OF el(1)] by (meson image_mono)
    then show ?thesis using view1 el(2) by (simp add: outside_def)
  qed
  then show "outside view (lan_key plab ` link_names plab) s s'" "r = Inr plab' \<Longrightarrow> same_lab plab plab'" by blast+
qed

text \<open>Building a lab touches the LANs of its links and what the \<open>Ensure\<close> methods of its nodes touch.\<close>

lemma build_outside:
  assumes "client_laws view clnt" "owner_laws plab"
    and lans: "lan_key plab ` link_names plab \<subseteq> K"
    and nodes: "\<And>p node one sys. same_lab plab p \<Longrightarrow> (node, one) \<in> set (entries (lab_NodeList (lab_Spec (plab_Lab plab)))) \<Longrightarrow>
      fst (GetSystem one) = Some sys \<Longrightarrow> keeps (outside view K) (Ensure p node sys)"
  shows "keeps (outside view K) (build bs gconf clnt Ensure plab)"
proof (rule keepsI)
  fix s
  obtain q s1 where e: "EnsureLinks bs gconf clnt plab s = (q, s1)" by fastforce
  note el = EnsureLinks_frame [OF assms(1,2) e]
  have 1: "outside view K s s1" by (rule outside_mono [OF el(1) lans])
  show "outside view K s (snd (build bs gconf clnt Ensure plab s))"
  proof (cases q)
    case (Inl err)
    then show ?thesis using e 1 by (simp add: build_def)
  next
    case (Inr p)
    note same = el(2) [OF Inr]
    have "keeps (outside view K) (ensure_node Ensure p x)"
      if "x \<in> set (entries (lab_NodeList (lab_Spec (plab_Lab plab))))" for x
    proof -
      obtain node one where "x = (node, one)" by fastforce
      with that nodes [OF same, of node one] show ?thesis
        unfolding ensure_node_def by (auto simp: deref_eq_Inr intro!: keeps_bindp_liftp)
    qed
    then have "keeps (outside view K) (eachp (ensure_node Ensure p) (entries (lab_NodeList (lab_Spec (plab_Lab plab)))))"
      by (simp add: keeps_eachp)
    moreover have "plab_Lab p = plab_Lab plab" using same by (simp add: same_lab_def)
    ultimately have "outside view K s1 (snd (eachp (ensure_node Ensure p) (entries (lab_NodeList (lab_Spec (plab_Lab p)))) s1))"
      by (simp add: keeps_def)
    then show ?thesis using e Inr 1 transpD [OF outside_refl(2)] by (fastforce simp: build_def)
  qed
qed

section \<open>Deleting a lab\<close>

definition same_but_lans :: "(key \<Rightarrow> KObj option) \<Rightarrow> (key \<Rightarrow> KObj option) \<Rightarrow> bool" where
  "same_but_lans v v' \<longleftrightarrow> (\<forall>k. fst k \<noteq> ''LAN'' \<longrightarrow> v' k = v k)"

lemma same_but_lans_refl [simp]: "same_but_lans v v"
  by (simp add: same_but_lans_def)

lemma same_but_lans_trans: "same_but_lans u v \<Longrightarrow> same_but_lans v w \<Longrightarrow> same_but_lans u w"
  unfolding same_but_lans_def by metis

lemma unchanged_same_but_lans: "unchanged_except k v v' \<Longrightarrow> fst k = ''LAN'' \<Longrightarrow> same_but_lans v v'"
  unfolding unchanged_except_def same_but_lans_def by metis

definition lab_lan :: "SRCard Lab \<Rightarrow> string \<Rightarrow> key" where
  "lab_lan lab l = (''LAN'', lab_Namespace lab, Getk8lanName (lab_Name lab) l)"

lemma lab_lan_inj [simp]: "lab_lan lab l = lab_lan lab l' \<longleftrightarrow> l = l'"
  by (simp add: lab_lan_def Getk8lanName_def)

lemma fst_lab_lan [simp]: "fst (lab_lan lab l) = ''LAN''"
  by (simp add: lab_lan_def)

lemma RemoveFinalizer_sel [simp]:
  "obj_key (RemoveFinalizer x f) = obj_key x" "meta_Name (obj_Meta (RemoveFinalizer x f)) = meta_Name (obj_Meta x)"
  "obj_Body (RemoveFinalizer x f) = obj_Body x"
  "meta_Finalizers (obj_Meta (RemoveFinalizer x f)) = removeAll f (meta_Finalizers (obj_Meta x))"
  by (simp_all add: RemoveFinalizer_def set_finalizers_def obj_key_def)

lemma AddFinalizer_sel [simp]:
  "obj_key (AddFinalizer x f) = obj_key x" "f \<in> set (meta_Finalizers (obj_Meta (AddFinalizer x f)))"
  "meta_DeletionTimestamp (obj_Meta (AddFinalizer x f)) = meta_DeletionTimestamp (obj_Meta x)"
  by (simp_all add: AddFinalizer_def set_finalizers_def obj_key_def)

definition released :: "(key \<Rightarrow> KObj option) \<Rightarrow> key \<Rightarrow> bool" where
  "released v k \<longleftrightarrow> (\<forall>x. v k = Some x \<longrightarrow> \<not> ContainsFinalizer x FinalizerName)"

lemma release_lan_run:
  assumes "client_laws view clnt" and "release_lan clnt lab link s = (r, s')"
  shows "same_but_lans (view s) (view s')"
    and "view s (lab_lan lab link) = None \<Longrightarrow> \<not> ok r"
    and "ok r \<Longrightarrow> unchanged_except (lab_lan lab link) (view s) (view s') \<and> released (view s') (lab_lan lab link)"
proof -
  let ?n = "Getk8lanName (lab_Name lab) link" and ?k = "lab_lan lab link"
  obtain g s1 where get: "clnt_Get clnt (lab_Namespace lab) ?n (new_obj ''LAN'') s = (g, s1)" by fastforce
  note cg = client_Get [OF assms(1) get]
  have key: "(obj_Kind (new_obj ''LAN''), lab_Namespace lab, ?n) = ?k" by (simp add: lab_lan_def new_obj_def)
  consider (missing) e where "g = Inl e" "IsNotFound e" | (failed) e where "g = Inl e" "\<not> IsNotFound e" | (found) x where "g = Inr x"
    by (cases g) auto
  then have "same_but_lans (view s) (view s') \<and> (view s ?k = None \<longrightarrow> \<not> ok r) \<and>
    (ok r \<longrightarrow> unchanged_except ?k (view s) (view s') \<and> released (view s') ?k)"
  proof cases
    case missing
    obtain q s2 where u: "clnt_Update clnt (RemoveFinalizer (new_obj ''LAN'') FinalizerName) s1 = (q, s2)" by fastforce
    note cu = client_Update [OF assms(1) u]
    have "s' = s2" "ok r \<longleftrightarrow> ok q" using assms(2) get missing u by (auto simp: release_lan_def Let_def wrapp_def ok_wrapf)
    moreover have "\<not> ok q" using cu(2) client_nameless [OF assms(1)] by (simp add: new_obj_def obj_key_def RemoveFinalizer_def set_finalizers_def)
    moreover have "same_but_lans (view s1) (view s2)"
      by (rule unchanged_same_but_lans [OF cu(1)]) simp
    ultimately show ?thesis using cg(1) by simp
  next
    case failed
    then have "s' = s1" "\<not> ok r" using assms(2) get by (auto simp: release_lan_def Let_def ok_wrapf)
    then show ?thesis using cg(1) by simp
  next
    case found
    have some: "view s ?k = Some x" using cg(2) [OF found] key by simp
    have kx: "obj_key x = ?k" by (rule client_key [OF assms(1) some])
    obtain q s2 where u: "clnt_Update clnt (RemoveFinalizer x FinalizerName) s1 = (q, s2)" by fastforce
    note cu = client_Update [OF assms(1) u]
    have s2: "s' = s2" "ok r \<longleftrightarrow> ok q" using assms(2) get found u by (auto simp: release_lan_def Let_def wrapp_def ok_wrapf)
    have un: "unchanged_except ?k (view s) (view s')" using cu(1) kx s2(1) cg(1) by simp
    have "released (view s') ?k" if "ok r"
    proof (cases "gone_after (RemoveFinalizer x FinalizerName)")
      case True
      then show ?thesis using cu(3) that s2 kx by (simp add: released_def)
    next
      case False
      then show ?thesis using cu(4) that s2 kx by (auto simp: released_def ContainsFinalizer_def)
    qed
    with un unchanged_same_but_lans [OF un] some show ?thesis by simp
  qed
  then show "same_but_lans (view s) (view s')" "view s ?k = None \<Longrightarrow> \<not> ok r"
    "ok r \<Longrightarrow> unchanged_except ?k (view s) (view s') \<and> released (view s') ?k" by blast+
qed

lemma release_lans_run:
  assumes "client_laws view clnt" and "distinct ls" and "eachp (release_lan clnt lab) ls s = (r, s')"
  shows "same_but_lans (view s) (view s')"
    and "ok r \<Longrightarrow> l \<in> set ls \<Longrightarrow> view s (lab_lan lab l) \<noteq> None \<and> released (view s') (lab_lan lab l)"
proof -
  have "same_but_lans (view s) (view s') \<and> (ok r \<longrightarrow> (\<forall>l\<in>set ls. view s (lab_lan lab l) \<noteq> None \<and> released (view s') (lab_lan lab l)) \<and>
    (\<forall>k. k \<notin> lab_lan lab ` set ls \<longrightarrow> view s' k = view s k))"
    using assms(2,3)
  proof (induction ls arbitrary: s)
    case (Cons l0 ls)
    obtain q s1 where one: "release_lan clnt lab l0 s = (q, s1)" by fastforce
    note rl = release_lan_run [OF assms(1) one]
    show ?case
    proof (cases q)
      case (Inl e)
      then have "r = Inl e" "s' = s1" using Cons.prems(2) one by auto
      then show ?thesis using rl(1) by simp
    next
      case (Inr u)
      have rest: "eachp (release_lan clnt lab) ls s1 = (r, s')" using Cons.prems(2) one Inr by simp
      have dist: "distinct ls" "l0 \<notin> set ls" using Cons.prems(1) by auto
      note IH = Cons.IH [OF dist(1) rest]
      have un: "unchanged_except (lab_lan lab l0) (view s) (view s1)" "released (view s1) (lab_lan lab l0)"
        using rl(3) Inr by auto
      have fr: "view s1 k = view s k" if "k \<noteq> lab_lan lab l0" for k
        using un(1) that unfolding unchanged_except_def by blast
      have same: "same_but_lans (view s) (view s')" using same_but_lans_trans [OF rl(1)] IH by blast
      have "(\<forall>l\<in>set (l0 # ls). view s (lab_lan lab l) \<noteq> None \<and> released (view s') (lab_lan lab l)) \<and>
        (\<forall>k. k \<notin> lab_lan lab ` set (l0 # ls) \<longrightarrow> view s' k = view s k)" if okr: "ok r"
      proof (intro conjI ballI allI impI)
        have l0': "lab_lan lab l0 \<notin> lab_lan lab ` set ls" using dist(2) by auto
        then have at: "view s' (lab_lan lab l0) = view s1 (lab_lan lab l0)" using IH okr by blast
        fix l assume l: "l \<in> set (l0 # ls)"
        show "view s (lab_lan lab l) \<noteq> None"
        proof (cases "l = l0")
          case True
          then show ?thesis using rl(2) Inr by auto
        next
          case False
          then have "view s1 (lab_lan lab l) \<noteq> None" using IH okr l by simp
          then show ?thesis using fr [of "lab_lan lab l"] False by simp
        qed
        show "released (view s') (lab_lan lab l)"
        proof (cases "l = l0")
          case True
          then show ?thesis using un(2) at by (simp add: released_def)
        next
          case False
          then show ?thesis using IH okr l by simp
        qed
      next
        fix k assume "k \<notin> lab_lan lab ` set (l0 # ls)"
        then have k: "k \<noteq> lab_lan lab l0" "k \<notin> lab_lan lab ` set ls" by simp_all
        from IH okr k(2) have "view s' k = view s1 k" by blast
        then show "view s' k = view s k" using fr [OF k(1)] by simp
      qed
      with same show ?thesis by blast
    qed
  qed simp
  then show "same_but_lans (view s) (view s')"
    and "ok r \<Longrightarrow> l \<in> set ls \<Longrightarrow> view s (lab_lan lab l) \<noteq> None \<and> released (view s') (lab_lan lab l)" by blast+
qed

section \<open>One reconciliation\<close>

text \<open>The object of the lab, and the calls a reconciliation makes from it.\<close>

definition lab_key :: "string \<Rightarrow> string \<Rightarrow> key" where
  "lab_key ns name = (''Lab'', ns, name)"

lemma lab_of_key [simp]:
  "obj_key x = lab_key ns name \<Longrightarrow> lab_Namespace (lab_of x) = ns"
  "obj_key x = lab_key ns name \<Longrightarrow> lab_Name (lab_of x) = name"
  by (simp_all add: lab_of_def obj_key_def lab_key_def)

lemma Reconcile_run:
  assumes "client_laws view clnt" and "view s (lab_key ns name) = Some x"
    and "Reconcile bs gconf clnt setref Ensure ns name s = (r, s')"
  obtains (stopped) "view s' = view s" "\<not> ok r"
  | (deleting) s1 where "view s1 = view s" "meta_DeletionTimestamp (obj_Meta x) \<noteq> None" "ContainsFinalizer x FinalizerName"
      "bindp (deleteExternalResources clnt (lab_of x)) (\<lambda>_. clnt_Update clnt (RemoveFinalizer x FinalizerName)) s1 = (r, s')"
  | (gone) "view s' = view s" "r = Inr ()" "meta_DeletionTimestamp (obj_Meta x) \<noteq> None" "\<not> ContainsFinalizer x FinalizerName"
  | (building) s1 plab where "view s1 = view s" "meta_DeletionTimestamp (obj_Meta x) = None"
      "ParseLab (lab_of x) setref = Inr plab"
      "bindp (if ContainsFinalizer x FinalizerName then retp () else clnt_Update clnt (AddFinalizer x FinalizerName))
         (\<lambda>_. logged (build bs gconf clnt Ensure plab)) s1 = (r, s')"
proof -
  obtain g s1 where get: "clnt_Get clnt ns name (new_obj ''Lab'') s = (g, s1)" by fastforce
  note cg = client_Get [OF assms(1) get]
  have key: "(obj_Kind (new_obj ''Lab''), ns, name) = lab_key ns name" by (simp add: new_obj_def lab_key_def)
  show thesis
  proof (cases g)
    case (Inl e)
    then have nf: "\<not> IsNotFound e" using cg(3) assms(2) key by auto
    have "\<not> ok r" "s' = s1" using assms(3) get Inl nf by (auto simp: Reconcile_def)
    then show thesis using stopped cg(1) by simp
  next
    case (Inr y)
    then have y: "y = x" using cg(2) assms(2) key by simp
    show thesis
    proof (cases "ParseLab (lab_of x) setref")
      case (Inl e)
      then have "\<not> ok r" "s' = s1" using assms(3) get Inr y by (auto simp: Reconcile_def bindp_def)
      then show thesis using stopped cg(1) by simp
    next
      case parsed: (Inr plab)
      show thesis
      proof (cases "meta_DeletionTimestamp (obj_Meta x)")
        case None
        show thesis
          by (rule building [OF cg(1) None parsed]) (use assms(3) get Inr y parsed None in \<open>simp add: Reconcile_def bindp_def\<close>)
      next
        case (Some t)
        show thesis
        proof (cases "ContainsFinalizer x FinalizerName")
          case True
          show thesis
            by (rule deleting [OF cg(1) _ True])
              (use assms(3) get Inr y parsed Some True in \<open>auto simp: Reconcile_def bindp_def\<close>)
        next
          case False
          have "r = Inr ()" "s' = s1" using assms(3) get Inr y parsed Some False by (auto simp: Reconcile_def bindp_def)
          then show thesis using gone Some False cg(1) by simp
        qed
      qed
    qed
  qed
qed

lemma logged_snd [simp]: "snd (logged m s) = snd (m s)"
  by (auto simp: logged_def split: prod.split sum.split fault.split)

lemma same_but_lans_lab: "same_but_lans v v' \<Longrightarrow> v' (lab_key ns name) = v (lab_key ns name)"
  by (simp add: same_but_lans_def lab_key_def)

section \<open>The whole reconciliation\<close>

text \<open>Releasing a LAN touches that LAN only: the update of a missing one is refused.\<close>

lemma release_lan_outside:
  assumes "client_laws view clnt" and "lab_lan lab link \<in> K"
  shows "keeps (outside view K) (release_lan clnt lab link)"
proof (rule keepsI)
  fix s
  let ?n = "Getk8lanName (lab_Name lab) link"
  obtain g s1 where get: "clnt_Get clnt (lab_Namespace lab) ?n (new_obj ''LAN'') s = (g, s1)" by fastforce
  note cg = client_Get [OF assms(1) get]
  let ?u = "\<lambda>x. RemoveFinalizer x FinalizerName"
  have upd: "outside view K s1 (snd (clnt_Update clnt (?u x) s1))" if x: "obj_key x = lab_lan lab link \<or> x = new_obj ''LAN''" for x
  proof -
    obtain q s2 where u: "clnt_Update clnt (?u x) s1 = (q, s2)" by fastforce
    note cu = client_Update [OF assms(1) u]
    have out: "outside view {obj_key x} s1 s2" by (rule unchanged_outside [OF cu(1)]) simp
    have same: "view s2 (obj_key x) = view s1 (obj_key x)" if "x = new_obj ''LAN''"
      using client_nameless [OF assms(1)] that by (simp add: new_obj_def obj_key_def)
    have "view s2 k = view s1 k" if "k \<notin> K" for k
    proof (cases "k = obj_key x")
      case True
      then have "x = new_obj ''LAN''" using x assms(2) that by auto
      then show ?thesis using same True by simp
    next
      case False
      then show ?thesis using out unfolding outside_def by blast
    qed
    then show ?thesis using u unfolding outside_def by simp
  qed
  have "obj_key x = lab_lan lab link" if "g = Inr x" for x
    using client_key [OF assms(1) cg(2) [OF that]] by (simp add: lab_lan_def)
  then have "outside view K s1 (snd (release_lan clnt lab link s))"
    using get upd by (auto simp: release_lan_def Let_def split: sum.split)
  then show "outside view K s (snd (release_lan clnt lab link s))" using cg(1) by (simp add: outside_def)
qed

lemma Reconcile_outside:
  assumes "client_laws view clnt" and "view s (lab_key ns name) = Some x"
    and "\<And>plab. ParseLab (lab_of x) setref = Inr plab \<Longrightarrow> owner_laws plab"
    and lans: "lab_key ns name \<in> K" "lab_lan (lab_of x) ` fst ` set (entries (lab_LinkList (lab_Spec (lab_of x)))) \<subseteq> K"
    and nodes: "\<And>p node one sys. owner_laws p \<Longrightarrow> plab_Lab p = lab_of x \<Longrightarrow>
      (node, one) \<in> set (entries (lab_NodeList (lab_Spec (lab_of x)))) \<Longrightarrow>
      fst (GetSystem one) = Some sys \<Longrightarrow> keeps (outside view K) (Ensure p node sys)"
    and "Reconcile bs gconf clnt setref Ensure ns name s = (r, s')"
  shows "outside view K s s'"
proof -
  have upd: "keeps (outside view K) (clnt_Update clnt t)" if "obj_key t \<in> K" for t
  proof (rule keepsI)
    fix s
    obtain q s2 where u: "clnt_Update clnt t s = (q, s2)" by fastforce
    then show "outside view K s (snd (clnt_Update clnt t s))"
      using unchanged_outside [OF client_Update(1) [OF assms(1) u] that] by simp
  qed
  have key: "obj_key x \<in> K" using client_key [OF assms(1,2)] lans(1) by simp
  show ?thesis
    using assms(1,2,7)
  proof (cases rule: Reconcile_run)
    case (deleting s1)
    have rel: "keeps (outside view K) (release_lan clnt (lab_of x) l)"
      if "l \<in> set (map fst (entries (lab_LinkList (lab_Spec (lab_of x)))))" for l
    proof (rule release_lan_outside [OF assms(1)])
      show "lab_lan (lab_of x) l \<in> K" using lans(2) that by (metis image_eqI list.set_map subsetD)
    qed
    have "keeps (outside view K) (bindp (deleteExternalResources clnt (lab_of x))
        (\<lambda>_. clnt_Update clnt (RemoveFinalizer x FinalizerName)))"
      unfolding deleteExternalResources_def
      by (intro keeps_bindp keeps_eachp rel upd) (simp_all add: key)
    from keepsD [OF this deleting(4)] show ?thesis unfolding outside_def deleting(1) .
  next
    case (building s1 plab)
    have plab: "plab_Lab plab = lab_of x" using building(3) by (auto simp: ParseLab_def bindr_eq_Inr)
    have bld: "keeps (outside view K) (logged (build bs gconf clnt Ensure plab))"
    proof -
      have "keeps (outside view K) (build bs gconf clnt Ensure plab)"
      proof (rule build_outside [OF assms(1) assms(3) [OF building(3)]])
        show "lan_key plab ` link_names plab \<subseteq> K"
          using lans(2) by (simp add: link_names_def plab lan_key_def lab_lan_def image_image cong: image_cong)
        fix p node one sys
        assume p: "same_lab plab p"
          and n: "(node, one) \<in> set (entries (lab_NodeList (lab_Spec (plab_Lab plab))))" "fst (GetSystem one) = Some sys"
        have "plab_Lab p = lab_of x" using p by (simp add: same_lab_def plab)
        from nodes [OF same_lab_laws [OF p assms(3) [OF building(3)]] this _ n(2)] n(1)
        show "keeps (outside view K) (Ensure p node sys)" by (simp add: plab)
      qed
      then show ?thesis by (simp add: keeps_def)
    qed
    have "keeps (outside view K) (bindp (if ContainsFinalizer x FinalizerName then retp () else clnt_Update clnt (AddFinalizer x FinalizerName))
           (\<lambda>_. logged (build bs gconf clnt Ensure plab)))"
      by (intro keeps_bindp bld) (auto simp: key intro!: upd)
    from keepsD [OF this building(4)] show ?thesis unfolding outside_def building(1) .
  qed (auto simp: outside_def)
qed

end
