(* ===== verification/Props_Cluster.thy ===== *)
theory Props_Cluster
  imports Props_Lab LabController
begin

text \<open>
  Properties of what the operator does to the cluster: creating one object, the numbers and LAN
  objects of links, and the life of a lab under its controller. The API client, the bit set, the
  owner reference and the \<open>Ensure\<close> methods are arguments; what is assumed of them are the laws of the
  theories Cluster and Links, met by the client and bit set in memory used in the witnesses.
\<close>

section \<open>One object\<close>

text \<open>C25
  Creating or removing one object changes nothing else in the cluster, whatever the outcome; without removal
  no existing object is changed; and when it succeeds the object exists, owned by the lab if that was asked for.
\<close>

theorem create_or_remove_safe:
  assumes "client_laws view clnt" "owner_laws lab"
    and "meta_Namespace (obj_Meta t) = lab_Namespace (plab_Lab lab)"
    and "createIfNotExistsOrRemove clnt lab t needOwner remove s = (r, s')"
  shows "(k \<noteq> obj_key t \<longrightarrow> view s' k = view s k) \<and> (\<not> remove \<and> view s k = Some x \<longrightarrow> view s' k = Some x) \<and>
    (\<not> remove \<and> ok r \<longrightarrow> (\<exists>y. view s' (obj_key t) = Some y \<and> (needOwner \<longrightarrow> owned_by lab y)))"
proof (intro conjI impI)
  show "view s' k = view s k" if "k \<noteq> obj_key t"
    using createOrRemove_frame [OF assms] that unfolding unchanged_except_def by blast
  show "view s' k = Some x" if "\<not> remove \<and> view s k = Some x"
    using createOrRemove_keeps [OF assms(1-3)] assms(4) that by simp
  show "\<exists>y. view s' (obj_key t) = Some y \<and> (needOwner \<longrightarrow> owned_by lab y)" if "\<not> remove \<and> ok r"
  proof -
    from that assms(4) have run: "createIfNotExistsOrRemove clnt lab t needOwner False s = (Inr (), s')"
      by (simp add: ok_unit)
    show ?thesis using createOrRemove_exists [OF assms(1-3) run] by blast
  qed
qed

definition set_ref :: "SRCard Lab \<Rightarrow> KObj \<Rightarrow> KObj result" where
  "set_ref lab x = Inr (x\<lparr>obj_Meta := (obj_Meta x)\<lparr>meta_Owners :=
     \<lparr>own_Name = lab_Name lab, own_UID = lab_UID lab\<rparr> # meta_Owners (obj_Meta x)\<rparr>\<rparr>)"

definition plab_of :: "SRCard Lab \<Rightarrow> ParsedLab" where
  "plab_of lab = \<lparr>plab_Lab = lab, plab_ConnectorMap = [], plab_SetOwnerFunc = set_ref lab, plab_SpokeMap = [],
     plab_SpokeConnectorMap = [], plab_SpokeLinkMap = []\<rparr>"

lemma set_ref_laws: "plab_SetOwnerFunc plab = set_ref (plab_Lab plab) \<Longrightarrow> owner_laws plab"
  by (auto simp: owner_laws_def set_ref_def obj_key_def)

lemma plab_of_laws: "owner_laws (plab_of lab)"
  by (rule set_ref_laws) (simp add: plab_of_def)

definition mem_lan :: "SRCard Lab \<Rightarrow> string \<Rightarrow> int \<Rightarrow> KObj" where
  "mem_lan lab l vni = \<lparr>obj_Kind = ''LAN'',
     obj_Meta = (GetObjMeta (Getk8lanName (lab_Name lab) l) (lab_Name lab) (lab_Namespace lab) [] [])
       \<lparr>meta_Finalizers := [FinalizerName]\<rparr>,
     obj_Body = LANBody ((lan_spec (new_obj ''LAN''))\<lparr>lan_VNI := Some vni\<rparr>)\<rparr>"

theorem create_or_remove_safe_witness:
  "let t = mem_lan pods_lab ''l'' 1; (r, s') = createIfNotExistsOrRemove mem_client (plab_of pods_lab) t True False []
   in ok r \<and> (\<exists>y. mem_view s' (obj_key t) = Some y \<and> owned_by (plab_of pods_lab) y)"
proof -
  let ?t = "mem_lan pods_lab ''l'' 1"
  obtain r s' where run: "createIfNotExistsOrRemove mem_client (plab_of pods_lab) ?t True False [] = (r, s')" by fastforce
  have "ok (fst (createIfNotExistsOrRemove mem_client (plab_of pods_lab) ?t True False []))" by code_simp
  then have "ok r" by (simp add: run)
  moreover have "meta_Namespace (obj_Meta ?t) = lab_Namespace (plab_Lab (plab_of pods_lab))"
    by (simp add: mem_lan_def plab_of_def)
  ultimately show ?thesis
    using create_or_remove_safe [OF mem_client_laws plab_of_laws _ run] by (simp add: run Let_def)
qed

section \<open>Numbers of links\<close>

lemma mem_lan_listed:
  "clnt_List mem_client ''LAN'' [mem_lan pods_lab ''l'' v] = (Inr [mem_lan pods_lab ''l'' v], [mem_lan pods_lab ''l'' v])"
proof -
  have "Getk8lanName (lab_Name pods_lab) ''l'' \<noteq> []" by code_simp
  then have "mem_view [mem_lan pods_lab ''l'' v] (obj_key (mem_lan pods_lab ''l'' v)) = Some (mem_lan pods_lab ''l'' v)"
    by (simp add: mem_view_Cons) (simp add: mem_lan_def GetObjMeta_def Let_def)
  then show ?thesis by (simp add: mem_client_def) (simp add: mem_lan_def)
qed

text \<open>C26
  The VNIs handed out are as many as asked for, increasing, between 1 and 16777215, and none of them is
  the VNI of a LAN of the cluster.
\<close>

theorem vnis_free:
  assumes "client_laws view clnt" "bitset_laws bv len bs" and "GetAvailableVNIs bs clnt n s = (Inr vs, s')"
  shows "view s' = view s \<and> length vs = n \<and> sorted_wrt (<) vs \<and> (\<forall>v\<in>set vs. 1 \<le> v \<and> v \<le> 16777215 \<and>
    (\<forall>k x. view s k = Some x \<and> fst k = ''LAN'' \<longrightarrow> lan_VNI (lan_spec x) \<noteq> Some v))"
  using GetAvailableVNIs_ok [OF assms] by blast

theorem vnis_free_witness:
  "\<exists>vs s'. GetAvailableVNIs mem_bitset mem_client 2 [mem_lan pods_lab ''l'' 1] = (Inr vs, s') \<and> length vs = 2 \<and>
    (\<forall>v\<in>set vs. 1 \<le> v \<and> v \<le> 16777215 \<and> v \<noteq> 1)"
proof -
  let ?s = "[mem_lan pods_lab ''l'' 1]"
  have "ok (fst (GetAvailableVNIs mem_bitset mem_client 2 ?s))"
  proof (rule GetAvailableVNIs_complete [OF mem_bitset_laws])
    show "clnt_List mem_client ''LAN'' ?s = (Inr ?s, ?s)" by (rule mem_lan_listed)
    show "\<forall>x\<in>set ?s. \<exists>v. lan_VNI (lan_spec x) = Some v \<and> 0 \<le> v \<and> v < 2 ^ 31" by (simp add: mem_lan_def lan_spec_def)
    have "{2, 3} \<subseteq> {k. 1 \<le> k \<and> k < 16777215 \<and> (\<forall>x\<in>set ?s. lan_VNI (lan_spec x) \<noteq> Some (int k))}"
      by (simp add: mem_lan_def lan_spec_def)
    from card_mono [OF _ this] show "2 \<le> card {k. 1 \<le> k \<and> k < 16777215 \<and> (\<forall>x\<in>set ?s. lan_VNI (lan_spec x) \<noteq> Some (int k))}"
      by simp
  qed
  then obtain vs s' where run: "GetAvailableVNIs mem_bitset mem_client 2 ?s = (Inr vs, s')"
    by (cases "GetAvailableVNIs mem_bitset mem_client 2 ?s") (auto simp: ok_iff)
  have "mem_view ?s (obj_key (mem_lan pods_lab ''l'' 1)) = Some (mem_lan pods_lab ''l'' 1)" by code_simp
  moreover have "fst (obj_key (mem_lan pods_lab ''l'' 1)) = ''LAN''" by (simp add: mem_lan_def obj_key_def)
  moreover have "lan_VNI (lan_spec (mem_lan pods_lab ''l'' 1)) = Some 1" by (simp add: mem_lan_def lan_spec_def)
  ultimately have "length vs = 2 \<and> (\<forall>v\<in>set vs. 1 \<le> v \<and> v \<le> 16777215 \<and> v \<noteq> 1)"
    using vnis_free [OF mem_client_laws mem_bitset_laws run] by metis
  with run show ?thesis by blast
qed

text \<open>C27
  The request is refused only when the free numbers run out: if the LANs can be listed and all have a VNI,
  and at least as many numbers from 1 to 16777214 are free as are asked for, it succeeds.
\<close>

theorem vnis_available:
  assumes "bitset_laws bv len bs" and "clnt_List clnt ''LAN'' s = (Inr lans, s1)"
    and "\<forall>x\<in>set lans. \<exists>v. lan_VNI (lan_spec x) = Some v \<and> 0 \<le> v \<and> v < 2 ^ 31"
    and "n \<le> card {k. 1 \<le> k \<and> k < 16777215 \<and> (\<forall>x\<in>set lans. lan_VNI (lan_spec x) \<noteq> Some (int k))}"
  shows "ok (fst (GetAvailableVNIs bs clnt n s))"
  using assms by (rule GetAvailableVNIs_complete)

theorem vnis_available_witness: "ok (fst (GetAvailableVNIs mem_bitset mem_client 1 [mem_lan pods_lab ''l'' 7]))"
proof (rule vnis_available [OF mem_bitset_laws])
  show "clnt_List mem_client ''LAN'' [mem_lan pods_lab ''l'' 7] = (Inr [mem_lan pods_lab ''l'' 7], [mem_lan pods_lab ''l'' 7])"
    by (rule mem_lan_listed)
  show "\<forall>x\<in>set [mem_lan pods_lab ''l'' 7]. \<exists>v. lan_VNI (lan_spec x) = Some v \<and> 0 \<le> v \<and> v < 2 ^ 31"
    by (simp add: mem_lan_def lan_spec_def)
  have "{1 :: nat} \<subseteq> {k. 1 \<le> k \<and> k < 16777215 \<and> (\<forall>x\<in>set [mem_lan pods_lab ''l'' 7]. lan_VNI (lan_spec x) \<noteq> Some (int k))}"
    by (simp add: mem_lan_def lan_spec_def)
  from card_mono [OF _ this] show "1 \<le> card {k. 1 \<le> k \<and> k < 16777215 \<and> (\<forall>x\<in>set [mem_lan pods_lab ''l'' 7]. lan_VNI (lan_spec x) \<noteq> Some (int k))}"
    by simp
qed

text \<open>A cluster in which the lab of two pods has been applied: the run of \<open>EnsureLinks\<close> from an empty cluster.\<close>

lemma first_vni: "GetAvailableVNIs mem_bitset mem_client 1 [] = (Inr [1], [])"
  by (simp add: GetAvailableVNIs_def mem_bitset_def mem_client_def bindp_def wrapp_def Let_def next_clear.simps)

lemma pods_links: "entries (lab_LinkList (lab_Spec pods_lab)) =
    [(''l'', \<lparr>link_Connectors = [pod_connector ''pod-1'', pod_connector ''pod-2'']\<rparr>)]"
  by (simp add: pods_lab_def two_pods_def)

lemma pods_ensured:
  "\<exists>plab' s'. EnsureLinks mem_bitset bare_config mem_client (plab_of pods_lab) [] = (Inr plab', s')"
proof -
  have "ok (fst (foldp (ensure_link bare_config mem_client) (zip [''l''] [1]) (plab_of pods_lab) []))"
    by code_simp
  then obtain plab' s' where "foldp (ensure_link bare_config mem_client) (zip [''l''] [1]) (plab_of pods_lab) [] = (Inr plab', s')"
    by (cases "foldp (ensure_link bare_config mem_client) (zip [''l''] [1]) (plab_of pods_lab) []") (auto simp: ok_iff)
  then show ?thesis
    using first_vni by (simp add: EnsureLinks_def plab_of_def pods_links GetSortedKeySlice_def bindp_def wrapp_def)
qed

section \<open>LAN objects of a lab\<close>

text \<open>C19
  When the links of a lab are ensured, each link has a LAN object of its own that the lab owns, LANs that
  were there are as they were, and nothing else in the cluster has changed.
\<close>

theorem links_ensured:
  assumes "client_laws view clnt" "owner_laws plab" "bitset_laws bv len bs"
    and "wfmap (entries (lab_LinkList (lab_Spec (plab_Lab plab))))"
    and "EnsureLinks bs gconf clnt plab s = (Inr plab', s')"
  shows "(\<forall>l\<in>link_names plab. \<exists>x. view s' (lan_key plab l) = Some x \<and> owned_by plab x \<and>
      (\<forall>y. view s (lan_key plab l) = Some y \<longrightarrow> x = y)) \<and>
    (\<forall>k. k \<notin> lan_key plab ` link_names plab \<longrightarrow> view s' k = view s k)"
  using links_made [OF assms] EnsureLinks_frame(1) [OF assms(1,2,5)] unfolding outside_def by blast

theorem links_ensured_witness:
  "\<exists>plab' s'. EnsureLinks mem_bitset bare_config mem_client (plab_of pods_lab) [] = (Inr plab', s') \<and>
    (\<exists>x. mem_view s' (lan_key (plab_of pods_lab) ''l'') = Some x \<and> owned_by (plab_of pods_lab) x)"
proof -
  obtain plab' s' where run: "EnsureLinks mem_bitset bare_config mem_client (plab_of pods_lab) [] = (Inr plab', s')"
    using pods_ensured by blast
  have links: "wfmap (entries (lab_LinkList (lab_Spec (plab_Lab (plab_of pods_lab)))))" "''l'' \<in> link_names (plab_of pods_lab)"
    by (simp_all add: plab_of_def pods_links wfmap_def link_names_def)
  from links_ensured [OF mem_client_laws plab_of_laws mem_bitset_laws links(1) run] links(2) run show ?thesis by blast
qed

text \<open>C2
  No two LANs of the cluster share a VNI: a call of \<open>EnsureLinks\<close> that succeeds keeps that, so the tunnels of
  different links, of any labs, stay apart.
\<close>

theorem vnis_stay_unique:
  assumes "client_laws view clnt" "owner_laws plab" "bitset_laws bv len bs"
    and "wfmap (entries (lab_LinkList (lab_Spec (plab_Lab plab))))"
    and "vnis_unique (view s)" and "EnsureLinks bs gconf clnt plab s = (Inr plab', s')"
  shows "vnis_unique (view s')"
proof -
  let ?ls = "GetSortedKeySlice (entries (lab_LinkList (lab_Spec (plab_Lab plab))))"
  obtain vs where vs: "sorted_wrt (<) vs" "length vs = length ?ls"
      "\<And>v k x. v \<in> set vs \<Longrightarrow> view s k = Some x \<Longrightarrow> fst k = ''LAN'' \<Longrightarrow> lan_VNI (lan_spec x) \<noteq> Some v"
      "\<And>k. k \<notin> lan_key plab ` link_names plab \<Longrightarrow> view s' k = view s k"
      "\<And>l v. (l, v) \<in> set (zip ?ls vs) \<Longrightarrow> \<exists>x. view s' (lan_key plab l) = Some x \<and> owned_by plab x \<and>
        (case view s (lan_key plab l) of Some y \<Rightarrow> x = y | None \<Rightarrow> lan_VNI (lan_spec x) = Some v)"
    using EnsureLinks_run [OF assms(1-4,6)] by metis
  have fst: "map fst (zip ?ls vs) = ?ls" and snd: "map snd (zip ?ls vs) = vs" using vs(2) by simp_all
  have names: "fst ` set (zip ?ls vs) = link_names plab" using arg_cong [OF fst, of set] by (simp add: link_names_def)
  show ?thesis
  proof (rule vnis_unique_add [where key = "lan_key plab" and ls = "zip ?ls vs", OF assms(5)])
    show "distinct (map fst (zip ?ls vs))" unfolding fst using assms(4) by simp
    show "distinct (map snd (zip ?ls vs))" unfolding snd using vs(1) by (simp add: strict_sorted_iff)
    show "inj (lan_key plab)" by (rule injI) simp
    show "fst (lan_key plab l) = ''LAN''" for l by (simp add: lan_key_def)
    show "lan_VNI (lan_spec x) \<noteq> Some n" if "(l, n) \<in> set (zip ?ls vs)" "view s k = Some x" "fst k = ''LAN''" for l n k x
      using vs(3) that by (meson in_set_zipE)
    show "view s' k = view s k" if "k \<notin> lan_key plab ` fst ` set (zip ?ls vs)" for k using vs(4) that names by simp
    show "\<exists>x. view s' (lan_key plab l) = Some x \<and>
        (case view s (lan_key plab l) of Some y \<Rightarrow> x = y | None \<Rightarrow> lan_VNI (lan_spec x) = Some n)"
      if "(l, n) \<in> set (zip ?ls vs)" for l n using vs(5) [OF that] by blast
  qed
qed

theorem vnis_stay_unique_witness:
  "\<exists>plab' s'. EnsureLinks mem_bitset bare_config mem_client (plab_of pods_lab) [] = (Inr plab', s') \<and> vnis_unique (mem_view s')"
proof -
  obtain plab' s' where run: "EnsureLinks mem_bitset bare_config mem_client (plab_of pods_lab) [] = (Inr plab', s')"
    using pods_ensured by blast
  have "wfmap (entries (lab_LinkList (lab_Spec (plab_Lab (plab_of pods_lab)))))" by (simp add: plab_of_def pods_links wfmap_def)
  moreover have "vnis_unique (mem_view [])" by (simp add: vnis_unique_def mem_view_def)
  ultimately have "vnis_unique (mem_view s')"
    using vnis_stay_unique [OF mem_client_laws plab_of_laws mem_bitset_laws _ _ run] by blast
  with run show ?thesis by blast
qed

section \<open>The life of a lab\<close>

definition lab_obj :: "string list \<Rightarrow> string option \<Rightarrow> KObj" where
  "lab_obj fins deleted = \<lparr>obj_Kind = ''Lab'', obj_Meta = (GetObjMeta ''lab1'' ''lab1'' ''knl-system'' [] [])
     \<lparr>meta_Finalizers := fins, meta_DeletionTimestamp := deleted\<rparr>, obj_Body = LabBody two_pods\<rparr>"

definition no_ensure :: "KObj list ensure" where
  "no_ensure plab n sys = retp ()"

lemma ParseLab_laws: "ParseLab lab set_ref = Inr plab \<Longrightarrow> owner_laws plab"
  by (rule set_ref_laws) (auto simp: ParseLab_def bindr_eq_Inr)

lemma lab_obj_view: "mem_view (lab_obj fins d # s) (lab_key ''knl-system'' ''lab1'') = Some (lab_obj fins d)"
  by (simp add: mem_view_def lab_obj_def obj_key_def lab_key_def)

lemma lab_obj_links: "entries (lab_LinkList (lab_Spec (lab_of (lab_obj fins d)))) =
    [(''l'', \<lparr>link_Connectors = [pod_connector ''pod-1'', pod_connector ''pod-2'']\<rparr>)]"
  by (simp add: lab_obj_def lab_of_def two_pods_def)

text \<open>C4
  When a lab is being deleted the finalizers of its LANs go before its own, whatever call of the client fails on the
  way: after any reconciliation, whether it returns an error or not, either the lab object is still as it was, or every
  LAN of its links has lost the operator's finalizer already. So no LAN is left behind undeletable by a lab that is gone.
  And when the reconciliation succeeds, the LANs and the lab itself are free of the finalizer.
\<close>

theorem deletion_releases_links:
  assumes "client_laws view clnt" and "view s (lab_key ns name) = Some x"
    and "meta_DeletionTimestamp (obj_Meta x) \<noteq> None" "ContainsFinalizer x FinalizerName"
    and "wfmap (entries (lab_LinkList (lab_Spec (lab_of x))))"
    and "Reconcile bs gconf clnt setref Ensure ns name s = (r, s')"
  defines "links_released \<equiv> \<forall>l\<in>fst ` set (entries (lab_LinkList (lab_Spec (lab_of x)))). released (view s') (lab_lan (lab_of x) l)"
  shows "(view s' (lab_key ns name) = view s (lab_key ns name) \<or> links_released) \<and>
    (ok r \<longrightarrow> links_released \<and> released (view s') (lab_key ns name))"
  using assms(1,2,6)
proof (cases rule: Reconcile_run)
  case (deleting s1)
  let ?ls = "map fst (entries (lab_LinkList (lab_Spec (lab_of x))))"
  obtain d s2 where del: "deleteExternalResources clnt (lab_of x) s1 = (d, s2)" by fastforce
  have dist: "distinct ?ls" using assms(5) by (simp add: wfmap_def)
  note rl = release_lans_run [OF assms(1) dist del [unfolded deleteExternalResources_def]]
  have key: "obj_key x = lab_key ns name" by (rule client_key [OF assms(1,2)])
  show ?thesis
  proof (cases d)
    case (Inl e)
    then have "r = Inl e" "s' = s2" using deleting(4) del by auto
    then show ?thesis using same_but_lans_lab [OF rl(1)] deleting(1) by simp
  next
    case (Inr v)
    then have u: "clnt_Update clnt (RemoveFinalizer x FinalizerName) s2 = (r, s')" using deleting(4) del by simp
    note cu = client_Update [OF assms(1) u]
    have un: "unchanged_except (lab_key ns name) (view s2) (view s')" using cu(1) key by simp
    have "released (view s') (lab_lan (lab_of x) l)" if "l \<in> set ?ls" for l
    proof -
      have "lab_lan (lab_of x) l \<noteq> lab_key ns name" by (simp add: lab_lan_def lab_key_def)
      then have "view s' (lab_lan (lab_of x) l) = view s2 (lab_lan (lab_of x) l)"
        using un unfolding unchanged_except_def by blast
      then show ?thesis using rl(2) [OF _ that] Inr by (simp add: released_def)
    qed
    then have links: links_released by (auto simp: links_released_def)
    have "released (view s') (lab_key ns name)" if okr: "ok r"
    proof (cases "gone_after (RemoveFinalizer x FinalizerName)")
      case True
      then show ?thesis using cu(3) [OF okr] key by (simp add: released_def)
    next
      case False
      then show ?thesis using cu(4) [OF okr] key by (auto simp: released_def ContainsFinalizer_def)
    qed
    with links show ?thesis by blast
  qed
qed (use assms(3,4) in auto)

theorem deletion_releases_links_witness:
  "let s = [lab_obj [FinalizerName] (Some ''now''), mem_lan pods_lab ''l'' 1];
       (r, s') = Reconcile mem_bitset bare_config mem_client set_ref no_ensure ''knl-system'' ''lab1'' s
   in ok r \<and> released (mem_view s') (lab_lan (lab_of (lab_obj [FinalizerName] (Some ''now''))) ''l'') \<and>
      released (mem_view s') (lab_key ''knl-system'' ''lab1'')"
proof -
  let ?s = "[lab_obj [FinalizerName] (Some ''now''), mem_lan pods_lab ''l'' 1]"
  obtain r s' where run: "Reconcile mem_bitset bare_config mem_client set_ref no_ensure ''knl-system'' ''lab1'' ?s = (r, s')"
    by fastforce
  have "ok (fst (deleteExternalResources mem_client (lab_of (lab_obj [FinalizerName] (Some ''now''))) ?s)) \<and>
    ok (fst (Reconcile \<lparr>bs_New = \<lambda>_. (), bs_Set = \<lambda>_ _. Inr (), bs_NextClear = \<lambda>_ _. None\<rparr> bare_config mem_client set_ref no_ensure
      ''knl-system'' ''lab1'' ?s))" by code_simp
  moreover have "Reconcile bs bare_config mem_client set_ref no_ensure ''knl-system'' ''lab1'' ?s =
      Reconcile bs' bare_config mem_client set_ref no_ensure ''knl-system'' ''lab1'' ?s" for bs bs'
    by (simp add: Reconcile_def mem_client_def mem_view_def lab_obj_def new_obj_def obj_key_def bindp_def split: sum.split)
  ultimately have "ok r" using run by (metis fst_conv)
  then have u: "r = Inr ()" by (simp add: ok_unit)
  show ?thesis
    using deletion_releases_links [OF mem_client_laws lab_obj_view _ _ _ run] u
    by (simp add: run lab_obj_links wfmap_def) (simp add: lab_obj_def ContainsFinalizer_def)
qed

text \<open>C36
  A lab one of whose LAN objects is missing cannot be deleted: the missing object is not skipped, the update of
  an empty one is refused, and the lab keeps its finalizer, at every attempt.
\<close>

theorem deletion_stuck_without_lan:
  assumes "client_laws view clnt" and "view s (lab_key ns name) = Some x"
    and "meta_DeletionTimestamp (obj_Meta x) \<noteq> None" "ContainsFinalizer x FinalizerName"
    and "wfmap (entries (lab_LinkList (lab_Spec (lab_of x))))"
    and "l \<in> fst ` set (entries (lab_LinkList (lab_Spec (lab_of x))))" "view s (lab_lan (lab_of x) l) = None"
    and "Reconcile bs gconf clnt setref Ensure ns name s = (r, s')"
  shows "\<not> ok r \<and> view s' (lab_key ns name) = Some x"
  using assms(1,2,8)
proof (cases rule: Reconcile_run)
  case (deleting s1)
  let ?ls = "map fst (entries (lab_LinkList (lab_Spec (lab_of x))))"
  obtain d s2 where del: "deleteExternalResources clnt (lab_of x) s1 = (d, s2)" by fastforce
  have dist: "distinct ?ls" using assms(5) by (simp add: wfmap_def)
  note rl = release_lans_run [OF assms(1) dist del [unfolded deleteExternalResources_def]]
  have "\<not> ok d" using rl(2) [of l] assms(6,7) deleting(1) by auto
  then obtain e where "d = Inl e" by (cases d) auto
  then have "r = Inl e" "s' = s2" using deleting(4) del by auto
  moreover have "view s2 (lab_key ns name) = Some x"
    using same_but_lans_lab [OF rl(1)] deleting(1) assms(2) by simp
  ultimately show ?thesis by simp
qed (use assms(2-4) in auto)

theorem deletion_stuck_without_lan_witness:
  "let s = [lab_obj [FinalizerName] (Some ''now'')];
       (r, s') = Reconcile mem_bitset bare_config mem_client set_ref no_ensure ''knl-system'' ''lab1'' s
   in \<not> ok r \<and> mem_view s' (lab_key ''knl-system'' ''lab1'') = Some (lab_obj [FinalizerName] (Some ''now''))"
proof -
  let ?x = "lab_obj [FinalizerName] (Some ''now'')"
  obtain r s' where run: "Reconcile mem_bitset bare_config mem_client set_ref no_ensure ''knl-system'' ''lab1'' [?x] = (r, s')"
    by fastforce
  have fin: "meta_DeletionTimestamp (obj_Meta ?x) \<noteq> None" "ContainsFinalizer ?x FinalizerName"
    by (simp_all add: lab_obj_def ContainsFinalizer_def)
  have "mem_view [?x] (lab_lan (lab_of ?x) ''l'') = None"
    by (simp add: mem_view_def lab_lan_def lab_obj_def obj_key_def)
  from deletion_stuck_without_lan [OF mem_client_laws lab_obj_view fin _ _ this run] show ?thesis
    by (simp add: run lab_obj_links wfmap_def)
qed

section \<open>Two shortcomings\<close>

text \<open>
  A configuration that names the device of every host in \<open>VxDevMap\<close> is accepted without a default
  device, and the first lab with a link makes the controller panic on it.
\<close>

definition mapped_config :: "SRCard KNLConfigSpec" where
  "mapped_config = DefKNLConfig\<lparr>cfg_PVCStorageClass := Some ''nfs'', cfg_VxDevMap := Some [(''host1'', ''eth0'')]\<rparr>"

lemma accepted_config_panics:
  "ok (KNLConfig_Validate \<lparr>reference_Parse = \<lambda>_. None, shlex_Split = \<lambda>_. None\<rparr> mapped_config) \<and>
   panics (new_lan mapped_config lab linkName vni)"
proof
  show "ok (KNLConfig_Validate \<lparr>reference_Parse = \<lambda>_. None, shlex_Split = \<lambda>_. None\<rparr> mapped_config)"
    unfolding KNLConfig_Validate_ok mapped_config_def
    using default_group default_server default_sidecar not_specified_Some [of "''nfs''"]
    by (simp add: DefKNLConfig_def is_space_def)
  show "panics (new_lan mapped_config lab linkName vni)"
    by (simp add: new_lan_def mapped_config_def DefKNLConfig_def deref_def bindr_def panics_def)
qed

text \<open>An error of building a lab is not seen by the framework: the reconciliation counts as done.\<close>

lemma build_errors_dropped:
  assumes "clnt_Get clnt ns name (new_obj ''Lab'') s = (Inr x, s1)"
    and "meta_DeletionTimestamp (obj_Meta x) = None" "ContainsFinalizer x FinalizerName"
    and "ParseLab (lab_of x) setref = Inr plab" "build bs gconf clnt Ensure plab s1 = (Inl (Err e), s2)"
  shows "Reconcile bs gconf clnt setref Ensure ns name s = (Inr (), s2)"
  using assms by (simp add: Reconcile_def logged_def)

end
