(* ===== verification/Go_Encode.thy ===== *)
theory Go_Encode
  imports Go_Net
begin

text \<open>
  Two encoders of the Go library: \<open>url.PathEscape\<close>, and \<open>json.Marshal\<close> and \<open>json.Unmarshal\<close> on a
  \<open>map[string]string\<close>. Strings are bytes below 128.
\<close>

section \<open>url.PathEscape\<close>

definition path_safe :: "char \<Rightarrow> bool" where
  "path_safe c \<longleftrightarrow> (let n = of_char c :: nat in
     48 \<le> n \<and> n \<le> 57 \<or> 65 \<le> n \<and> n \<le> 90 \<or> 97 \<le> n \<and> n \<le> 122 \<or> c \<in> set ''-_.~$&+:=@'')"

definition escape_char :: "char \<Rightarrow> string" where
  "escape_char c = (if path_safe c then [c]
     else let n = of_char c :: nat in [CHR ''%'', upper_hex (n div 16), upper_hex (n mod 16)])"

definition PathEscape :: "string \<Rightarrow> string" where
  "PathEscape s = concat (map escape_char s)"

text \<open>\<open>url.PathUnescape\<close>: a reader of a data URL undoes the escapes.\<close>

fun PathUnescape :: "string \<Rightarrow> string option" where
  "PathUnescape (CHR ''%'' # a # b # s) = (case (hex_val a, hex_val b) of
      (Some x, Some y) \<Rightarrow> map_option ((#) (char_of (16 * x + y))) (PathUnescape s)
    | _ \<Rightarrow> None)"
| "PathUnescape (c # s) = (if c = CHR ''%'' then None else map_option ((#) c) (PathUnescape s))"
| "PathUnescape [] = Some []"

section \<open>JSON strings\<close>

definition json_char :: "char \<Rightarrow> string" where
  "json_char c = (let n = of_char c :: nat in
     if n = 34 \<or> n = 92 then [CHR 92, c]
     else if n = 8 then [CHR 92, CHR ''b'']
     else if n = 9 then [CHR 92, CHR ''t'']
     else if n = 10 then [CHR 92, CHR ''n'']
     else if n = 12 then [CHR 92, CHR ''f'']
     else if n = 13 then [CHR 92, CHR ''r'']
     else if n < 32 \<or> n = 38 \<or> n = 60 \<or> n = 62 then CHR 92 # ''u00'' @ [digit_char (n div 16), digit_char (n mod 16)]
     else [c])"

definition json_string :: "string \<Rightarrow> string" where
  "json_string s = CHR 34 # concat (map json_char s) @ [CHR 34]"

definition json_pair :: "string \<times> string \<Rightarrow> string" where
  "json_pair = (\<lambda>(k, v). json_string k @ '':'' @ json_string v)"

text \<open>\<open>json.Marshal\<close> prints the keys of a map in byte order.\<close>

definition json_map :: "string gomap \<Rightarrow> string" where
  "json_map m = ''{'' @ Join (map (\<lambda>k. json_pair (k, case map_of m k of Some v \<Rightarrow> v | None \<Rightarrow> [])) (GetSortedKeySlice m)) '','' @ ''}''"

end
