(* ===== verification/NodeEnv.thy ===== *)
theory NodeEnv
  imports Links CloudInit Go_Encode
begin

text \<open>
  What the \<open>Ensure\<close> methods of the node types share: the packages and services they call, as one
  record of parameters with the laws they are relied on for, and the loop over the spokes of a node
  that each of them has.

  \<^item> \<open>K8slan\<close>: the names and network attachments of the k8slan package.
  \<^item> \<open>FileOps\<close>: the file system of the operator. A call changes no object of the cluster.
  \<^item> \<open>Env\<close>: these two, the API client, the bit set, the configuration in effect (\<open>GCONF.Get\<close>),
    the namespace of the operator, the splitter of shell commands (its words, whatever error it
    reports), the YAML and JSON encoders of structs, the password hash of this run, and the
    arithmetic of quantities: whole cores, half the bytes.
\<close>

section \<open>Parameters\<close>

record K8slan =
  GetDefNADName :: "string \<Rightarrow> string \<Rightarrow> bool \<Rightarrow> string"
  GetAddrNADName :: "string \<Rightarrow> string \<Rightarrow> string"
  GetDPResouceName :: "string \<Rightarrow> string \<Rightarrow> bool \<Rightarrow> string"
  GenNAD :: "string \<Rightarrow> string \<Rightarrow> string \<Rightarrow> bool \<Rightarrow> prefix list \<Rightarrow> Route list \<Rightarrow> KObj"

record 's FileOps =
  fs_Readlink :: "string \<Rightarrow> ('s, string) proc"
  fs_Stat :: "string \<Rightarrow> ('s, unit) proc"
  fs_MkdirAll :: "string \<Rightarrow> ('s, unit) proc"
  fs_Remove :: "string \<Rightarrow> ('s, unit) proc"
  fs_Symlink :: "string \<Rightarrow> string \<Rightarrow> ('s, unit) proc"
  fs_WriteFile :: "string \<Rightarrow> string \<Rightarrow> ('s, unit) proc"

definition IsNotExist :: "fault \<Rightarrow> bool" where
  "IsNotExist e \<longleftrightarrow> e = Err (LibErr ''os'' ''file does not exist'')"

text \<open>The parts of an ignition file that depend on the node (vmpc.go).\<close>

record IgnitionConfig =
  ign_User :: string
  ign_PasswordHash :: string
  ign_Files :: "(string \<times> string) list"

record ('s, 'b) Env =
  env_Client :: "'s Client"
  env_Bitset :: "'b Bitset"
  env_FS :: "'s FileOps"
  env_GConf :: "SRCard KNLConfigSpec"
  env_MYNAMESPACE :: string
  env_K8slan :: K8slan
  env_Shlex :: "string \<Rightarrow> string list"
  env_SrlYaml :: "SRLChassis \<Rightarrow> string result"
  env_CloudInitYaml :: "CloudInitNetworkConfig \<Rightarrow> string result"
  env_IgnitionJson :: "IgnitionConfig \<Rightarrow> string"
  env_PasswdHash :: "string \<Rightarrow> string"
  env_AddrString :: "addr \<Rightarrow> string"
  env_PrefixString :: "prefix \<Rightarrow> string"
  env_Cores :: "quantity \<Rightarrow> int"
  env_Half :: "quantity \<Rightarrow> quantity"

definition fs_laws :: "('s \<Rightarrow> key \<Rightarrow> KObj option) \<Rightarrow> 's FileOps \<Rightarrow> bool" where
  "fs_laws view fs \<longleftrightarrow> (\<forall>p q. let same = (\<lambda>s s'. view s' = view s) in
     keeps same (fs_Readlink fs p) \<and> keeps same (fs_Stat fs p) \<and> keeps same (fs_MkdirAll fs p) \<and>
     keeps same (fs_Remove fs p) \<and> keeps same (fs_Symlink fs p q) \<and> keeps same (fs_WriteFile fs p q))"

definition nad_laws :: "K8slan \<Rightarrow> bool" where
  "nad_laws k \<longleftrightarrow> (\<forall>lan spoke ns veth ps rs.
     obj_Kind (GenNAD k lan spoke ns veth ps rs) = ''NetworkAttachmentDefinition'' \<and>
     meta_Namespace (obj_Meta (GenNAD k lan spoke ns veth ps rs)) = ns)"

definition env_laws :: "('s \<Rightarrow> key \<Rightarrow> KObj option) \<Rightarrow> ('s, 'b) Env \<Rightarrow> bool" where
  "env_laws view E \<longleftrightarrow> client_laws view (env_Client E) \<and> fs_laws view (env_FS E) \<and> nad_laws (env_K8slan E)"

section \<open>The spokes of a node\<close>

text \<open>A Go map read at a key it does not have gives the zero value.\<close>

definition no_connector :: Connector where
  "no_connector = \<lparr>con_NodeName = None, con_PortId = None, con_Addrs = [], con_Routes = [], con_Mac = None\<rparr>"

definition node_spokemap :: "ParsedLab \<Rightarrow> string \<Rightarrow> string list gomap" where
  "node_spokemap lab node = (case map_of (plab_SpokeMap lab) node of Some m \<Rightarrow> m | None \<Rightarrow> [])"

definition spoke_connector :: "ParsedLab \<Rightarrow> string \<Rightarrow> Connector" where
  "spoke_connector lab spoke = (case map_of (plab_SpokeConnectorMap lab) spoke of Some c \<Rightarrow> c | None \<Rightarrow> no_connector)"

definition spoke_lan :: "ParsedLab \<Rightarrow> string \<Rightarrow> string" where
  "spoke_lan lab spoke = Getk8lanName (lab_Name (plab_Lab lab))
     (case map_of (plab_SpokeLinkMap lab) spoke of Some l \<Rightarrow> l | None \<Rightarrow> [])"

text \<open>The order of the two nested loops: links by name, then the spokes of the link.\<close>

definition node_spokes :: "ParsedLab \<Rightarrow> string \<Rightarrow> string list" where
  "node_spokes lab node = concat (map (\<lambda>link. case map_of (node_spokemap lab node) link of Some ss \<Rightarrow> ss | None \<Rightarrow> [])
     (GetSortedKeySlice (node_spokemap lab node)))"

section \<open>References to network attachments in a pod\<close>

abbreviation MultusAnnoKey :: string where "MultusAnnoKey \<equiv> ''k8s.v1.cni.cncf.io/networks''"
abbreviation K8sLANResKeyPrefix :: string where "K8sLANResKeyPrefix \<equiv> ''macvtap.k8slan.io''"

text \<open>
  One round of the loop: \<open>item i spoke\<close> is the text for the \<open>i\<close>th spoke, counted from 1. The
  text ends in a comma, which is cut off after the loop.
\<close>

definition refer_spoke ::
  "K8slan \<Rightarrow> ParsedLab \<Rightarrow> (int \<Rightarrow> string \<Rightarrow> string result) \<Rightarrow> int \<times> string \<Rightarrow>
   string \<times> quantity gomap \<Rightarrow> (string \<times> quantity gomap) result" where
  "refer_spoke k lab item = (\<lambda>(i, spoke) (netStr, limits).
     bindr (item i spoke) (\<lambda>t.
       let resKey = K8sLANResKeyPrefix @ ''/'' @ GetDPResouceName k (spoke_lan lab spoke) spoke True
       in Inr (netStr @ t @ '','', AList.update resKey (MustParse ''1'') limits)))"

definition refer_nads ::
  "K8slan \<Rightarrow> ParsedLab \<Rightarrow> string \<Rightarrow> (int \<Rightarrow> string \<Rightarrow> string result) \<Rightarrow> (string \<times> quantity gomap) result" where
  "refer_nads k lab node item =
     foldm (refer_spoke k lab item) (map (apfst ((+) 1)) (indexed (node_spokes lab node))) ([], [])"

definition net_annotation :: "string \<Rightarrow> string gomap" where
  "net_annotation netStr = (if netStr \<noteq> [] then [(MultusAnnoKey, butlast netStr)] else [])"

section \<open>Facts about the loop\<close>

lemma refer_fold:
  assumes "foldm (refer_spoke k lab item) xs (netStr, limits) = Inr (netStr', limits')"
  shows "\<exists>ts. list_all2 (\<lambda>(i, spoke) t. item i spoke = Inr t) xs ts \<and>
    netStr' = netStr @ concat (map (\<lambda>t. t @ '','') ts) \<and>
    fst ` set limits' = fst ` set limits \<union>
      (\<lambda>(i, spoke). K8sLANResKeyPrefix @ ''/'' @ GetDPResouceName k (spoke_lan lab spoke) spoke True) ` set xs"
  using assms
proof (induction xs arbitrary: netStr limits)
  case (Cons x xs)
  obtain i spoke where x: "x = (i, spoke)" by fastforce
  from Cons.prems obtain t where t: "item i spoke = Inr t"
    "foldm (refer_spoke k lab item) xs (netStr @ t @ '','', AList.update
      (K8sLANResKeyPrefix @ ''/'' @ GetDPResouceName k (spoke_lan lab spoke) spoke True) (MustParse ''1'') limits) = Inr (netStr', limits')"
    by (auto simp: x refer_spoke_def Let_def result_simps)
  from Cons.IH [OF t(2)] obtain ts where "list_all2 (\<lambda>(i, spoke) t. item i spoke = Inr t) xs ts"
    "netStr' = netStr @ t @ '','' @ concat (map (\<lambda>t. t @ '','') ts)"
    "fst ` set limits' = insert (K8sLANResKeyPrefix @ ''/'' @ GetDPResouceName k (spoke_lan lab spoke) spoke True) (fst ` set limits) \<union>
      (\<lambda>(i, spoke). K8sLANResKeyPrefix @ ''/'' @ GetDPResouceName k (spoke_lan lab spoke) spoke True) ` set xs"
    by (auto simp: keys_update)
  with t(1) show ?case by (intro exI [of _ "t # ts"]) (simp add: x)
qed auto

lemma node_spokes_empty: "map_of (plab_SpokeMap lab) node = None \<Longrightarrow> node_spokes lab node = []"
  by (simp add: node_spokes_def node_spokemap_def GetSortedKeySlice_def)

end
