(* ===== verification/PodBuild.thy ===== *)
theory PodBuild
  imports NodeEnv
begin

text \<open>
  The pods of SR Linux, SR-SIM and general pod nodes (srl.go, srsim.go, generalpod.go,
  common.go), with the volume claims and config maps they use: the objects that are built, and
  the \<open>Ensure\<close> methods that create them. These methods ignore \<open>forceRemoval\<close>, so it is no argument here.

  The context value they read is always the parsed lab that the controller put there.
\<close>

section \<open>Common parts (common.go)\<close>

definition new_container :: "string \<Rightarrow> string \<Rightarrow> Container" where
  "new_container name img = \<lparr>ctr_Name = name, ctr_Image = img, ctr_Command = [], ctr_Env = [], ctr_Security = None,
     ctr_Mounts = [], ctr_PreStop = None, ctr_Limits = None, ctr_Requests = None\<rparr>"

definition NewBasePod :: "string \<Rightarrow> string \<Rightarrow> string \<Rightarrow> string \<Rightarrow> NodeType \<Rightarrow> KObj" where
  "NewBasePod labName nodeName nameSpace img nodeType =
     (let m = GetObjMeta (GetPodName labName nodeName) labName nameSpace nodeName nodeType in
      \<lparr>obj_Kind = ''Pod'',
       obj_Meta = m\<lparr>meta_Labels := AList.update K8SLABELNodeKEY nodeName (meta_Labels m), meta_Annotations := []\<rparr>,
       obj_Body = PodBody \<lparr>pod_InitContainers = [], pod_Containers = [new_container ''main'' img], pod_Volumes = []\<rparr>\<rparr>)"

text \<open>The annotations of a base pod are empty, and are replaced as a whole when there are networks.\<close>

definition finish_pod :: "KObj \<Rightarrow> PodSpec \<Rightarrow> string \<Rightarrow> KObj" where
  "finish_pod base spec netStr = base\<lparr>obj_Meta := (obj_Meta base)\<lparr>meta_Annotations := net_annotation netStr\<rparr>,
     obj_Body := PodBody spec\<rparr>"

definition new_pvc :: "SRCard KNLConfigSpec \<Rightarrow> ObjectMeta \<Rightarrow> quantity \<Rightarrow> KObj result" where
  "new_pvc gconf meta sz = bindr (deref (cfg_PVCStorageClass gconf)) (\<lambda>class.
     Inr \<lparr>obj_Kind = ''PersistentVolumeClaim'', obj_Meta = meta,
          obj_Body = PVCBody \<lparr>pvc_AccessModes = [''ReadWriteOncePod''], pvc_StorageClass = Some class,
                              pvc_Storage = Some sz\<rparr>\<rparr>)"

definition resource_requests :: "quantity option \<Rightarrow> quantity option \<Rightarrow> quantity gomap" where
  "resource_requests cpu memory =
     (let r = (case cpu of None \<Rightarrow> [] | Some q \<Rightarrow> [(''cpu'', q)])
      in case memory of None \<Rightarrow> r | Some q \<Rightarrow> AList.update ''memory'' q r)"

definition privileged :: "bool option \<Rightarrow> SecurityContext" where
  "privileged p = \<lparr>sec_Privileged = p, sec_RunAsUser = None, sec_RunAsGroup = None\<rparr>"

definition claim_volume :: "string \<Rightarrow> string \<Rightarrow> Volume" where
  "claim_volume name claim = \<lparr>vol_Name = name, vol_Source = ClaimVolume claim False\<rparr>"

definition mount :: "string \<Rightarrow> string \<Rightarrow> VolumeMount" where
  "mount name path = \<lparr>mnt_Name = name, mnt_Path = path, mnt_SubPath = []\<rparr>"

section \<open>SR Linux (srl.go)\<close>

abbreviation EtcPVCSize :: quantity where "EtcPVCSize \<equiv> MustParse ''100Mi''"

definition getEtcPVC :: "SRCard KNLConfigSpec \<Rightarrow> string \<Rightarrow> string \<Rightarrow> string \<Rightarrow> KObj result" where
  "getEtcPVC gconf ns nodeName labName =
     new_pvc gconf (GetObjMeta (labName @ ''-'' @ nodeName @ ''-etc'') labName ns nodeName SRL) EtcPVCSize"

definition getConfigMapFromSRLChassis ::
  "(SRLChassis \<Rightarrow> string result) \<Rightarrow> SRLinux \<Rightarrow> string \<Rightarrow> string \<Rightarrow> string \<Rightarrow> int \<Rightarrow> KObj result" where
  "getConfigMapFromSRLChassis yaml srl ns nodeName labName nodeIndex =
     bindr (deref (srl_Chassis srl)) (\<lambda>typ.
     bindr (must (getSRLChassisViaTypeStr typ)) (\<lambda>chassis.
     let chassis = chassis\<lparr>srlc_Configuration := (srlc_Configuration chassis)\<lparr>cc_BaseMAC := getBaseMAC nodeIndex\<rparr>\<rparr> in
     bindr (must (yaml chassis)) (\<lambda>buf.
       Inr \<lparr>obj_Kind = ''ConfigMap'', obj_Meta = GetObjMeta (labName @ ''-'' @ nodeName @ ''-topo'') labName ns nodeName SRL,
            obj_Body = ConfigMapBody [(''topology.yml'', buf)]\<rparr>)))"

definition srl_init_container :: "string \<Rightarrow> Container" where
  "srl_init_container img = (new_container ''sync-srl-etc'' img)
     \<lparr>ctr_Command := [''sh'', ''-c'', ''rm -rf /etc/opt/srlinux/*; rsync -rptgoD /persis-etc/ /etc/opt/srlinux/''],
      ctr_Security := Some \<lparr>sec_Privileged = Some True, sec_RunAsUser = Some 0, sec_RunAsGroup = Some 0\<rparr>,
      ctr_Mounts := [mount ''persis-etc'' ''/persis-etc/'', mount ''etc'' ''/etc/opt/srlinux/'']\<rparr>"

definition srl_container :: "SRLinux \<Rightarrow> string \<Rightarrow> quantity gomap \<Rightarrow> Container" where
  "srl_container srl img limits = (new_container ''main'' img)
     \<lparr>ctr_Command := [''/tini'', ''--'', ''fixuid'', ''-q'', ''/entrypoint.sh'', ''sudo'', ''bash'', ''/opt/srlinux/bin/sr_linux''],
      ctr_Security := Some (privileged (Some True)),
      ctr_Mounts := [\<lparr>mnt_Name = ''topo'', mnt_Path = ''/tmp/topology.yml'', mnt_SubPath = ''topology.yml''\<rparr>,
          mount ''etc'' ''/etc/opt/srlinux/'', mount ''persis-etc'' ''/persis-etc/''] @
        (if srl_LicSecret srl \<noteq> None
         then [\<lparr>mnt_Name = ''lic'', mnt_Path = ''/opt/srlinux/etc/license.key'', mnt_SubPath = ''license''\<rparr>] else []),
      ctr_PreStop := Some [''sh'', ''-c'', ''rm -rf /persis-etc/*;rsync -rptgoD /etc/opt/srlinux/ /persis-etc/''],
      ctr_Limits := Some limits,
      ctr_Requests := Some (resource_requests (srl_ReqCPU srl) (srl_ReqMemory srl))\<rparr>"

definition srl_volumes :: "SRLinux \<Rightarrow> string \<Rightarrow> string \<Rightarrow> Volume list" where
  "srl_volumes srl topoName etcName =
     [\<lparr>vol_Name = ''topo'', vol_Source = ConfigMapVolume topoName\<rparr>,
      \<lparr>vol_Name = ''etc'', vol_Source = EmptyDirVolume EtcPVCSize\<rparr>,
      claim_volume ''persis-etc'' etcName] @
     (case srl_LicSecret srl of None \<Rightarrow> [] | Some lic \<Rightarrow> [\<lparr>vol_Name = ''lic'', vol_Source = SecretVolume lic\<rparr>])"

text \<open>The interface of a spoke in the pod: its port if one is given, the next of e1-1, e1-2 and so on if not.\<close>

definition srl_net :: "K8slan \<Rightarrow> ParsedLab \<Rightarrow> int \<Rightarrow> string \<Rightarrow> string result" where
  "srl_net k lab i spoke =
     (let nadName = GetDefNADName k (spoke_lan lab spoke) spoke True
      in case con_PortId (spoke_connector lab spoke) of
           Some port \<Rightarrow> Inr (nadName @ ''@'' @ port)
         | None \<Rightarrow> Inr (nadName @ ''@e1-'' @ Itoa i))"

definition srl_pod :: "K8slan \<Rightarrow> SRLinux \<Rightarrow> ParsedLab \<Rightarrow> string \<Rightarrow> string \<Rightarrow> string \<Rightarrow> KObj result" where
  "srl_pod k srl lab nodeName topoName etcName =
     bindr (deref (srl_Image srl)) (\<lambda>img.
     bindr (refer_nads k lab nodeName (srl_net k lab)) (\<lambda>(netStr, limits).
       Inr (finish_pod (NewBasePod (lab_Name (plab_Lab lab)) nodeName (lab_Namespace (plab_Lab lab)) img SRL)
         \<lparr>pod_InitContainers = [srl_init_container img], pod_Containers = [srl_container srl img limits],
          pod_Volumes = srl_volumes srl topoName etcName\<rparr> netStr)))"

definition SRLinux_Ensure :: "('s, 'b) Env \<Rightarrow> SRLinux \<Rightarrow> ParsedLab \<Rightarrow> string \<Rightarrow> ('s, unit) proc" where
  "SRLinux_Ensure E srl lab nodeName =
     (let l = plab_Lab lab; clnt = env_Client E in
      bindp (liftp (getConfigMapFromSRLChassis (env_SrlYaml E) srl (lab_Namespace l) nodeName (lab_Name l)
        (GetNodeSortIndex (entries (lab_NodeList (lab_Spec l))) nodeName))) (\<lambda>topoCM.
      bindp (wrapp ''failed to create topology configmap for SRL %v in lab %v, %w'' [nodeName, lab_Name l]
        (createIfNotExistsOrRemove clnt lab topoCM True False)) (\<lambda>_.
      bindp (liftp (getEtcPVC (env_GConf E) (lab_Namespace l) nodeName (lab_Name l))) (\<lambda>etcPVC.
      bindp (wrapp ''failed to create etc pvc for SRL %v in lab %v, %w'' [nodeName, lab_Name l]
        (createIfNotExistsOrRemove clnt lab etcPVC False False)) (\<lambda>_.
      bindp (liftp (srl_pod (env_K8slan E) srl lab nodeName (meta_Name (obj_Meta topoCM)) (meta_Name (obj_Meta etcPVC)))) (\<lambda>pod.
      wrapp ''failed to create SRL pod %v in lab %v, %w'' [nodeName, lab_Name l]
        (createIfNotExistsOrRemove clnt lab pod True False)))))))"

section \<open>SR-SIM (srsim.go)\<close>

definition getCFPVCName :: "string \<Rightarrow> string \<Rightarrow> string \<Rightarrow> int \<Rightarrow> string" where
  "getCFPVCName nodeName labName slot i = ToLower (labName @ ''-'' @ nodeName @ ''-cf-'' @ slot @ ''-'' @ Itoa i)"

definition getCFPVC :: "SRCard KNLConfigSpec \<Rightarrow> string \<Rightarrow> string \<Rightarrow> string \<Rightarrow> string \<Rightarrow> int \<Rightarrow> KObj result" where
  "getCFPVC gconf ns nodeName labName slot i =
     new_pvc gconf (GetObjMeta (getCFPVCName nodeName labName slot i) labName ns nodeName SRSIM) (MustParse ''64Mi'')"

definition mda_envs :: "string \<Rightarrow> string list \<Rightarrow> (string \<times> string) list" where
  "mda_envs prefix mdas = map (\<lambda>(k, mda). (prefix @ Itoa (k + 1), mda)) (indexed mdas)"

definition xiom_envs :: "string \<times> XIOM \<Rightarrow> (string \<times> string) list result" where
  "xiom_envs = (\<lambda>(xiomslot, xiom). bindr (deref (xiom_Model xiom)) (\<lambda>model.
     Inr ((''NOKIA_SROS_XIOM_'' @ xiomslot, model) # mda_envs (''NOKIA_SROS_MDA_'' @ xiomslot @ ''_'') (xiom_MDAs xiom))))"

definition srsim_envs :: "SRCard SRChassis \<Rightarrow> string \<Rightarrow> SRCard \<Rightarrow> (string \<times> string) list result" where
  "srsim_envs chassis slotid crd =
     bindr (deref (ch_Model chassis)) (\<lambda>model.
     bindr (deref (card_Model crd)) (\<lambda>cardModel.
     bindr (mapr xiom_envs (entries (card_XIOM crd))) (\<lambda>xioms.
       Inr ([(''NOKIA_SROS_CHASSIS'', model), (''NOKIA_SROS_SLOT'', slotid), (''NOKIA_SROS_CARD'', cardModel)] @
         (case ch_SFM chassis of
            Some sfm \<Rightarrow> if TrimSpace sfm \<noteq> [] then [(''NOKIA_SROS_SFM'', sfm)] else []
          | None \<Rightarrow> []) @
         concat xioms @
         (case card_MDAs crd of Some mdas \<Rightarrow> mda_envs ''NOKIA_SROS_MDA_'' mdas | None \<Rightarrow> []) @
         (if IsCPM slotid then (case ch_ChassisMAC chassis of
            Some mac \<Rightarrow> [(''NOKIA_SROS_SYSTEM_BASE_MAC'', mac)] | None \<Rightarrow> []) else [])))))"

text \<open>One flash card of a CPM: its claim, mounted in the container and added to the volumes of the pod.\<close>

definition srsim_cf ::
  "('s, 'b) Env \<Rightarrow> ParsedLab \<Rightarrow> string \<Rightarrow> string \<Rightarrow> int \<Rightarrow> Container \<times> Volume list \<Rightarrow> ('s, Container \<times> Volume list) proc" where
  "srsim_cf E lab nodeName slotid i = (\<lambda>(container, vols).
     let l = plab_Lab lab in
     bindp (liftp (getCFPVC (env_GConf E) (lab_Namespace l) nodeName (lab_Name l) slotid i)) (\<lambda>cfPVC.
     bindp (wrapp ''failed to create cf card %d pvc for SRSIM %v in lab %v, %w'' [Itoa i, nodeName, lab_Name l]
       (createIfNotExistsOrRemove (env_Client E) lab cfPVC False False)) (\<lambda>_.
       let name = meta_Name (obj_Meta cfPVC)
       in retp (container\<lparr>ctr_Mounts := ctr_Mounts container @ [mount name (''/cf'' @ Itoa i)]\<rparr>,
                vols @ [claim_volume name name]))))"

definition srsim_card ::
  "('s, 'b) Env \<Rightarrow> SRCard SRSim \<Rightarrow> SRCard SRChassis \<Rightarrow> ParsedLab \<Rightarrow> string \<Rightarrow> string \<times> SRCard \<Rightarrow>
   Container list \<times> Volume list \<Rightarrow> ('s, Container list \<times> Volume list) proc" where
  "srsim_card E srsim chassis lab nodeName = (\<lambda>(slotid, crd) (containers, vols).
     bindp (liftp (deref (srsim_Image srsim))) (\<lambda>img.
     bindp (liftp (srsim_envs chassis slotid crd)) (\<lambda>envs.
     let container = (new_container (ToLower (''slot-'' @ slotid)) img)
           \<lparr>ctr_Security := Some (privileged (Some True)),
            ctr_Mounts := [\<lparr>mnt_Name = ''lic'', mnt_Path = ''/nokia/license/license.txt'', mnt_SubPath = ''license''\<rparr>],
            ctr_Env := envs\<rparr>
     in bindp (if IsCPM slotid then foldp (srsim_cf E lab nodeName slotid) [1, 2, 3] (container, vols)
               else retp (container, vols)) (\<lambda>(container, vols).
          retp (containers @ [container\<lparr>ctr_Requests := Some (resource_requests (card_ReqCPU crd) (card_ReqMemory crd))\<rparr>],
                vols)))))"

text \<open>Without a port, the interface is on MDA 1 of the first line-card slot.\<close>

definition srsim_net :: "K8slan \<Rightarrow> SRCard SRChassis \<Rightarrow> ParsedLab \<Rightarrow> int \<Rightarrow> string \<Rightarrow> string result" where
  "srsim_net k chassis lab i spoke =
     (let nadName = GetDefNADName k (spoke_lan lab spoke) spoke True
      in case con_PortId (spoke_connector lab spoke) of
           Some port \<Rightarrow> Inr (nadName @ ''@'' @ port)
         | None \<Rightarrow> bindr (GetDefaultMDASlot chassis) (\<lambda>slot. Inr (nadName @ ''@e'' @ slot @ ''-1-'' @ Itoa i)))"

text \<open>The limits go to the first container, whichever slot that is.\<close>

definition srsim_pod ::
  "K8slan \<Rightarrow> SRCard SRSim \<Rightarrow> SRCard SRChassis \<Rightarrow> ParsedLab \<Rightarrow> string \<Rightarrow> string \<Rightarrow> Container list \<Rightarrow> Volume list \<Rightarrow> KObj result" where
  "srsim_pod k srsim chassis lab nodeName img containers vols =
     bindr (deref (srsim_LicSecret srsim)) (\<lambda>lic.
     bindr (at containers 0) (\<lambda>first.
     bindr (refer_nads k lab nodeName (srsim_net k chassis lab)) (\<lambda>(netStr, limits).
       Inr (finish_pod (NewBasePod (lab_Name (plab_Lab lab)) nodeName (lab_Namespace (plab_Lab lab)) img SRSIM)
         \<lparr>pod_InitContainers = [], pod_Containers = first\<lparr>ctr_Limits := Some limits\<rparr> # tl containers,
          pod_Volumes = vols @ [\<lparr>vol_Name = ''lic'', vol_Source = SecretVolume lic\<rparr>]\<rparr> netStr))))"

definition SRSim_Ensure :: "('s, 'b) Env \<Rightarrow> SRCard SRSim \<Rightarrow> ParsedLab \<Rightarrow> string \<Rightarrow> ('s, unit) proc" where
  "SRSim_Ensure E srsim lab nodeName =
     bindp (liftp (deref (srsim_Image srsim))) (\<lambda>img.
     bindp (liftp (deref (srsim_Chassis srsim))) (\<lambda>chassis.
     bindp (foldp (srsim_card E srsim chassis lab nodeName) (entries (ch_Cards chassis)) ([], [])) (\<lambda>(containers, vols).
     bindp (liftp (srsim_pod (env_K8slan E) srsim chassis lab nodeName img containers vols)) (\<lambda>pod.
     wrapp ''failed to create SRL pod %v in lab %v, %w'' [nodeName, lab_Name (plab_Lab lab)]
       (createIfNotExistsOrRemove (env_Client E) lab pod True False)))))"

section \<open>General pods (generalpod.go)\<close>

definition getRootPVC :: "SRCard KNLConfigSpec \<Rightarrow> string \<Rightarrow> string \<Rightarrow> string \<Rightarrow> quantity \<Rightarrow> KObj result" where
  "getRootPVC gconf ns nodeName labName sz =
     new_pvc gconf (GetObjMeta (labName @ ''-'' @ nodeName @ ''-root'') labName ns nodeName Pod) sz"

text \<open>An address list is nil when it is empty: the two are not told apart (\<open>KNL_Types\<close>).\<close>

definition parsed_route :: "string \<Rightarrow> Route result" where
  "parsed_route rstr = (case parseRoute rstr of Inl (Err _) \<Rightarrow> deref None | r \<Rightarrow> r)"

definition pod_nad :: "('s, 'b) Env \<Rightarrow> ParsedLab \<Rightarrow> string \<Rightarrow> KObj result" where
  "pod_nad E lab spokeName =
     (let c = spoke_connector lab spokeName in
      bindr (mapr MustParsePrefix (con_Addrs c)) (\<lambda>prefixList.
      bindr (mapr parsed_route (con_Routes c)) (\<lambda>routeList.
        Inr (GenNAD (env_K8slan E) (spoke_lan lab spokeName) spokeName (env_MYNAMESPACE E) True prefixList routeList))))"

definition ensure_pod_nad :: "('s, 'b) Env \<Rightarrow> ParsedLab \<Rightarrow> string \<Rightarrow> string \<Rightarrow> ('s, unit) proc" where
  "ensure_pod_nad E lab nodeName spokeName =
     (if con_Addrs (spoke_connector lab spokeName) \<noteq> [] then
        bindp (liftp (pod_nad E lab spokeName)) (\<lambda>nad.
        wrapp ''failed to create general pod nad %v in lab %v, %w'' [nodeName, lab_Name (plab_Lab lab)]
          (createIfNotExistsOrRemove (env_Client E) lab nad True False))
      else retp ())"

definition pod_net :: "K8slan \<Rightarrow> ParsedLab \<Rightarrow> int \<Rightarrow> string \<Rightarrow> string result" where
  "pod_net k lab i spoke =
     (let lanName = spoke_lan lab spoke; c = spoke_connector lab spoke;
          nadName = (if con_Addrs c \<noteq> [] then GetAddrNADName k lanName spoke else GetDefNADName k lanName spoke True)
      in case con_PortId c of None \<Rightarrow> Inr nadName | Some port \<Rightarrow> Inr (nadName @ ''@'' @ port))"

definition pod_container :: "(string \<Rightarrow> string list) \<Rightarrow> GeneralPod \<Rightarrow> string \<Rightarrow> quantity gomap \<Rightarrow> Container" where
  "pod_container shlex gpod img limits = (new_container ''main'' img)
     \<lparr>ctr_Command := (case gpod_Command gpod of None \<Rightarrow> [] | Some cmd \<Rightarrow> shlex cmd),
      ctr_Security := Some (privileged (gpod_Privileged gpod)),
      ctr_Mounts := [mount ''root'' ''/root''],
      ctr_Limits := Some limits,
      ctr_Requests := Some (resource_requests (gpod_ReqCPU gpod) (gpod_ReqMemory gpod))\<rparr>"

definition general_pod ::
  "K8slan \<Rightarrow> (string \<Rightarrow> string list) \<Rightarrow> GeneralPod \<Rightarrow> ParsedLab \<Rightarrow> string \<Rightarrow> string \<Rightarrow> string \<Rightarrow> KObj result" where
  "general_pod k shlex gpod lab nodeName img rootName =
     bindr (refer_nads k lab nodeName (pod_net k lab)) (\<lambda>(netStr, limits).
       Inr (finish_pod (NewBasePod (lab_Name (plab_Lab lab)) nodeName (lab_Namespace (plab_Lab lab)) img Pod)
         \<lparr>pod_InitContainers = [], pod_Containers = [pod_container shlex gpod img limits],
          pod_Volumes = [claim_volume ''root'' rootName]\<rparr> netStr))"

definition GeneralPod_Ensure :: "('s, 'b) Env \<Rightarrow> GeneralPod \<Rightarrow> ParsedLab \<Rightarrow> string \<Rightarrow> ('s, unit) proc" where
  "GeneralPod_Ensure E gpod lab nodeName =
     (let l = plab_Lab lab; clnt = env_Client E in
      bindp (liftp (deref (gpod_PvcSize gpod))) (\<lambda>sz.
      bindp (liftp (getRootPVC (env_GConf E) (lab_Namespace l) nodeName (lab_Name l) sz)) (\<lambda>rootPVC.
      bindp (wrapp ''failed to create etc pvc for pod %v in lab %v, %w'' [nodeName, lab_Name l]
        (createIfNotExistsOrRemove clnt lab rootPVC False False)) (\<lambda>_.
      bindp (liftp (deref (gpod_Image gpod))) (\<lambda>img.
      bindp (eachp (ensure_pod_nad E lab nodeName) (concat (map snd (node_spokemap lab nodeName)))) (\<lambda>_.
      bindp (liftp (general_pod (env_K8slan E) (env_Shlex E) gpod lab nodeName img (meta_Name (obj_Meta rootPVC)))) (\<lambda>pod.
      wrapp ''failed to create general pod %v in lab %v, %w'' [nodeName, lab_Name l]
        (createIfNotExistsOrRemove clnt lab pod True False))))))))"

end
