(* ===== verification/NodeEnsure.thy ===== *)
theory NodeEnsure
  imports PodBuild VMBuild LabController
begin

text \<open>
  The \<open>Ensure\<close> method of the \<open>System\<close> interface (system.go) over the seven node types, what it
  touches of the cluster, and what it leaves there when it succeeds.

  Both are relations between the states before and after (\<open>outside\<close>, \<open>additive\<close>) that every call
  keeps, and so does a sequence of calls (\<open>keeps\<close>).
\<close>

definition System_Ensure :: "('s, 'b) Env \<Rightarrow> bool \<Rightarrow> ParsedLab \<Rightarrow> string \<Rightarrow> SRCard System \<Rightarrow> ('s, unit) proc" where
  "System_Ensure E forceRemoval lab nodeName sys = (case sys of
      SysVSIM v \<Rightarrow> SRVM_Ensure E v lab nodeName forceRemoval
    | SysVSRI v \<Rightarrow> SRVM_Ensure E v lab nodeName forceRemoval
    | SysMAGC v \<Rightarrow> SRVM_Ensure E v lab nodeName forceRemoval
    | SysVM v \<Rightarrow> GeneralVM_Ensure E v lab nodeName forceRemoval
    | SysSRL v \<Rightarrow> SRLinux_Ensure E v lab nodeName
    | SysPod v \<Rightarrow> GeneralPod_Ensure E v lab nodeName
    | SysSRSIM v \<Rightarrow> SRSim_Ensure E v lab nodeName)"

lemma outsideD: "outside view K s s' \<Longrightarrow> k \<notin> K \<Longrightarrow> view s' k = view s k"
  unfolding outside_def by blast

section \<open>One object\<close>

text \<open>The keys a call about the object \<open>t\<close> can touch: it looks in the namespace of the lab.\<close>

definition about :: "ParsedLab \<Rightarrow> KObj \<Rightarrow> key set" where
  "about lab t = {obj_key t, (obj_Kind t, lab_Namespace (plab_Lab lab), meta_Name (obj_Meta t))}"

lemma about_same_ns: "meta_Namespace (obj_Meta t) = lab_Namespace (plab_Lab lab) \<Longrightarrow> about lab t = {obj_key t}"
  by (simp add: about_def obj_key_def)

lemma about_cong: "obj_key t' = obj_key t \<Longrightarrow> about lab t' = about lab t"
  by (simp add: about_def obj_key_def)

lemma keeps_Create:
  assumes "client_laws view clnt"
  shows "keeps (outside view (about lab t)) (clnt_Create clnt t)"
proof (rule keepsI)
  fix s
  obtain r s' where c: "clnt_Create clnt t s = (r, s')" by fastforce
  then show "outside view (about lab t) s (snd (clnt_Create clnt t s))"
    using unchanged_outside [OF client_Create(1) [OF assms c]] by (simp add: about_def)
qed

lemma keeps_Delete:
  assumes "client_laws view clnt"
  shows "keeps (outside view (about lab t)) (clnt_Delete clnt t)"
proof (rule keepsI)
  fix s
  obtain r s' where c: "clnt_Delete clnt t s = (r, s')" by fastforce
  then show "outside view (about lab t) s (snd (clnt_Delete clnt t s))"
    using unchanged_outside [OF client_Delete [OF assms c]] by (simp add: about_def)
qed

lemma keeps_recreate:
  assumes "client_laws view clnt"
  shows "keeps (outside view (about lab t)) (recreateIfFailed clnt chk t)"
  unfolding recreateIfFailed_def WaitForObjGone_def
  by (auto split: sum.split fault.split intro!: keeps_bindp keeps_MakeErr keeps_Delete keeps_Create assms)

text \<open>Both calls read first; \<open>step\<close> is what they do with what they find.\<close>

lemma keeps_read_first:
  fixes view :: "'s \<Rightarrow> key \<Rightarrow> KObj option"
  assumes laws: "client_laws view clnt" "owner_laws lab"
    and step: "\<And>t' g s1. obj_key t' = obj_key t \<Longrightarrow>
      (\<And>x. g = Inr x \<Longrightarrow> obj_key x = (obj_Kind t, lab_Namespace (plab_Lab lab), meta_Name (obj_Meta t))) \<Longrightarrow>
      outside view K s1 (snd (cont t' g s1))"
  shows "keeps (outside view K) (bindp (set_owner lab needOwner t) (\<lambda>t' s.
    case clnt_Get clnt (lab_Namespace (plab_Lab lab)) (meta_Name (obj_Meta t')) t' s of (g, s1) \<Rightarrow> cont t' g s1))"
proof (rule keepsI)
  fix s :: 's
  obtain r0 s0 where own: "set_owner lab needOwner t s = (r0, s0)" by fastforce
  note so = set_owner_eq [OF own laws(2)]
  show "outside view K s (snd (bindp (set_owner lab needOwner t) (\<lambda>t' s.
    case clnt_Get clnt (lab_Namespace (plab_Lab lab)) (meta_Name (obj_Meta t')) t' s of (g, s1) \<Rightarrow> cont t' g s1) s))"
  proof (cases r0)
    case (Inl e)
    then show ?thesis using own so(1) by simp
  next
    case (Inr t')
    note t' = so(2) [OF Inr]
    obtain g s1 where get: "clnt_Get clnt (lab_Namespace (plab_Lab lab)) (meta_Name (obj_Meta t')) t' s = (g, s1)"
      by fastforce
    note cg = client_Get [OF laws(1) get]
    have "obj_key x = (obj_Kind t, lab_Namespace (plab_Lab lab), meta_Name (obj_Meta t))" if "g = Inr x" for x
      using client_key [OF laws(1) cg(2) [OF that]] t' by (simp add: obj_key_def)
    from step [of t' g s1, OF _ this] t' have "outside view K s1 (snd (cont t' g s1))" by blast
    then show ?thesis using own so(1) Inr get cg(1) by (simp add: outside_def)
  qed
qed

lemma keeps_createOrRemove:
  assumes "client_laws view clnt" "owner_laws lab"
  shows "keeps (outside view (about lab t)) (createIfNotExistsOrRemove clnt lab t needOwner remove)"
proof -
  let ?K = "about lab t"
  have del: "outside view ?K s (snd (clnt_Delete clnt x s))"
    if "obj_key x = (obj_Kind t, lab_Namespace (plab_Lab lab), meta_Name (obj_Meta t))" for x s
    using keeps_Delete [OF assms(1), of lab x] that
    by (auto simp: keeps_def about_def obj_key_def intro: outside_mono)
  have cre: "outside view ?K s (snd (clnt_Create clnt t' s))" if "obj_key t' = obj_key t" for t' s
    using keeps_Create [OF assms(1), of lab t'] about_cong [OF that] by (simp add: keeps_def)
  have bnd: "snd (bindp (clnt_Create clnt t') (\<lambda>_. retp ()) s) = snd (clnt_Create clnt t' s)" for t' s
    by (auto simp: bindp_def split: prod.split sum.split)
  show ?thesis
    unfolding createIfNotExistsOrRemove_def
    by (rule keeps_read_first)
      (use assms del cre bnd in \<open>auto split: sum.split\<close>)
qed

lemma keeps_createOrFailedOrRemove:
  assumes "client_laws view clnt" "owner_laws lab"
  shows "keeps (outside view (about lab t)) (createIfNotExistsOrFailedOrRemove clnt lab t chk needOwner remove)"
proof -
  let ?K = "about lab t"
  have near: "outside view ?K s (snd (m s))" if "keeps (outside view (about lab x)) m"
    "obj_key x = (obj_Kind t, lab_Namespace (plab_Lab lab), meta_Name (obj_Meta t)) \<or> obj_key x = obj_key t"
    for m :: "('a, unit) proc" and x s
    using that by (auto simp: keeps_def about_def obj_key_def intro: outside_mono)
  have new: "outside view ?K s (snd (bindp (MakeErr (clnt_Create clnt t')) (recreateIfFailed clnt chk) s))"
    if "obj_key t' = obj_key t" for t' s
  proof -
    obtain r s1 where m: "MakeErr (clnt_Create clnt t') s = (r, s1)" by fastforce
    obtain r0 where c: "clnt_Create clnt t' s = (r0, s1)" and r0: "\<forall>x. r = Inr x \<longleftrightarrow> r0 = Inr x"
      using MakeErr_eq [OF m] by auto
    note cc = client_Create [OF assms(1) c]
    have 1: "outside view ?K s s1"
      using unchanged_outside [OF cc(1), of ?K] that by (simp add: about_def)
    show ?thesis
    proof (cases r)
      case (Inl e)
      then show ?thesis using m 1 by simp
    next
      case (Inr x)
      then have "obj_key x = obj_key t" using cc(2) r0 that by auto
      then have "outside view ?K s1 (snd (recreateIfFailed clnt chk x s1))"
        using near [OF keeps_recreate [OF assms(1)]] by blast
      then show ?thesis using m Inr 1 transpD [OF outside_refl(2)] by (metis bindp_simps(2))
    qed
  qed
  have old: "outside view ?K s (snd (bindp m (\<lambda>_. recreateIfFailed clnt chk x) s))"
    if "obj_key x = (obj_Kind t, lab_Namespace (plab_Lab lab), meta_Name (obj_Meta t))"
      and "m = retp () \<or> m = MakeErr (liftp (IsOwnedbyLab x lab))" for m :: "('a, unit) proc" and x s
  proof -
    have "keeps (outside view (about lab x)) (bindp m (\<lambda>_. recreateIfFailed clnt chk x))"
      using that(2) by (auto intro!: keeps_bindp keeps_recreate keeps_MakeErr assms)
    then show ?thesis using near that(1) by blast
  qed
  have del: "outside view ?K s (snd (MakeErr (clnt_Delete clnt x) s))"
    if "obj_key x = (obj_Kind t, lab_Namespace (plab_Lab lab), meta_Name (obj_Meta t))" for x s
    using near [OF keeps_MakeErr [OF keeps_Delete [OF assms(1)]]] that by blast
  show ?thesis
    unfolding createIfNotExistsOrFailedOrRemove_def
    by (rule keeps_read_first) (use assms del new old in \<open>auto split: sum.split\<close>)
qed

text \<open>Creating without removing leaves every object as it is.\<close>

lemma additive_createOrRemove:
  assumes "client_laws view clnt" "owner_laws lab"
  shows "keeps (additive view) (createIfNotExistsOrRemove clnt lab t needOwner False)"
proof (rule keepsI)
  fix s :: 'a
  obtain r0 s0 where own: "set_owner lab needOwner t s = (r0, s0)" by fastforce
  note so = set_owner_eq [OF own assms(2)]
  show "additive view s (snd (createIfNotExistsOrRemove clnt lab t needOwner False s))"
  proof (cases r0)
    case (Inl e)
    then show ?thesis using own so(1) by (simp add: createIfNotExistsOrRemove_def)
  next
    case (Inr t')
    obtain g s1 where get: "clnt_Get clnt (lab_Namespace (plab_Lab lab)) (meta_Name (obj_Meta t')) t' s = (g, s1)"
      by fastforce
    obtain r2 s2 where cre: "clnt_Create clnt t' s1 = (r2, s2)" by fastforce
    note cc = client_Create [OF assms(1) cre]
    have "snd (createIfNotExistsOrRemove clnt lab t needOwner False s) = s1 \<or>
      snd (createIfNotExistsOrRemove clnt lab t needOwner False s) = s2"
      using own so(1) Inr get cre
      by (auto simp: createIfNotExistsOrRemove_def bindp_def split: sum.split)
    moreover have "additive view s1 s2"
      using cc(1,3) unfolding additive_def unchanged_except_def by metis
    ultimately show ?thesis using client_Get(1) [OF assms(1) get] same_view [of view s s1 "{}"]
      by (auto simp: additive_def)
  qed
qed

section \<open>The objects of a node\<close>

definition in_lab :: "ParsedLab \<Rightarrow> string \<Rightarrow> string \<Rightarrow> key" where
  "in_lab lab kind name = (kind, lab_Namespace (plab_Lab lab), name)"

definition srvm_nads :: "ParsedLab \<Rightarrow> string \<Rightarrow> 'c SRChassis \<Rightarrow> key set" where
  "srvm_nads lab node ch = (let ln = lab_Name (plab_Lab lab) in case ch_Model ch of None \<Rightarrow> {} | Some model \<Rightarrow>
     if IsIntegratedChassis model then {}
     else insert (in_lab lab ''NetworkAttachmentDefinition'' (GetVSROSFBName ln node))
       (if fst (ParseSRVMName_New node) = SRVMMAGC
        then {in_lab lab ''NetworkAttachmentDefinition'' (GetMAGCDFName ln node)} else {}))"

definition card_keys :: "ParsedLab \<Rightarrow> string \<Rightarrow> string \<Rightarrow> key set" where
  "card_keys lab node slot = (let ln = lab_Name (plab_Lab lab) in
     insert (in_lab lab ''VirtualMachineInstance'' (GetSRVMCardVMName ln node slot))
       (if IsCPM slot then {in_lab lab ''DataVolume'' (GetSRVMDVName ln node slot)} else {}))"

definition srvm_keys :: "ParsedLab \<Rightarrow> string \<Rightarrow> 'c SRVM \<Rightarrow> key set" where
  "srvm_keys lab node v = (case srvm_Chassis v of None \<Rightarrow> {} | Some ch \<Rightarrow>
     srvm_nads lab node ch \<union> \<Union>(card_keys lab node ` fst ` set (entries (ch_Cards ch))))"

definition srsim_keys :: "ParsedLab \<Rightarrow> string \<Rightarrow> 'c SRSim \<Rightarrow> key set" where
  "srsim_keys lab node v = (let ln = lab_Name (plab_Lab lab) in
     {in_lab lab ''Pod'' (GetPodName ln node)} \<union>
     (case srsim_Chassis v of None \<Rightarrow> {} | Some ch \<Rightarrow> \<Union>(slot, c) \<in> set (entries (ch_Cards ch)).
        if IsCPM slot then in_lab lab ''PersistentVolumeClaim'' ` getCFPVCName node ln slot ` {1, 2, 3} else {}))"

definition pod_keys :: "('s, 'b) Env \<Rightarrow> ParsedLab \<Rightarrow> string \<Rightarrow> key set" where
  "pod_keys E lab node = (let ln = lab_Name (plab_Lab lab) in
     {in_lab lab ''Pod'' (GetPodName ln node), in_lab lab ''PersistentVolumeClaim'' (ln @ ''-'' @ node @ ''-root'')} \<union>
     \<Union>{about lab x | x spoke. spoke \<in> set (concat (map snd (node_spokemap lab node))) \<and>
        con_Addrs (spoke_connector lab spoke) \<noteq> [] \<and> pod_nad E lab spoke = Inr x})"

definition node_keys :: "('s, 'b) Env \<Rightarrow> ParsedLab \<Rightarrow> string \<Rightarrow> 'c System \<Rightarrow> key set" where
  "node_keys E lab node sys = (let ln = lab_Name (plab_Lab lab) in case sys of
      SysVSIM v \<Rightarrow> srvm_keys lab node v
    | SysVSRI v \<Rightarrow> srvm_keys lab node v
    | SysMAGC v \<Rightarrow> srvm_keys lab node v
    | SysVM v \<Rightarrow> {in_lab lab ''DataVolume'' (GetVMPCDVName ln node), in_lab lab ''VirtualMachineInstance'' (GetPodName ln node)}
    | SysSRL v \<Rightarrow> {in_lab lab ''ConfigMap'' (ln @ ''-'' @ node @ ''-topo''),
        in_lab lab ''PersistentVolumeClaim'' (ln @ ''-'' @ node @ ''-etc''), in_lab lab ''Pod'' (GetPodName ln node)}
    | SysPod v \<Rightarrow> pod_keys E lab node
    | SysSRSIM v \<Rightarrow> srsim_keys lab node v)"

text \<open>The objects that are built are where \<open>node_keys\<close> says.\<close>

lemma about_in_lab:
  "obj_key t = (kind, lab_Namespace (plab_Lab lab), name) \<Longrightarrow> about lab t = {in_lab lab kind name}"
  by (simp add: about_def obj_key_def in_lab_def)

lemma finish_pod_key [simp]:
  "obj_key (finish_pod (NewBasePod ln node ns img t) spec netStr) = (''Pod'', ns, GetPodName ln node)"
  by (simp add: finish_pod_def NewBasePod_def obj_key_def Let_def)

lemma new_pvc_key: "new_pvc gconf m sz = Inr x \<Longrightarrow> obj_key x = (''PersistentVolumeClaim'', meta_Namespace m, meta_Name m)"
  by (auto simp: new_pvc_def result_simps obj_key_def)

lemma built_keys:
  "getEtcPVC gconf ns node ln = Inr x \<Longrightarrow> obj_key x = (''PersistentVolumeClaim'', ns, ln @ ''-'' @ node @ ''-etc'')"
  "getRootPVC gconf ns node ln sz = Inr x \<Longrightarrow> obj_key x = (''PersistentVolumeClaim'', ns, ln @ ''-'' @ node @ ''-root'')"
  "getCFPVC gconf ns node ln slot i = Inr x \<Longrightarrow> obj_key x = (''PersistentVolumeClaim'', ns, getCFPVCName node ln slot i)"
  "getConfigMapFromSRLChassis yaml srl ns node ln idx = Inr x \<Longrightarrow> obj_key x = (''ConfigMap'', ns, ln @ ''-'' @ node @ ''-topo'')"
  "srl_pod k srl lab node topo etc = Inr x \<Longrightarrow> obj_key x = in_lab lab ''Pod'' (GetPodName (lab_Name (plab_Lab lab)) node)"
  "srsim_pod k srsim ch lab node img cs vs = Inr x \<Longrightarrow> obj_key x = in_lab lab ''Pod'' (GetPodName (lab_Name (plab_Lab lab)) node)"
  "general_pod k shlex gpod lab node img root = Inr x \<Longrightarrow> obj_key x = in_lab lab ''Pod'' (GetPodName (lab_Name (plab_Lab lab)) node)"
  by (auto simp: getEtcPVC_def getRootPVC_def getCFPVC_def getConfigMapFromSRLChassis_def srl_pod_def srsim_pod_def
      general_pod_def in_lab_def result_simps Let_def obj_key_def [of "\<lparr>obj_Kind = _, obj_Meta = _, obj_Body = _\<rparr>"]
      dest!: new_pvc_key)

lemma NewDV_key [simp]: "obj_key (NewDV ns ln name img cls sz) = (''DataVolume'', ns, name)"
  by (simp add: NewDV_def obj_key_def)

lemma NewFBBridge_key [simp]:
  "obj_key (NewFBBridgeNetworkDef ns ln br node t idx mtu) = (''NetworkAttachmentDefinition'', ns, br)"
  by (simp add: NewFBBridgeNetworkDef_def obj_key_def Let_def)

lemma GeneralVM_key: "GeneralVM_getVMI E gvm lab node = Inr x \<Longrightarrow>
    obj_key x = in_lab lab ''VirtualMachineInstance'' (GetPodName (lab_Name (plab_Lab lab)) node)"
  by (auto simp: GeneralVM_getVMI_def Let_def result_simps obj_key_def in_lab_def)

lemma SRVM_key: "SRVM_getVMI E srvm ch lab node (slot, c) lic u p = Inr x \<Longrightarrow>
    obj_key x = in_lab lab ''VirtualMachineInstance'' (GetSRVMCardVMName (lab_Name (plab_Lab lab)) node slot)"
  by (auto simp: SRVM_getVMI_def Let_def result_simps obj_key_def in_lab_def srvm_meta_def simp del: bindr_Inr)

lemma about_built:
  "getEtcPVC gconf (lab_Namespace (plab_Lab lab)) node ln = Inr x \<Longrightarrow>
     about lab x = {in_lab lab ''PersistentVolumeClaim'' (ln @ ''-'' @ node @ ''-etc'')}"
  "getRootPVC gconf (lab_Namespace (plab_Lab lab)) node ln sz = Inr x \<Longrightarrow>
     about lab x = {in_lab lab ''PersistentVolumeClaim'' (ln @ ''-'' @ node @ ''-root'')}"
  "getCFPVC gconf (lab_Namespace (plab_Lab lab)) node ln slot i = Inr x \<Longrightarrow>
     about lab x = {in_lab lab ''PersistentVolumeClaim'' (getCFPVCName node ln slot i)}"
  "getConfigMapFromSRLChassis yaml srl (lab_Namespace (plab_Lab lab)) node ln idx = Inr x \<Longrightarrow>
     about lab x = {in_lab lab ''ConfigMap'' (ln @ ''-'' @ node @ ''-topo'')}"
  "srl_pod k srl lab node topo etc = Inr x \<Longrightarrow> about lab x = {in_lab lab ''Pod'' (GetPodName (lab_Name (plab_Lab lab)) node)}"
  "srsim_pod k srsim ch lab node img cs vs = Inr x \<Longrightarrow> about lab x = {in_lab lab ''Pod'' (GetPodName (lab_Name (plab_Lab lab)) node)}"
  "general_pod k shlex gpod lab node img root = Inr x \<Longrightarrow> about lab x = {in_lab lab ''Pod'' (GetPodName (lab_Name (plab_Lab lab)) node)}"
  "GeneralVM_getVMI E gvm lab node = Inr x \<Longrightarrow>
     about lab x = {in_lab lab ''VirtualMachineInstance'' (GetPodName (lab_Name (plab_Lab lab)) node)}"
  "SRVM_getVMI E srvm ch lab node (slot, c) lic u p = Inr x \<Longrightarrow>
     about lab x = {in_lab lab ''VirtualMachineInstance'' (GetSRVMCardVMName (lab_Name (plab_Lab lab)) node slot)}"
  by (rule about_in_lab, drule built_keys GeneralVM_key SRVM_key, simp add: in_lab_def)+

lemma about_made:
  "about lab (NewDV (lab_Namespace (plab_Lab lab)) ln name img cls sz) = {in_lab lab ''DataVolume'' name}"
  "about lab (NewFBBridgeNetworkDef (lab_Namespace (plab_Lab lab)) ln br node t idx mtu)
     = {in_lab lab ''NetworkAttachmentDefinition'' br}"
  by (rule about_in_lab, simp)+

section \<open>What an Ensure touches\<close>

lemma env_lawsD:
  assumes "env_laws view E"
  shows "client_laws view (env_Client E)" and "fs_laws view (env_FS E)" and "nad_laws (env_K8slan E)"
  using assms by (simp_all add: env_laws_def)

lemma keeps_same_view:
  "keeps (\<lambda>s s'. view s' = view s) m \<Longrightarrow> keeps (outside view K) m"
  "keeps (\<lambda>s s'. view s' = view s) m \<Longrightarrow> keeps (additive view) m"
  by (simp_all add: keeps_def same_view)

lemma fs_keeps:
  assumes "fs_laws view fs"
  shows "keeps (\<lambda>s s'. view s' = view s) (fs_Readlink fs p)" and "keeps (\<lambda>s s'. view s' = view s) (fs_Stat fs p)"
    and "keeps (\<lambda>s s'. view s' = view s) (fs_MkdirAll fs p)" and "keeps (\<lambda>s s'. view s' = view s) (fs_Remove fs p)"
    and "keeps (\<lambda>s s'. view s' = view s) (fs_Symlink fs p q)" and "keeps (\<lambda>s s'. view s' = view s) (fs_WriteFile fs p q)"
  using assms by (simp_all add: fs_laws_def Let_def)

lemma keeps_Get:
  assumes "client_laws view clnt"
  shows "keeps (\<lambda>s s'. view s' = view s) (clnt_Get clnt ns n t)"
proof (rule keepsI)
  fix s
  obtain r s' where g: "clnt_Get clnt ns n t s = (r, s')" by fastforce
  then show "view (snd (clnt_Get clnt ns n t s)) = view s" using client_Get(1) [OF assms g] by simp
qed

lemma keeps_ensure:
  assumes "env_laws view E" "owner_laws lab" "about lab t \<subseteq> K"
  shows "keeps (outside view K) (createIfNotExistsOrRemove (env_Client E) lab t needOwner remove)"
    and "keeps (outside view K) (createIfNotExistsOrFailedOrRemove (env_Client E) lab t chk needOwner remove)"
  by (rule keeps_weaken [OF keeps_createOrRemove [OF env_lawsD(1) [OF assms(1)] assms(2)] outside_mono [OF _ assms(3)]], assumption,
      rule keeps_weaken [OF keeps_createOrFailedOrRemove [OF env_lawsD(1) [OF assms(1)] assms(2)] outside_mono [OF _ assms(3)]], assumption)

lemmas keeps_seq = keeps_bindp_liftp keeps_bindp keeps_wrapp keeps_MakeErr keeps_ignored keeps_eachp keeps_foldp
  keeps_retp keeps_liftp outside_refl additive_refl

lemma SRLinux_outside:
  assumes "env_laws view E" "owner_laws lab" "node_keys E lab node (SysSRL v :: SRCard System) \<subseteq> K"
  shows "keeps (outside view K) (SRLinux_Ensure E v lab node)"
  unfolding SRLinux_Ensure_def Let_def
  by (intro keeps_seq keeps_ensure [OF assms(1,2)]; use assms(3) in \<open>simp add: node_keys_def Let_def about_built\<close>)

lemma GeneralVM_outside:
  assumes "env_laws view E" "owner_laws lab" "node_keys E lab node (SysVM v :: SRCard System) \<subseteq> K"
  shows "keeps (outside view K) (GeneralVM_Ensure E v lab node f)"
  unfolding GeneralVM_Ensure_def Let_def
  by (intro keeps_seq keeps_ensure [OF assms(1,2)]; use assms(3) in \<open>simp add: node_keys_def Let_def about_built about_made\<close>)

lemma SRSim_outside:
  assumes "env_laws view E" "owner_laws lab" "node_keys E lab node (SysSRSIM v :: SRCard System) \<subseteq> K"
  shows "keeps (outside view K) (SRSim_Ensure E v lab node)"
proof -
  let ?ln = "lab_Name (plab_Lab lab)"
  have cf: "keeps (outside view K) (srsim_cf E lab node slot i b)"
    if "in_lab lab ''PersistentVolumeClaim'' (getCFPVCName node ?ln slot i) \<in> K" for slot i b
    by (cases b) (simp add: srsim_cf_def Let_def, intro keeps_seq keeps_ensure [OF assms(1,2)]; simp add: about_built that)
  have crd: "keeps (outside view K) (srsim_card E v ch lab node x b)"
    if ch: "srsim_Chassis v = Some ch" and x: "x \<in> set (entries (ch_Cards ch))" for ch x b
  proof -
    obtain slot c where sc: "x = (slot, c)" by fastforce
    have "in_lab lab ''PersistentVolumeClaim'' (getCFPVCName node ?ln slot i) \<in> srsim_keys lab node v"
      if "IsCPM slot" "i \<in> {1, 2, 3}" for i
      using ch x that unfolding sc srsim_keys_def Let_def by fastforce
    then have pvc: "in_lab lab ''PersistentVolumeClaim'' (getCFPVCName node ?ln slot i) \<in> K"
      if "IsCPM slot" "i \<in> {1, 2, 3}" for i
      using assms(3) that by (auto simp: node_keys_def)
    have "keeps (outside view K) (if IsCPM slot then foldp (srsim_cf E lab node slot) [1, 2, 3] b' else retp b')" for b'
    proof (cases "IsCPM slot")
      case True
      have "keeps (outside view K) (foldp (srsim_cf E lab node slot) [1, 2, 3] b')"
        by (rule keeps_foldp) (use cf pvc True in auto)
      then show ?thesis by (simp add: True)
    qed simp
    then show ?thesis
      by (cases b) (simp add: sc srsim_card_def Let_def, intro keeps_seq, auto intro!: keeps_seq split: prod.split)
  qed
  have pod: "in_lab lab ''Pod'' (GetPodName ?ln node) \<in> K"
    using assms(3) by (simp add: node_keys_def srsim_keys_def Let_def)
  show ?thesis
    unfolding SRSim_Ensure_def
    by (intro keeps_seq, assumption?)
      (auto simp: deref_eq_Inr about_built pod split: prod.split intro!: keeps_seq keeps_ensure [OF assms(1,2)] crd)
qed

lemma GeneralPod_outside:
  assumes "env_laws view E" "owner_laws lab" "node_keys E lab node (SysPod v :: SRCard System) \<subseteq> K"
  shows "keeps (outside view K) (GeneralPod_Ensure E v lab node)"
proof -
  have nad: "keeps (outside view K) (ensure_pod_nad E lab node spoke)"
    if "spoke \<in> set (concat (map snd (node_spokemap lab node)))" for spoke
  proof -
    have "about lab x \<subseteq> K" if "con_Addrs (spoke_connector lab spoke) \<noteq> []" "pod_nad E lab spoke = Inr x" for x
    proof -
      have "about lab x \<subseteq> pod_keys E lab node"
        unfolding pod_keys_def Let_def using that \<open>spoke \<in> _\<close> by blast
      with assms(3) show ?thesis by (simp add: node_keys_def)
    qed
    then show ?thesis
      unfolding ensure_pod_nad_def by (auto intro!: keeps_seq keeps_ensure [OF assms(1,2)])
  qed
  show ?thesis
    unfolding GeneralPod_Ensure_def Let_def
    by (intro keeps_seq keeps_ensure [OF assms(1,2)] nad;
        (assumption | use assms(3) in \<open>simp add: node_keys_def pod_keys_def Let_def about_built\<close>))
qed

text \<open>Looking for a bridge index and all work on files leave the cluster as it is.\<close>

lemma same_view_order: "reflp (\<lambda>s s'. view s' = view s)" "transp (\<lambda>s s'. view s' = view s)"
  by (auto simp: reflp_def transp_def)

lemma srvm_quiet:
  assumes "env_laws view E"
  shows "keeps (\<lambda>s s'. view s' = view s) (GetAvailableBrIndex (env_Bitset E) (env_Client E) n)"
    and "keeps (\<lambda>s s'. view s' = view s) (srvm_release E v labName node)"
    and "keeps (\<lambda>s s'. view s' = view s) (srvm_cfg_folder (env_FS E) labName node)"
proof -
  note fs = fs_keeps [OF env_lawsD(2) [OF assms]] and seq = keeps_seq same_view_order
  show "keeps (\<lambda>s s'. view s' = view s) (GetAvailableBrIndex (env_Bitset E) (env_Client E) n)"
  proof (rule keepsI)
    fix s
    obtain q s2 where c: "clnt_List (env_Client E) ''NetworkAttachmentDefinition'' s = (q, s2)" by fastforce
    have "snd (GetAvailableBrIndex (env_Bitset E) (env_Client E) n s) \<in> {s, s2}"
      using c by (auto simp: GetAvailableBrIndex_def bindp_def wrapp_def split: sum.split prod.split)
    then show "view (snd (GetAvailableBrIndex (env_Bitset E) (env_Client E) n s)) = view s"
      using client_List(1) [OF env_lawsD(1) [OF assms] c] by auto
  qed
  have link: "keeps (\<lambda>s s'. view s' = view s) (ReCreateSymLink (env_FS E) l n t)" for l n t
    unfolding ReCreateSymLink_def Let_def by (intro seq fs)
  show "keeps (\<lambda>s s'. view s' = view s) (srvm_release E v labName node)"
    unfolding srvm_release_def Let_def
    by (intro seq, simp split: if_split, intro conjI impI seq keeps_catchp fs; simp add: link keeps_MakeErr same_view_order)
  show "keeps (\<lambda>s s'. view s' = view s) (srvm_cfg_folder (env_FS E) labName node)"
    unfolding srvm_cfg_folder_def Let_def
    by (intro keeps_catchp fs seq, simp split: if_split, intro conjI impI seq fs)
qed

lemma SRVM_outside:
  fixes E :: "('s, 'b) Env"
  assumes "env_laws view E" "owner_laws lab" "srvm_keys lab node v \<subseteq> K"
  shows "keeps (outside view K) (SRVM_Ensure E v lab node f)"
proof -
  let ?ln = "lab_Name (plab_Lab lab)"
  note fs = fs_keeps [OF env_lawsD(2) [OF assms(1)], THEN keeps_same_view(1)]
  note get = keeps_Get [OF env_lawsD(1) [OF assms(1)], THEN keeps_same_view(1)]
  note quiet = srvm_quiet [OF assms(1), THEN keeps_same_view(1)]
  have fabric: "keeps (outside view K) (srvm_fabric E ch lab node f ix)" if "srvm_Chassis v = Some ch" for ch ix
  proof -
    have "srvm_nads lab node ch \<subseteq> K" using assms(3) that by (simp add: srvm_keys_def)
    then show ?thesis
      unfolding srvm_fabric_def Let_def
      by (intro keeps_seq, simp split: if_split, intro conjI impI keeps_seq keeps_ensure [OF assms(1,2)];
          simp add: about_made srvm_nads_def Let_def deref_eq_Inr)
  qed
  have crd: "keeps (outside view K) (srvm_card E v ch lab node f x b)"
    if ch: "srvm_Chassis v = Some ch" and x: "x \<in> set (entries (ch_Cards ch))" for ch x b
  proof -
    obtain slot c where sc: "x = (slot, c)" by fastforce
    have "card_keys lab node slot \<subseteq> srvm_keys lab node v"
      using ch x unfolding sc srvm_keys_def by force
    then have in_K: "IsCPM slot \<Longrightarrow> in_lab lab ''DataVolume'' (GetSRVMDVName ?ln node slot) \<in> K"
      "in_lab lab ''VirtualMachineInstance'' (GetSRVMCardVMName ?ln node slot) \<in> K"
      using assms(3) by (auto simp: card_keys_def Let_def)
    have cpm: "keeps (outside view K) (srvm_cpm E v lab node f slot)" if "IsCPM slot"
      unfolding srvm_cpm_def Let_def
      by (intro keeps_seq fs get, auto intro!: keeps_seq keeps_ensure [OF assms(1,2)] simp: about_made in_K that split: prod.split)
    show ?thesis
      unfolding sc srvm_card_def
      by (simp split: if_split, intro conjI impI keeps_seq cpm get keeps_ensure [OF assms(1,2)]; simp add: about_built in_K)
  qed
  show ?thesis
    unfolding SRVM_Ensure_def Let_def
    by (intro keeps_seq quiet fabric crd; (assumption | simp add: deref_eq_Inr))
qed

lemma System_outside:
  assumes "env_laws view E" "owner_laws lab" "node_keys E lab node sys \<subseteq> K"
  shows "keeps (outside view K) (System_Ensure E f lab node sys)"
  using assms
  by (cases sys) (simp_all add: System_Ensure_def SRLinux_outside GeneralVM_outside SRSim_outside GeneralPod_outside
      SRVM_outside node_keys_def)

text \<open>The objects of a lab: the LANs of its links and the objects of its nodes, for any names of the spokes.\<close>

definition lab_objects :: "('s, 'b) Env \<Rightarrow> SRCard Lab \<Rightarrow> key set" where
  "lab_objects E lab = lab_lan lab ` fst ` set (entries (lab_LinkList (lab_Spec lab))) \<union>
     \<Union>{node_keys E p node sys | p node one sys. plab_Lab p = lab \<and>
        (node, one) \<in> set (entries (lab_NodeList (lab_Spec lab))) \<and> fst (GetSystem one) = Some sys}"

lemma Reconcile_lab_objects:
  assumes "env_laws view E" and "view s (lab_key ns name) = Some x"
    and "\<And>plab. ParseLab (lab_of x) setref = Inr plab \<Longrightarrow> owner_laws plab"
    and "Reconcile bs gconf (env_Client E) setref (System_Ensure E f) ns name s = (r, s')"
  shows "outside view (insert (lab_key ns name) (lab_objects E (lab_of x))) s s'"
proof (rule Reconcile_outside [OF env_lawsD(1) [OF assms(1)] assms(2,3) _ _ _ assms(4)])
  fix p node one sys
  assume *: "owner_laws p" "plab_Lab p = lab_of x" "(node, one) \<in> set (entries (lab_NodeList (lab_Spec (lab_of x))))"
    "fst (GetSystem one) = Some sys"
  then have "node_keys E p node sys \<subseteq> lab_objects E (lab_of x)" unfolding lab_objects_def by blast
  then show "keeps (outside view (insert (lab_key ns name) (lab_objects E (lab_of x)))) (System_Ensure E f p node sys)"
    by (intro System_outside assms(1) *(1)) blast
qed (auto simp: lab_objects_def)

text \<open>The kinds of objects a node has: a lab is none of them.\<close>

definition node_kinds :: "string set" where
  "node_kinds = {''NetworkAttachmentDefinition'', ''VirtualMachineInstance'', ''DataVolume'', ''Pod'',
     ''PersistentVolumeClaim'', ''ConfigMap''}"

lemma node_keys_kinds:
  assumes "nad_laws (env_K8slan E)" "k \<in> node_keys E lab node sys"
  shows "fst k \<in> node_kinds"
proof -
  have nad: "fst j = ''NetworkAttachmentDefinition''" if "j \<in> about lab x" "pod_nad E lab spoke = Inr x" for j x spoke
    using that assms(1) by (auto simp: pod_nad_def Let_def result_simps nad_laws_def about_def obj_key_def)
  show ?thesis
    using assms(2) by (cases sys) (auto simp: node_kinds_def node_keys_def srvm_keys_def srvm_nads_def card_keys_def srsim_keys_def
        pod_keys_def Let_def in_lab_def split: option.splits if_splits dest: nad)
qed

lemma node_keys_not_lab:
  assumes "nad_laws (env_K8slan E)"
  shows "lab_key ns name \<notin> node_keys E lab node sys"
  using node_keys_kinds [OF assms, of "lab_key ns name" lab node sys] by (auto simp: lab_key_def node_kinds_def)

lemma lab_objects_kinds:
  assumes "nad_laws (env_K8slan E)" "k \<in> lab_objects E lab"
  shows "fst k \<in> insert ''LAN'' node_kinds"
  using assms(2) node_keys_kinds [OF assms(1)] unfolding lab_objects_def by (fastforce simp: lab_lan_def)

end
