(* ===== verification/NodePods.thy ===== *)
theory NodePods
  imports NodeEnsure
begin

text \<open>
  What the \<open>Ensure\<close> methods of the three pod types do to the cluster: they only add objects, a
  call that succeeds leaves all objects of the node there, and the pod handed to the client has what a pod of
  its node needs (\<open>lab_labels\<close>, \<open>pod_complete\<close>, \<open>node_containers\<close>).
\<close>

section \<open>Pods are never changed\<close>

text \<open>The Ensure methods of pods only ever add objects.\<close>

lemma additive_ensure:
  assumes "env_laws view E" "owner_laws lab"
  shows "keeps (additive view) (createIfNotExistsOrRemove (env_Client E) lab t needOwner False)"
  by (rule additive_createOrRemove [OF env_lawsD(1) [OF assms(1)] assms(2)])

definition is_pod :: "'c System \<Rightarrow> bool" where
  "is_pod sys = (case sys of SysSRL _ \<Rightarrow> True | SysPod _ \<Rightarrow> True | SysSRSIM _ \<Rightarrow> True | _ \<Rightarrow> False)"

lemma pods_additive:
  assumes "env_laws view E" "owner_laws lab"
  shows "keeps (additive view) (srsim_cf E lab node slot i b)"
    and "keeps (additive view) (srsim_card E v ch lab node x c)"
    and "keeps (additive view) (ensure_pod_nad E lab node spoke)"
    and "is_pod sys \<Longrightarrow> keeps (additive view) (System_Ensure E f lab node sys)"
proof -
  note add = additive_ensure [OF assms]
  have srl: "keeps (additive view) (SRLinux_Ensure E v lab node)" for v
    unfolding SRLinux_Ensure_def Let_def by (intro keeps_seq add)
  have cf: "keeps (additive view) (srsim_cf E lab node slot i b)" for slot i b
    by (cases b) (simp add: srsim_cf_def Let_def, intro keeps_seq add)
  have crd: "keeps (additive view) (srsim_card E v ch lab node x b)" for v ch x b
  proof -
    have "keeps (additive view) (if c then foldp (srsim_cf E lab node slot) [1, 2, 3] b' else retp b')" for c slot b'
      by (simp split: if_split, intro conjI impI keeps_seq cf; simp)
    then show ?thesis
      by (cases x; cases b) (simp add: srsim_card_def Let_def, intro keeps_seq, auto intro!: keeps_seq split: prod.split)
  qed
  have sim: "keeps (additive view) (SRSim_Ensure E v lab node)" for v
    unfolding SRSim_Ensure_def by (intro keeps_seq crd) (auto intro!: keeps_seq add split: prod.split)
  have nad: "keeps (additive view) (ensure_pod_nad E lab node spoke)" for spoke
    unfolding ensure_pod_nad_def by (simp split: if_split, intro conjI impI keeps_seq add)
  have pod: "keeps (additive view) (GeneralPod_Ensure E v lab node)" for v
    unfolding GeneralPod_Ensure_def Let_def by (intro keeps_seq add nad)
  show "keeps (additive view) (srsim_cf E lab node slot i b)" by (rule cf)
  show "keeps (additive view) (srsim_card E v ch lab node x c)" by (rule crd)
  show "keeps (additive view) (ensure_pod_nad E lab node spoke)" by (rule nad)
  show "keeps (additive view) (System_Ensure E f lab node sys)" if "is_pod sys"
    using that by (cases sys) (simp_all add: System_Ensure_def is_pod_def srl sim pod)
qed

section \<open>What an Ensure leaves behind\<close>

text \<open>\<open>makes P m\<close>: when \<open>m\<close> succeeds, the state it leaves has \<open>P\<close>, which later additions keep.\<close>

definition makes :: "('s \<Rightarrow> bool) \<Rightarrow> ('s, 'a) proc \<Rightarrow> bool" where
  "makes P m \<longleftrightarrow> (\<forall>s u s'. m s = (Inr u, s') \<longrightarrow> P s')"

definition has :: "('s \<Rightarrow> key \<Rightarrow> KObj option) \<Rightarrow> key \<Rightarrow> 's \<Rightarrow> bool" where
  "has view k s \<longleftrightarrow> view s k \<noteq> None"

lemma additive_has: "additive view s s' \<Longrightarrow> has view k s \<Longrightarrow> has view k s'"
  unfolding additive_def has_def by (metis not_None_eq)

lemma additiveD: "additive view s s' \<Longrightarrow> view s k = Some x \<Longrightarrow> view s' k = Some x"
  unfolding additive_def by blast

lemma makes_first:
  assumes "makes (has view k) m" and "\<And>x. keeps (additive view) (f x)"
  shows "makes (has view k) (bindp m f)"
  unfolding makes_def
proof (intro allI impI)
  fix s u s'
  assume "bindp m f s = (Inr u, s')"
  then obtain x t where m: "m s = (Inr x, t)" and f: "f x t = (Inr u, s')" by (auto simp: bindp_eq_ok)
  have "has view k t" using assms(1) m by (simp add: makes_def)
  then show "has view k s'" by (rule additive_has [OF keepsD [OF assms(2) f]])
qed

lemma makes_then: "(\<And>x. makes P (f x)) \<Longrightarrow> makes P (bindp m f)"
  unfolding makes_def bindp_eq_ok by blast

lemma makes_lift: "(\<And>x. r = Inr x \<Longrightarrow> makes P (f x)) \<Longrightarrow> makes P (bindp (liftp r) f)"
  unfolding makes_def bindp_eq_ok by (auto simp: liftp_def)

lemma makes_wrapp: "makes P m \<Longrightarrow> makes P (wrapp fmt args m)"
  unfolding makes_def wrapp_eq_ok by blast

lemma makes_eachp:
  assumes "x \<in> set xs" "makes (has view k) (f x)" "\<And>y. y \<in> set xs \<Longrightarrow> keeps (additive view) (f y)"
  shows "makes (has view k) (eachp f xs)"
  using assms
proof (induction xs)
  case (Cons y ys)
  then show ?case
  proof (cases "x = y")
    case True
    then show ?thesis using Cons.prems by (auto intro!: makes_first keeps_eachp)
  next
    case False
    then have "makes (has view k) (eachp f ys)" using Cons by auto
    then show ?thesis by (auto intro!: makes_then)
  qed
qed simp

lemma makes_foldp:
  assumes "x \<in> set xs" "\<And>b. makes (has view k) (f x b)" "\<And>y b. y \<in> set xs \<Longrightarrow> keeps (additive view) (f y b)"
  shows "makes (has view k) (foldp f xs b)"
  using assms
proof (induction xs arbitrary: b)
  case (Cons y ys)
  then show ?case
  proof (cases "x = y")
    case True
    then show ?thesis using Cons.prems by (auto intro!: makes_first keeps_foldp)
  next
    case False
    then have "makes (has view k) (foldp f ys b)" for b using Cons by auto
    then show ?thesis by (auto intro!: makes_then)
  qed
qed simp

lemma makes_ensure:
  assumes "env_laws view E" "owner_laws lab" "about lab t = {k}"
  shows "makes (has view k) (createIfNotExistsOrRemove (env_Client E) lab t needOwner False)"
proof -
  have k: "k = obj_key t" "meta_Namespace (obj_Meta t) = lab_Namespace (plab_Lab lab)"
    using assms(3) by (auto simp: about_def obj_key_def)
  show ?thesis
    unfolding makes_def has_def k(1)
    using createOrRemove_exists [OF env_lawsD(1) [OF assms(1)] assms(2) k(2)] by blast
qed

lemma srsim_keys_cases:
  assumes "k \<in> srsim_keys lab node v"
  obtains (pod) "k = in_lab lab ''Pod'' (GetPodName (lab_Name (plab_Lab lab)) node)"
  | (cf) ch slot c i where "srsim_Chassis v = Some ch" "(slot, c) \<in> set (entries (ch_Cards ch))" "IsCPM slot"
      "i \<in> {1, 2, 3}" "k = in_lab lab ''PersistentVolumeClaim'' (getCFPVCName node (lab_Name (plab_Lab lab)) slot i)"
proof (cases "k = in_lab lab ''Pod'' (GetPodName (lab_Name (plab_Lab lab)) node)")
  case False
  with assms obtain ch slot c where card: "srsim_Chassis v = Some ch" "(slot, c) \<in> set (entries (ch_Cards ch))"
    and k: "k \<in> (if IsCPM slot then in_lab lab ''PersistentVolumeClaim'' ` getCFPVCName node (lab_Name (plab_Lab lab)) slot ` {1, 2, 3} else {})"
    by (auto simp: srsim_keys_def Let_def split: option.splits)
  show thesis
    using k cf [OF card] by (cases "IsCPM slot"; simp only: if_True if_False empty_iff; blast)
qed (rule pod)

lemma SRSim_makes:
  assumes "env_laws view E" "owner_laws lab" "k \<in> srsim_keys lab node v"
  shows "makes (has view k) (SRSim_Ensure E v lab node)"
proof -
  let ?ln = "lab_Name (plab_Lab lab)"
  note add = pods_additive [OF assms(1,2)] and mk = makes_ensure [OF assms(1,2)]
  show ?thesis
    using assms(3)
  proof (cases rule: srsim_keys_cases)
    case pod
    have "makes (has view k) (wrapp fmt args (createIfNotExistsOrRemove (env_Client E) lab p True False))"
      if "srsim_pod (env_K8slan E) v ch lab node img cs vs = Inr p" for fmt args p ch img cs vs
      by (intro makes_wrapp mk) (simp add: about_built(6) [OF that] pod)
    then show ?thesis
      unfolding SRSim_Ensure_def by (auto intro!: makes_then makes_lift split: prod.split)
  next
    case (cf ch slot c i)
    have one: "makes (has view k) (srsim_cf E lab node slot i b)" for b
      unfolding srsim_cf_def Let_def
      by (cases b) (auto intro!: makes_lift makes_first makes_wrapp mk simp: about_built cf)
    have three: "makes (has view k) (foldp (srsim_cf E lab node slot) [1, 2, 3] b)" for b
      by (rule makes_foldp [where x = i]) (use cf(4) one add in auto)
    have crd: "makes (has view k) (srsim_card E v ch lab node (slot, c) b)" for b
    proof (cases b)
      case (Pair cs vs)
      show ?thesis
        unfolding Pair srsim_card_def Let_def prod.case
        by (intro makes_lift makes_first, simp only: cf(3) if_True three) (auto split: prod.split)
    qed
    have "makes (has view k) (foldp (srsim_card E v ch lab node) (entries (ch_Cards ch)) ([], []))"
      by (rule makes_foldp [where x = "(slot, c)"]) (use cf(2) crd add in auto)
    then show ?thesis
      unfolding SRSim_Ensure_def
      by (auto simp: cf(1) intro!: makes_lift makes_first keeps_seq additive_ensure [OF assms(1,2)] split: prod.split)
  qed
qed

lemma SRLinux_makes:
  assumes "env_laws view E" "owner_laws lab" "k \<in> node_keys E lab node (SysSRL v :: SRCard System)"
  shows "makes (has view k) (SRLinux_Ensure E v lab node)"
proof -
  let ?ln = "lab_Name (plab_Lab lab)"
  note mk = makes_ensure [OF assms(1,2)] and add = additive_ensure [OF assms(1,2)]
  consider (cm) "k = in_lab lab ''ConfigMap'' (?ln @ ''-'' @ node @ ''-topo'')"
    | (pvc) "k = in_lab lab ''PersistentVolumeClaim'' (?ln @ ''-'' @ node @ ''-etc'')"
    | (pod) "k = in_lab lab ''Pod'' (GetPodName ?ln node)"
    using assms(3) by (auto simp: node_keys_def Let_def)
  then show ?thesis
  proof cases
    case cm
    show ?thesis
      unfolding SRLinux_Ensure_def Let_def
      by (intro makes_lift makes_first makes_wrapp mk) (auto simp: about_built cm intro!: keeps_seq add)
  next
    case pvc
    show ?thesis
      unfolding SRLinux_Ensure_def Let_def
      by (rule makes_lift, rule makes_then, intro makes_lift makes_first makes_wrapp mk)
        (auto simp: about_built pvc intro!: keeps_seq add)
  next
    case pod
    show ?thesis
      unfolding SRLinux_Ensure_def Let_def
      by (rule makes_lift, rule makes_then, rule makes_lift, rule makes_then, intro makes_lift makes_wrapp mk)
        (simp add: about_built pod)
  qed
qed

lemma GeneralPod_makes:
  assumes "env_laws view E" "owner_laws lab"
    and "fst k = ''NetworkAttachmentDefinition'' \<Longrightarrow> lab_Namespace (plab_Lab lab) = env_MYNAMESPACE E"
    and "k \<in> pod_keys E lab node"
  shows "makes (has view k) (GeneralPod_Ensure E v lab node)"
proof -
  let ?ln = "lab_Name (plab_Lab lab)"
  note mk = makes_ensure [OF assms(1,2)] and add = additive_ensure [OF assms(1,2)] and nad = pods_additive(3) [OF assms(1,2)]
  consider (pod) "k = in_lab lab ''Pod'' (GetPodName ?ln node)"
    | (pvc) "k = in_lab lab ''PersistentVolumeClaim'' (?ln @ ''-'' @ node @ ''-root'')"
    | (nad) spoke x where "spoke \<in> set (concat (map snd (node_spokemap lab node)))"
        "con_Addrs (spoke_connector lab spoke) \<noteq> []" "pod_nad E lab spoke = Inr x" "k \<in> about lab x"
    using assms(4) unfolding pod_keys_def Let_def by blast
  then show ?thesis
  proof cases
    case pod
    show ?thesis
      unfolding GeneralPod_Ensure_def Let_def
      by (rule makes_lift, rule makes_lift, rule makes_then, rule makes_lift, rule makes_then, intro makes_lift makes_wrapp mk)
        (simp add: about_built pod)
  next
    case pvc
    show ?thesis
      unfolding GeneralPod_Ensure_def Let_def
      by (rule makes_lift, rule makes_lift, intro makes_first makes_wrapp mk)
        (auto simp: about_built pvc intro!: keeps_seq add nad)
  next
    case nad
    have "obj_Kind x = ''NetworkAttachmentDefinition''"
      using nad(3) env_lawsD(3) [OF assms(1)] by (auto simp: pod_nad_def Let_def result_simps nad_laws_def obj_key_def)
    then have "fst k = ''NetworkAttachmentDefinition''" using nad(4) by (auto simp: about_def obj_key_def)
    from assms(3) [OF this] have "meta_Namespace (obj_Meta x) = lab_Namespace (plab_Lab lab)"
      using nad(3) env_lawsD(3) [OF assms(1)] by (auto simp: pod_nad_def Let_def result_simps nad_laws_def)
    then have k: "about lab x = {k}" using nad(4) by (simp add: about_same_ns)
    have one: "makes (has view k) (ensure_pod_nad E lab node spoke)"
      unfolding ensure_pod_nad_def using nad(2,3) k by (auto intro!: makes_lift makes_wrapp mk)
    have loop: "makes (has view k) (eachp (ensure_pod_nad E lab node) (concat (map snd (node_spokemap lab node))))"
      by (rule makes_eachp [where x = spoke]) (use nad(1) one pods_additive(3) [OF assms(1,2)] in simp_all)
    show ?thesis
      unfolding GeneralPod_Ensure_def Let_def
      by (intro makes_lift, rule makes_then, intro makes_lift, rule makes_first) (auto intro!: loop keeps_seq add)
  qed
qed

lemma pods_make:
  assumes "env_laws view E" "owner_laws lab" "is_pod sys"
    and "\<And>v. sys = SysPod v \<Longrightarrow> fst k = ''NetworkAttachmentDefinition'' \<Longrightarrow> lab_Namespace (plab_Lab lab) = env_MYNAMESPACE E"
    and "k \<in> node_keys E lab node sys"
  shows "makes (has view k) (System_Ensure E f lab node sys)"
  using assms(3-5)
  by (cases sys) (auto simp: is_pod_def System_Ensure_def node_keys_def [of _ _ _ "SysPod _"] node_keys_def [of _ _ _ "SysSRSIM _"]
      intro: SRSim_makes [OF assms(1,2)] SRLinux_makes [OF assms(1,2)] GeneralPod_makes [OF assms(1,2)])

section \<open>The pod of a node, without effects\<close>

text \<open>
  A reference: the pod object as a function of the lab and the node, with the containers of an
  SR-SIM computed slot by slot. The \<open>Ensure\<close> methods interleave this with creating claims.
\<close>

definition slot_cfs :: "ParsedLab \<Rightarrow> string \<Rightarrow> string \<Rightarrow> string list" where
  "slot_cfs lab node slot = (if IsCPM slot then map (getCFPVCName node (lab_Name (plab_Lab lab)) slot) [1, 2, 3] else [])"

definition slot_container :: "string \<Rightarrow> SRCard SRChassis \<Rightarrow> ParsedLab \<Rightarrow> string \<Rightarrow> string \<times> SRCard \<Rightarrow> Container result" where
  "slot_container img chassis lab node = (\<lambda>(slot, c). bindr (srsim_envs chassis slot c) (\<lambda>envs.
     Inr ((new_container (ToLower (''slot-'' @ slot)) img)
       \<lparr>ctr_Security := Some (privileged (Some True)),
        ctr_Mounts := \<lparr>mnt_Name = ''lic'', mnt_Path = ''/nokia/license/license.txt'', mnt_SubPath = ''license''\<rparr> #
          map2 (\<lambda>name i. mount name (''/cf'' @ Itoa i)) (slot_cfs lab node slot) [1, 2, 3],
        ctr_Env := envs,
        ctr_Requests := Some (resource_requests (card_ReqCPU c) (card_ReqMemory c))\<rparr>)))"

definition node_pod :: "('s, 'b) Env \<Rightarrow> ParsedLab \<Rightarrow> string \<Rightarrow> SRCard System \<Rightarrow> KObj result" where
  "node_pod E lab node sys = (let ln = lab_Name (plab_Lab lab); k = env_K8slan E in case sys of
      SysSRL v \<Rightarrow> srl_pod k v lab node (ln @ ''-'' @ node @ ''-topo'') (ln @ ''-'' @ node @ ''-etc'')
    | SysPod v \<Rightarrow> bindr (deref (gpod_Image v)) (\<lambda>img. general_pod k (env_Shlex E) v lab node img (ln @ ''-'' @ node @ ''-root''))
    | SysSRSIM v \<Rightarrow> bindr (deref (srsim_Image v)) (\<lambda>img. bindr (deref (srsim_Chassis v)) (\<lambda>ch.
        bindr (mapr (slot_container img ch lab node) (entries (ch_Cards ch))) (\<lambda>cs.
          srsim_pod k v ch lab node img cs
            (concat (map (\<lambda>(slot, _). map (\<lambda>n. claim_volume n n) (slot_cfs lab node slot)) (entries (ch_Cards ch)))))))
    | _ \<Rightarrow> errf ''not a pod'' [])"

lemma srsim_cf_result:
  assumes "srsim_cf E lab node slot i (c, vs) s = (Inr r, s')"
  shows "r = (c\<lparr>ctr_Mounts := ctr_Mounts c @ [mount (getCFPVCName node (lab_Name (plab_Lab lab)) slot i) (''/cf'' @ Itoa i)]\<rparr>,
    vs @ [claim_volume (getCFPVCName node (lab_Name (plab_Lab lab)) slot i) (getCFPVCName node (lab_Name (plab_Lab lab)) slot i)])"
  using assms
  by (auto simp: srsim_cf_def Let_def bindp_eq_ok liftp_def retp_def dest!: built_keys(3)) (simp_all add: obj_key_def)

lemma srsim_card_result:
  assumes "srsim_card E v ch lab node (slot, c) (cs, vs) s = (Inr r, s')" and "srsim_Image v = Some img"
  shows "\<exists>ctr. slot_container img ch lab node (slot, c) = Inr ctr \<and>
    r = (cs @ [ctr], vs @ map (\<lambda>n. claim_volume n n) (slot_cfs lab node slot))"
proof (cases "IsCPM slot")
  case True
  show ?thesis
    using assms
    by (auto simp: srsim_card_def Let_def bindp_eq_ok liftp_def retp_def True slot_container_def slot_cfs_def
        dest!: srsim_cf_result)
next
  case False
  then show ?thesis
    using assms by (auto simp: srsim_card_def Let_def bindp_eq_ok liftp_def retp_def slot_container_def slot_cfs_def)
qed

lemma srsim_cards_result:
  assumes "foldp (srsim_card E v ch lab node) xs (cs, vs) s = (Inr (cs', vs'), s')" and "srsim_Image v = Some img"
  shows "\<exists>ds. mapr (slot_container img ch lab node) xs = Inr ds \<and> cs' = cs @ ds \<and>
    vs' = vs @ concat (map (\<lambda>(slot, _). map (\<lambda>n. claim_volume n n) (slot_cfs lab node slot)) xs)"
  using assms(1)
proof (induction xs arbitrary: cs vs s)
  case (Cons x xs)
  obtain slot c where x: "x = (slot, c)" by fastforce
  from Cons.prems obtain r s1 where one: "srsim_card E v ch lab node (slot, c) (cs, vs) s = (Inr r, s1)"
    and rest: "foldp (srsim_card E v ch lab node) xs r s1 = (Inr (cs', vs'), s')"
    by (auto simp: x bindp_eq_ok)
  from srsim_card_result [OF one assms(2)] obtain ctr where ctr: "slot_container img ch lab node (slot, c) = Inr ctr"
    "r = (cs @ [ctr], vs @ map (\<lambda>n. claim_volume n n) (slot_cfs lab node slot))" by blast
  from Cons.IH [OF rest [unfolded ctr(2)]] ctr(1) show ?case by (auto simp: x)
qed simp

section \<open>The pod that is created\<close>

text \<open>\<open>pod_sent E lab t s s'\<close>: the pod \<open>t\<close> is handed to the client to be created with the lab as owner, and that succeeds.\<close>

definition pod_sent :: "('s, 'b) Env \<Rightarrow> ParsedLab \<Rightarrow> KObj \<Rightarrow> 's \<Rightarrow> 's \<Rightarrow> bool" where
  "pod_sent E lab t s s' \<longleftrightarrow> createIfNotExistsOrRemove (env_Client E) lab t True False s = (Inr (), s')"

definition non_pods :: "key set" where
  "non_pods = {k. fst k \<noteq> ''Pod''}"

lemma non_pods_iff [simp]: "(kind, r) \<in> non_pods \<longleftrightarrow> kind \<noteq> ''Pod''"
  by (simp add: non_pods_def)

definition ends :: "('s \<Rightarrow> key \<Rightarrow> KObj option) \<Rightarrow> ('s \<Rightarrow> 's \<Rightarrow> bool) \<Rightarrow> ('s, 'a) proc \<Rightarrow> bool" where
  "ends view Q m \<longleftrightarrow> (\<forall>s u s'. m s = (Inr u, s') \<longrightarrow> (\<exists>s1. outside view non_pods s s1 \<and> Q s1 s'))"

lemma endsI: "(\<And>s u s'. m s = (Inr u, s') \<Longrightarrow> \<exists>s1. outside view non_pods s s1 \<and> Q s1 s') \<Longrightarrow> ends view Q m"
  by (simp add: ends_def)

lemma endsE:
  assumes "ends view Q m" "m s = (Inr u, s')"
  obtains s1 where "outside view non_pods s s1" "Q s1 s'"
  using assms unfolding ends_def by blast

lemma ends_bindp:
  assumes "keeps (outside view non_pods) m"
    and "\<And>s x t. m s = (Inr x, t) \<Longrightarrow> ends view Q (f x)"
  shows "ends view Q (bindp m f)"
proof (rule endsI)
  fix s u s'
  assume "bindp m f s = (Inr u, s')"
  then obtain x t where m: "m s = (Inr x, t)" and f: "f x t = (Inr u, s')" unfolding bindp_eq_ok by blast
  have 1: "outside view non_pods s t" by (rule keepsD [OF assms(1) m])
  obtain s1 where 2: "outside view non_pods t s1" "Q s1 s'" by (rule endsE [OF assms(2) [OF m] f])
  from transpD [OF outside_refl(2) 1 2(1)] 2(2) show "\<exists>s1. outside view non_pods s s1 \<and> Q s1 s'" by (intro exI conjI)
qed

lemma ends_lift: "(\<And>x. r = Inr x \<Longrightarrow> ends view Q (f x)) \<Longrightarrow> ends view Q (bindp (liftp r) f)"
  by (rule ends_bindp) (simp_all add: liftp_def)

lemma ends_pod:
  "ends view (pod_sent E lab t) (wrapp fmt args (createIfNotExistsOrRemove (env_Client E) lab t True False))"
  by (intro endsI exI conjI, rule outside_refl(3)) (simp add: wrapp_eq_ok pod_sent_def)

lemma pod_sent_stored:
  assumes "env_laws view E" "owner_laws lab" "obj_key t = in_lab lab kind name" "pod_sent E lab t s s'"
  shows "\<exists>x. view s' (in_lab lab kind name) = Some x \<and> owned_by lab x"
proof -
  have "meta_Namespace (obj_Meta t) = lab_Namespace (plab_Lab lab)" using assms(3) by (simp add: obj_key_def in_lab_def)
  from createOrRemove_exists [OF env_lawsD(1) [OF assms(1)] assms(2) this assms(4) [unfolded pod_sent_def]]
  show ?thesis using assms(3) by auto
qed

lemma node_pod_key: "node_pod E lab node sys = Inr t \<Longrightarrow> obj_key t = in_lab lab ''Pod'' (GetPodName (lab_Name (plab_Lab lab)) node)"
  by (cases sys) (auto simp: node_pod_def Let_def bindr_eq_Inr dest: built_keys)

lemma ends_mono:
  assumes "ends view Q m" and "\<And>s s'. Q s s' \<Longrightarrow> R s s'"
  shows "ends view R m"
proof (rule endsI)
  fix s u s'
  assume m: "m s = (Inr u, s')"
  obtain s1 where "outside view non_pods s s1" "Q s1 s'" by (rule endsE [OF assms(1) m])
  with assms(2) show "\<exists>s1. outside view non_pods s s1 \<and> R s1 s'" by blast
qed

lemma keeps_other:
  assumes "env_laws view E" "owner_laws lab" "about lab t \<subseteq> non_pods"
  shows "keeps (outside view non_pods) (createIfNotExistsOrRemove (env_Client E) lab t needOwner remove)"
  by (rule keeps_ensure [OF assms])

lemma node_pod_ends:
  assumes "env_laws view E" "owner_laws lab" "is_pod sys"
  shows "ends view (\<lambda>s s'. \<exists>t. node_pod E lab node sys = Inr t \<and> pod_sent E lab t s s') (System_Ensure E f lab node sys)"
proof -
  let ?Q = "\<lambda>s s'. \<exists>t. node_pod E lab node sys = Inr t \<and> pod_sent E lab t s s'"
  note other = keeps_other [OF assms(1,2)]
  have last: "ends view ?Q (wrapp fmt args (createIfNotExistsOrRemove (env_Client E) lab t True False))"
    if "node_pod E lab node sys = Inr t" for fmt args t
    by (rule ends_mono [OF ends_pod]) (use that in blast)
  show ?thesis
  proof (cases sys)
    case (SysSRL v)
    have "ends view ?Q (SRLinux_Ensure E v lab node)"
      unfolding SRLinux_Ensure_def Let_def
      by (intro ends_lift ends_bindp keeps_wrapp other last)
        (auto simp: about_built in_lab_def SysSRL node_pod_def Let_def dest!: built_keys(1,4) simp: obj_key_def)
    then show ?thesis by (simp add: System_Ensure_def SysSRL)
  next
    case (SysPod v)
    have nad: "about lab x \<subseteq> non_pods" if "pod_nad E lab spoke = Inr x" for x spoke
      using that env_lawsD(3) [OF assms(1)] by (auto simp: about_def obj_key_def pod_nad_def Let_def bindr_eq_Inr nad_laws_def)
    have loop: "keeps (outside view non_pods) (ensure_pod_nad E lab node spoke)" for spoke
      unfolding ensure_pod_nad_def by (simp split: if_split, intro conjI impI keeps_seq other nad)
    have "ends view ?Q (GeneralPod_Ensure E v lab node)"
      unfolding GeneralPod_Ensure_def Let_def
      by (intro ends_lift ends_bindp keeps_wrapp keeps_eachp outside_refl loop other last)
        (auto simp: about_built in_lab_def SysPod node_pod_def Let_def dest!: built_keys(2) simp: obj_key_def)
    then show ?thesis by (simp add: System_Ensure_def SysPod)
  next
    case (SysSRSIM v)
    have cf: "keeps (outside view non_pods) (srsim_cf E lab node slot i b)" for slot i b
      unfolding srsim_cf_def Let_def by (cases b) (simp, intro keeps_seq other, simp add: about_built in_lab_def)
    have crd: "keeps (outside view non_pods) (srsim_card E v ch lab node x b)" for ch x b
    proof -
      have "keeps (outside view non_pods) (if c then foldp (srsim_cf E lab node slot) [1, 2, 3] b' else retp b')" for c slot b'
        by (simp split: if_split, intro conjI impI keeps_seq cf; simp)
      then show ?thesis
        by (cases x; cases b) (simp add: srsim_card_def Let_def, intro keeps_seq, auto intro!: keeps_seq split: prod.split)
    qed
    have pod: "node_pod E lab node (SysSRSIM v) = Inr p"
      if "srsim_Image v = Some img" "srsim_Chassis v = Some ch"
        "foldp (srsim_card E v ch lab node) (entries (ch_Cards ch)) ([], []) s = (Inr (cs, vs), t)"
        "srsim_pod (env_K8slan E) v ch lab node img cs vs = Inr p" for img ch s cs vs t p
      using srsim_cards_result [OF that(3,1)] that(1,2,4) by (auto simp: node_pod_def Let_def)
    have "ends view ?Q (SRSim_Ensure E v lab node)"
      unfolding SRSim_Ensure_def
    proof (intro ends_lift ends_bindp keeps_foldp outside_refl crd)
      fix img ch s b t
      assume *: "deref (srsim_Image v) = Inr img" "deref (srsim_Chassis v) = Inr ch"
        "foldp (srsim_card E v ch lab node) (entries (ch_Cards ch)) ([], []) s = (Inr b, t)"
      obtain cs vs where b: "b = (cs, vs)" by fastforce
      show "ends view ?Q (case b of (containers, vols) \<Rightarrow>
          bindp (liftp (srsim_pod (env_K8slan E) v ch lab node img containers vols)) (\<lambda>pod.
          wrapp ''failed to create SRL pod %v in lab %v, %w'' [node, lab_Name (plab_Lab lab)]
            (createIfNotExistsOrRemove (env_Client E) lab pod True False)))"
        unfolding b prod.case
        by (intro ends_lift last) (use * pod b SysSRSIM in \<open>simp add: deref_eq_Inr\<close>)
    qed
    then show ?thesis by (simp add: System_Ensure_def SysSRSIM)
  qed (use assms(3) in \<open>simp_all add: is_pod_def\<close>)
qed

section \<open>What a pod needs to run\<close>

text \<open>
  Stated of a pod object without the functions that build it: \<open>pod_complete v lab sys p\<close> says that every
  container runs the image of the node, that each volume mounted is a volume of the pod, that the claims and
  config maps behind the volumes exist in the lab's namespace, and that a license secret is mounted in all containers.
  For an SR-SIM \<open>card_containers\<close> says that there is one container per card, in the order of the cards, that
  tells the card's slot and model, and that the flash cards cf1 to cf3 are mounted in those of the CPM cards and only there.
\<close>

definition system_image :: "SRCard System \<Rightarrow> string option" where
  "system_image sys = (case sys of SysSRL v \<Rightarrow> srl_Image v | SysPod v \<Rightarrow> gpod_Image v | SysSRSIM v \<Rightarrow> srsim_Image v | _ \<Rightarrow> None)"

definition system_license :: "SRCard System \<Rightarrow> string option" where
  "system_license sys = (case sys of SysSRL v \<Rightarrow> srl_LicSecret v | SysSRSIM v \<Rightarrow> srsim_LicSecret v | _ \<Rightarrow> None)"

definition volume_keys :: "ParsedLab \<Rightarrow> Volume \<Rightarrow> key set" where
  "volume_keys lab w = (case vol_Source w of
      ClaimVolume claim _ \<Rightarrow> {in_lab lab ''PersistentVolumeClaim'' claim}
    | ConfigMapVolume cm \<Rightarrow> {in_lab lab ''ConfigMap'' cm}
    | _ \<Rightarrow> {})"

definition pod_complete :: "(key \<Rightarrow> KObj option) \<Rightarrow> ParsedLab \<Rightarrow> SRCard System \<Rightarrow> PodSpec \<Rightarrow> bool" where
  "pod_complete v lab sys p \<longleftrightarrow>
     (\<forall>c\<in>set (pod_InitContainers p @ pod_Containers p). Some (ctr_Image c) = system_image sys \<and>
        mnt_Name ` set (ctr_Mounts c) \<subseteq> vol_Name ` set (pod_Volumes p)) \<and>
     (\<forall>w\<in>set (pod_Volumes p). \<forall>k\<in>volume_keys lab w. v k \<noteq> None) \<and>
     (\<forall>lic. system_license sys = Some lic \<longrightarrow> (\<exists>w\<in>set (pod_Volumes p). vol_Source w = SecretVolume lic \<and>
        (\<forall>c\<in>set (pod_Containers p). vol_Name w \<in> mnt_Name ` set (ctr_Mounts c))))"

definition cf_paths :: "string set" where
  "cf_paths = {''/cf1'', ''/cf2'', ''/cf3''}"

definition card_container :: "string \<times> SRCard \<Rightarrow> Container \<Rightarrow> bool" where
  "card_container = (\<lambda>(slot, card) c. ctr_Name c = ToLower (''slot-'' @ slot) \<and>
     (''NOKIA_SROS_SLOT'', slot) \<in> set (ctr_Env c) \<and>
     (\<exists>model. card_Model card = Some model \<and> (''NOKIA_SROS_CARD'', model) \<in> set (ctr_Env c)) \<and>
     mnt_Path ` set (ctr_Mounts c) \<inter> cf_paths = (if IsCPM slot then cf_paths else {}))"

definition node_containers :: "SRCard System \<Rightarrow> Container list \<Rightarrow> bool" where
  "node_containers sys cs \<longleftrightarrow> (case sys of
      SysSRSIM v \<Rightarrow> \<exists>ch. srsim_Chassis v = Some ch \<and> list_all2 card_container (entries (ch_Cards ch)) cs
    | _ \<Rightarrow> map ctr_Name cs = [''main''])"

definition lab_labels :: "ParsedLab \<Rightarrow> string \<Rightarrow> KObj \<Rightarrow> bool" where
  "lab_labels lab node t \<longleftrightarrow>
     map_of (meta_Labels (obj_Meta t)) K8SLABELAPPKey = Some K8SLABELAPPVAL \<and>
     map_of (meta_Labels (obj_Meta t)) K8SLABELSETUPKEY = Some (lab_Name (plab_Lab lab)) \<and>
     map_of (meta_Labels (obj_Meta t)) K8SLABELNodeKEY = Some node"

lemma finish_pod_labels: "lab_labels lab node (finish_pod (NewBasePod (lab_Name (plab_Lab lab)) node ns img t) spec netStr)"
  by (auto simp: lab_labels_def finish_pod_def NewBasePod_def GetObjMeta_def Let_def)

lemma node_pod_labels: "node_pod E lab node sys = Inr t \<Longrightarrow> lab_labels lab node t"
  by (cases sys) (auto simp: node_pod_def Let_def srl_pod_def general_pod_def srsim_pod_def result_simps finish_pod_labels
      split: prod.splits)

lemma finish_pod_body [simp]: "obj_Body (finish_pod base spec netStr) = PodBody spec"
  by (simp add: finish_pod_def)

lemma new_container_sel [simp]: "ctr_Name (new_container n img) = n" "ctr_Image (new_container n img) = img"
  by (simp_all add: new_container_def)

lemma Itoa_cf: "Itoa 1 = ''1''" "Itoa 2 = ''2''" "Itoa 3 = ''3''"
  by code_simp+

lemma slot_container_facts:
  assumes "slot_container img ch lab node x = Inr c"
  shows "ctr_Image c = img" "card_container x c" "mnt_Name ` set (ctr_Mounts c) = insert ''lic'' (set (slot_cfs lab node (fst x)))"
  using assms
  by (cases "IsCPM (fst x)"; auto simp: slot_container_def card_container_def srsim_envs_def cf_paths_def slot_cfs_def
      mount_def Itoa_cf result_simps Let_def split: prod.splits)+

lemma card_container_limits [simp]: "card_container x (c\<lparr>ctr_Limits := l\<rparr>) = card_container x c"
  by (simp add: card_container_def split: prod.split)

lemma slot_cfs_keys:
  assumes "srsim_Chassis v = Some ch" "(slot, c) \<in> set (entries (ch_Cards ch))" "n \<in> set (slot_cfs lab node slot)"
  shows "in_lab lab ''PersistentVolumeClaim'' n \<in> srsim_keys lab node v"
  using assms by (fastforce simp: srsim_keys_def Let_def slot_cfs_def split: if_splits)

lemma node_pod_complete:
  assumes "node_pod E lab node sys = Inr t" and "\<And>k. k \<in> node_keys E lab node sys \<Longrightarrow> fst k \<noteq> ''NetworkAttachmentDefinition'' \<Longrightarrow> v k \<noteq> None"
  shows "\<exists>p. obj_Body t = PodBody p \<and> pod_complete v lab sys p \<and> node_containers sys (pod_Containers p)"
proof (cases sys)
  case (SysSRL srl)
  then show ?thesis
    using assms
    by (auto simp: node_pod_def Let_def srl_pod_def result_simps pod_complete_def node_containers_def system_image_def
        system_license_def node_keys_def in_lab_def srl_init_container_def srl_container_def srl_volumes_def mount_def
        claim_volume_def volume_keys_def split: prod.splits option.splits)
next
  case (SysPod gpod)
  then show ?thesis
    using assms
    by (auto simp: node_pod_def Let_def general_pod_def result_simps pod_complete_def node_containers_def system_image_def
        system_license_def node_keys_def pod_keys_def in_lab_def pod_container_def mount_def claim_volume_def volume_keys_def
        split: prod.splits)
next
  case (SysSRSIM sim)
  obtain img ch cs where img: "srsim_Image sim = Some img" and ch: "srsim_Chassis sim = Some ch"
    and cs: "mapr (slot_container img ch lab node) (entries (ch_Cards ch)) = Inr cs"
    and pod: "srsim_pod (env_K8slan E) sim ch lab node img cs
      (concat (map (\<lambda>(slot, _). map (\<lambda>n. claim_volume n n) (slot_cfs lab node slot)) (entries (ch_Cards ch)))) = Inr t"
    using assms(1) SysSRSIM by (auto simp: node_pod_def Let_def result_simps)
  let ?vs = "concat (map (\<lambda>(slot, _). map (\<lambda>n. claim_volume n n) (slot_cfs lab node slot)) (entries (ch_Cards ch)))"
  obtain lic first rest limits netStr where lic: "srsim_LicSecret sim = Some lic" and first: "cs = first # rest"
    and t: "obj_Body t = PodBody \<lparr>pod_InitContainers = [], pod_Containers = first\<lparr>ctr_Limits := Some limits\<rparr> # rest,
      pod_Volumes = ?vs @ [\<lparr>vol_Name = ''lic'', vol_Source = SecretVolume lic\<rparr>]\<rparr>"
    using pod by (cases cs) (auto simp: srsim_pod_def result_simps at_def split: prod.splits if_splits)
  have slots: "list_all2 (\<lambda>x c. slot_container img ch lab node x = Inr c) (entries (ch_Cards ch)) (first # rest)"
    using cs first by (simp add: mapr_eq_ok)
  have cards: "list_all2 card_container (entries (ch_Cards ch)) (first\<lparr>ctr_Limits := Some limits\<rparr> # rest)"
    using list_all2_mono [OF slots slot_container_facts(2)] by (auto simp: list_all2_Cons2)
  have volumes: "vol_Name ` set ?vs = (\<Union>x\<in>set (entries (ch_Cards ch)). set (slot_cfs lab node (fst x)))"
    by (simp add: image_UN image_image claim_volume_def split_beta)
  have mounts: "ctr_Image c = img \<and> ''lic'' \<in> mnt_Name ` set (ctr_Mounts c) \<and>
      mnt_Name ` set (ctr_Mounts c) \<subseteq> insert ''lic'' (vol_Name ` set ?vs)"
    if "c \<in> set (first # rest)" for c
  proof -
    from slots that obtain x where x: "x \<in> set (entries (ch_Cards ch))" "slot_container img ch lab node x = Inr c"
      unfolding list_all2_conv_all_nth in_set_conv_nth by metis
    have "set (slot_cfs lab node (fst x)) \<subseteq> vol_Name ` set ?vs" unfolding volumes using x(1) by blast
    then show ?thesis unfolding slot_container_facts(3) [OF x(2)] using slot_container_facts(1) [OF x(2)] by blast
  qed
  have keys: "v (in_lab lab ''PersistentVolumeClaim'' n) \<noteq> None"
    if "(slot, c) \<in> set (entries (ch_Cards ch))" "n \<in> set (slot_cfs lab node slot)" for slot c n
    using assms(2) slot_cfs_keys [OF ch that] SysSRSIM by (simp add: node_keys_def in_lab_def)
  let ?p = "\<lparr>pod_InitContainers = [], pod_Containers = first\<lparr>ctr_Limits := Some limits\<rparr> # rest,
      pod_Volumes = ?vs @ [\<lparr>vol_Name = ''lic'', vol_Source = SecretVolume lic\<rparr>]\<rparr>"
  have image: "system_image sys = Some img" "system_license sys = Some lic"
    by (simp_all add: SysSRSIM system_image_def system_license_def img lic)
  have claims: "\<forall>w\<in>set ?vs. \<forall>k\<in>volume_keys lab w. v k \<noteq> None"
    using keys by (auto simp: volume_keys_def claim_volume_def)
  have "pod_complete v lab sys ?p"
    unfolding pod_complete_def image
  proof (intro conjI)
    show "\<forall>c\<in>set (pod_InitContainers ?p @ pod_Containers ?p). Some (ctr_Image c) = Some img \<and>
        mnt_Name ` set (ctr_Mounts c) \<subseteq> vol_Name ` set (pod_Volumes ?p)"
      using mounts by simp
    show "\<forall>w\<in>set (pod_Volumes ?p). \<forall>k\<in>volume_keys lab w. v k \<noteq> None"
      using claims by (auto simp: volume_keys_def)
    show "\<forall>l. Some lic = Some l \<longrightarrow> (\<exists>w\<in>set (pod_Volumes ?p). vol_Source w = SecretVolume l \<and>
        (\<forall>c\<in>set (pod_Containers ?p). vol_Name w \<in> mnt_Name ` set (ctr_Mounts c)))"
      using mounts by simp
  qed
  moreover have "node_containers sys (pod_Containers ?p)" using cards by (simp add: SysSRSIM node_containers_def ch)
  ultimately show ?thesis using t by blast
qed (use assms(1) in \<open>simp_all add: node_pod_def\<close>)

end
