(* ===== verification/NodeVMs.thy ===== *)
theory NodeVMs
  imports NodePods
begin

text \<open>
  The VMs of an SR OS node: their networks and interfaces are paired by name, and the spokes of
  the node are shared out over the VMs of its cards by the port of their connectors. And, for
  every node type: a call of \<open>Ensure\<close> that succeeds leaves all objects of the node there.
\<close>

section \<open>Networks and interfaces\<close>

definition vmi_spec :: "KObj \<Rightarrow> VMISpec option" where
  "vmi_spec x = (case obj_Body x of VMIBody spec _ \<Rightarrow> Some spec | _ \<Rightarrow> None)"

definition paired :: "VMISpec \<Rightarrow> bool" where
  "paired spec \<longleftrightarrow> map net_Name (vmi_Networks spec) = map ifc_Name (vmi_Interfaces spec)"

text \<open>The links of a VM: its interfaces on a macvtap device.\<close>

definition vm_links :: "KObj \<Rightarrow> string list" where
  "vm_links x = (case vmi_spec x of None \<Rightarrow> [] | Some spec \<Rightarrow>
     map ifc_Name (filter (\<lambda>i. ifc_Binding i = PluginBinding ''macvtap'') (vmi_Interfaces spec)))"

lemma nic_names [simp]:
  "net_Name (fst (pod_nic ports mac)) = ifc_Name (snd (pod_nic ports mac))"
  "net_Name (fst (bridge_nic n d)) = ifc_Name (snd (bridge_nic n d))"
  "net_Name (fst (spoke_nic k lab spoke)) = ifc_Name (snd (spoke_nic k lab spoke))"
  "net_Name (fst (gvm_spoke_nic k lab spoke)) = ifc_Name (snd (gvm_spoke_nic k lab spoke))"
  "ifc_Name (snd (spoke_nic k lab spoke)) = spoke" "ifc_Name (snd (gvm_spoke_nic k lab spoke)) = spoke"
  by (simp_all add: pod_nic_def bridge_nic_def spoke_nic_def gvm_spoke_nic_def multus_net_def interface_def split: option.split)

lemma nic_bindings [simp]:
  "ifc_Binding (snd (pod_nic ports mac)) = Masquerade"
  "ifc_Binding (snd (bridge_nic n d)) = BridgeBinding"
  "ifc_Binding (snd (spoke_nic k lab spoke)) = PluginBinding ''macvtap''"
  "ifc_Binding (snd (gvm_spoke_nic k lab spoke)) = PluginBinding ''macvtap''"
  by (simp_all add: pod_nic_def bridge_nic_def spoke_nic_def gvm_spoke_nic_def interface_def split: option.split)

lemma fabric_nics_facts:
  "x \<in> set (fabric_nics vmt ln node slot sysinfo) \<Longrightarrow> net_Name (fst x) = ifc_Name (snd x) \<and> ifc_Binding (snd x) = BridgeBinding"
  by (auto simp: fabric_nics_def split: if_splits)

definition spoke_port :: "ParsedLab \<Rightarrow> string \<Rightarrow> string option" where
  "spoke_port lab spoke = con_PortId (spoke_connector lab spoke)"

lemma port_nics_eq:
  assumes "port_nics k lab node slot = Inr nics"
  shows "nics = map (spoke_nic k lab) (filter (\<lambda>s. spoke_port lab s = Some slot) (node_spokes lab node))"
proof -
  have "concat xs = map (spoke_nic k lab) (filter (\<lambda>s. spoke_port lab s = Some slot) ss)"
    if "list_all2 (\<lambda>spoke y. bindr (deref (con_PortId (spoke_connector lab spoke)))
       (\<lambda>port. Inr (if port \<noteq> slot then [] else [spoke_nic k lab spoke])) = Inr y) ss xs" for ss xs
    using that by (induction ss xs rule: list_all2_induct) (auto simp: spoke_port_def bindr_eq_Inr deref_eq_Inr)
  then show ?thesis using assms by (auto simp: port_nics_def result_simps)
qed

lemma srvm_vm:
  assumes "SRVM_getVMI E v ch lab node (slot, c) lic user passwd = Inr vmi"
  obtains spec where "vmi_spec vmi = Some spec" "paired spec"
    "vm_links vmi = filter (\<lambda>s. spoke_port lab s = Some slot) (node_spokes lab node)"
proof -
  have "\<exists>spec lnics. port_nics (env_K8slan E) lab node slot = Inr lnics \<and> vmi_spec vmi = Some spec \<and>
    (\<exists>ports sysinfo. let nics = pod_nic ports [] #
        fabric_nics (fst (ParseSRVMName_New node)) (lab_Name (plab_Lab lab)) node slot sysinfo @ lnics
      in vmi_Networks spec = map fst nics \<and> vmi_Interfaces spec = map snd nics)"
    using assms by (clarsimp simp: SRVM_getVMI_def Let_def result_simps vmi_spec_def) blast
  then obtain spec fnics lnics ports where spec: "vmi_spec vmi = Some spec"
    and nets: "vmi_Networks spec = map fst (pod_nic ports [] # fnics @ lnics)"
    and ifcs: "vmi_Interfaces spec = map snd (pod_nic ports [] # fnics @ lnics)"
    and f: "\<exists>sysinfo. fnics = fabric_nics (fst (ParseSRVMName_New node)) (lab_Name (plab_Lab lab)) node slot sysinfo"
    and l: "port_nics (env_K8slan E) lab node slot = Inr lnics"
    unfolding Let_def by blast
  have fb: "net_Name (fst x) = ifc_Name (snd x) \<and> ifc_Binding (snd x) = BridgeBinding" if "x \<in> set fnics" for x
    using f that fabric_nics_facts by blast
  have "paired spec"
    unfolding paired_def nets ifcs using fb port_nics_eq [OF l] by (auto simp: comp_def)
  moreover have "filter (\<lambda>i. ifc_Binding i = PluginBinding ''macvtap'') (map snd fnics) = []"
    using fb by (auto simp: filter_empty_conv)
  then have "vm_links vmi = filter (\<lambda>s. spoke_port lab s = Some slot) (node_spokes lab node)"
    unfolding vm_links_def spec option.case ifcs using port_nics_eq [OF l] by (simp add: comp_def filter_map)
  ultimately show thesis using that spec by blast
qed

section \<open>Sharing out the spokes\<close>

lemma filter_split:
  assumes "\<And>x. x \<in> set xs \<Longrightarrow> \<not> (P x \<and> Q x)"
  shows "mset (filter P xs) + mset (filter Q xs) = mset (filter (\<lambda>x. P x \<or> Q x) xs)"
  using assms by (induction xs) auto

lemma shared_out:
  assumes "distinct slots"
  shows "mset (concat (map (\<lambda>slot. filter (\<lambda>s. port s = Some slot) xs) slots)) = mset (filter (\<lambda>s. port s \<in> Some ` set slots) xs)"
  using assms
proof (induction slots)
  case (Cons slot slots)
  have "mset (filter (\<lambda>s. port s = Some slot) xs) + mset (filter (\<lambda>s. port s \<in> Some ` set slots) xs)
    = mset (filter (\<lambda>s. port s = Some slot \<or> port s \<in> Some ` set slots) xs)"
    by (rule filter_split) (use Cons.prems in auto)
  then show ?case using Cons by simp
qed simp

lemma vms_share_spokes:
  assumes "wfmap cards"
    and "\<forall>spoke\<in>set (node_spokes lab node). \<exists>slot\<in>fst ` set cards. spoke_port lab spoke = Some slot"
    and "list_all2 (\<lambda>x vmi. \<exists>lic user passwd. SRVM_getVMI E v ch lab node x lic user passwd = Inr vmi) cards vmis"
  shows "mset (concat (map vm_links vmis)) = mset (node_spokes lab node)"
proof -
  have "map vm_links vmis = map (\<lambda>slot. filter (\<lambda>s. spoke_port lab s = Some slot) (node_spokes lab node)) (map fst cards)"
    using assms(3)
  proof (induction cards vmis rule: list_all2_induct)
    case (Cons x xs vmi vmis)
    obtain slot c where x: "x = (slot, c)" by fastforce
    from Cons(1) obtain lic user passwd where "SRVM_getVMI E v ch lab node (slot, c) lic user passwd = Inr vmi"
      by (auto simp: x)
    from srvm_vm [OF this] Cons(3) show ?case by (auto simp: x)
  qed simp
  moreover have "filter (\<lambda>s. spoke_port lab s \<in> Some ` set (map fst cards)) (node_spokes lab node) = node_spokes lab node"
  proof (intro filter_True ballI)
    fix s assume "s \<in> set (node_spokes lab node)"
    with assms(2) obtain slot where "slot \<in> fst ` set cards" "spoke_port lab s = Some slot" by blast
    then show "spoke_port lab s \<in> Some ` set (map fst cards)" by simp
  qed
  ultimately show ?thesis
    using shared_out [of "map fst cards" "spoke_port lab" "node_spokes lab node"] assms(1) by (simp add: wfmap_def)
qed

lemma vms_paired:
  assumes "list_all2 (\<lambda>x vmi. \<exists>lic user passwd. SRVM_getVMI E v ch lab node x lic user passwd = Inr vmi) cards vmis"
  shows "\<forall>vmi\<in>set vmis. \<exists>spec. vmi_spec vmi = Some spec \<and> paired spec"
  using assms
proof (induction cards vmis rule: list_all2_induct)
  case (Cons x xs vmi vmis)
  obtain slot c where x: "x = (slot, c)" by fastforce
  from Cons(1) obtain lic user passwd where "SRVM_getVMI E v ch lab node (slot, c) lic user passwd = Inr vmi" by (auto simp: x)
  from srvm_vm [OF this] Cons(3) show ?case by auto
qed simp

section \<open>What the Ensure of a VM leaves behind\<close>

text \<open>A failed VM is deleted and created again, so objects may change, but a call that succeeds loses none.\<close>

definition retains :: "('s \<Rightarrow> key \<Rightarrow> KObj option) \<Rightarrow> key \<Rightarrow> ('s, 'a) proc \<Rightarrow> bool" where
  "retains view k m \<longleftrightarrow> (\<forall>s u s'. m s = (Inr u, s') \<longrightarrow> has view k s \<longrightarrow> has view k s')"

lemma retainsD: "retains view k m \<Longrightarrow> m s = (Inr u, s') \<Longrightarrow> has view k s \<Longrightarrow> has view k s'"
  unfolding retains_def by simp

lemma retains_additive: "keeps (additive view) m \<Longrightarrow> retains view k m"
  unfolding retains_def by (intro allI impI) (rule additive_has, rule keepsD)

lemma retains_retp [simp, intro]: "retains view k (retp x)"
  by (simp add: retains_def)

lemma retains_bindp: "retains view k m \<Longrightarrow> (\<And>x. retains view k (f x)) \<Longrightarrow> retains view k (bindp m f)"
  unfolding retains_def bindp_eq_ok by blast

lemma retains_lift: "(\<And>x. r = Inr x \<Longrightarrow> retains view k (f x)) \<Longrightarrow> retains view k (bindp (liftp r) f)"
  unfolding retains_def bindp_eq_ok by (auto simp: liftp_def)

lemma retains_foldp:
  assumes "\<And>x b. x \<in> set xs \<Longrightarrow> retains view k (f x b)"
  shows "retains view k (foldp f xs b)"
  using assms by (induction xs arbitrary: b) (auto intro: retains_bindp retains_additive)

lemma MakeErr_ok: "MakeErr m s = (Inr u, s') \<longleftrightarrow> m s = (Inr u, s')"
  by (auto simp: MakeErr_def wrapp_eq_ok)

lemma retains_MakeErr: "retains view k m \<Longrightarrow> retains view k (MakeErr m)"
  by (simp add: retains_def MakeErr_ok)

lemma makes_MakeErr: "makes P m \<Longrightarrow> makes P (MakeErr m)"
  by (simp add: makes_def MakeErr_ok)

lemma makes_retain:
  assumes "makes (has view k) m" and "\<And>x. retains view k (f x)"
  shows "makes (has view k) (bindp m f)"
  unfolding makes_def bindp_eq_ok
proof (intro allI impI, elim exE conjE)
  fix s u s' x t
  assume m: "m s = (Inr x, t)" and f: "f x t = (Inr u, s')"
  show "has view k s'" by (rule retainsD [OF assms(2) f]) (use assms(1) m in \<open>simp add: makes_def\<close>)
qed

lemma makes_fold_retain:
  assumes "x \<in> set xs" "\<And>b. makes (has view k) (f x b)" "\<And>y b. y \<in> set xs \<Longrightarrow> retains view k (f y b)"
  shows "makes (has view k) (foldp f xs b)"
  using assms
proof (induction xs arbitrary: b)
  case (Cons y ys)
  then show ?case
  proof (cases "x = y")
    case True
    then show ?thesis using Cons.prems by (auto intro!: makes_retain retains_foldp)
  next
    case False
    then have "makes (has view k) (foldp f ys b)" for b using Cons by auto
    then show ?thesis by (auto intro!: makes_then)
  qed
qed simp

text \<open>Checking an object that is there, and replacing it if it has failed.\<close>

lemma recreate_ok:
  assumes "client_laws view clnt" and "recreateIfFailed clnt chk x s = (Inr u, s')" and "has view (obj_key x) s"
  shows "has view (obj_key x) s'" and "has view k s \<Longrightarrow> has view k s'"
proof -
  have "has view (obj_key x) s' \<and> (\<forall>j. j \<noteq> obj_key x \<longrightarrow> view s' j = view s j)"
  proof (cases "chk x")
    case (Inr c)
    then show ?thesis using assms(2,3) by (simp add: recreateIfFailed_def)
  next
    case (Inl e)
    with assms(2) obtain y t z where del: "clnt_Delete clnt x s = (Inr y, t)" and cre: "clnt_Create clnt x t = (Inr z, s')"
      by (cases e) (auto simp: recreateIfFailed_def WaitForObjGone_def bindp_eq_ok MakeErr_ok liftp_def retp_def)
    have "view s' (obj_key x) = Some z" using client_Create(2) [OF assms(1) cre] by simp
    moreover have "view s' j = view s j" if "j \<noteq> obj_key x" for j
      using client_Create(1) [OF assms(1) cre] client_Delete [OF assms(1) del] that unfolding unchanged_except_def by metis
    ultimately show ?thesis by (simp add: has_def)
  qed
  then show "has view (obj_key x) s'" "has view k s \<Longrightarrow> has view k s'"
    unfolding has_def by metis+
qed

lemma createOrFailed_ok:
  assumes laws: "client_laws view clnt" "owner_laws lab"
    and ns: "meta_Namespace (obj_Meta t) = lab_Namespace (plab_Lab lab)"
    and run: "createIfNotExistsOrFailedOrRemove clnt lab t chk needOwner False s = (Inr u, s')"
  shows "has view (obj_key t) s'" and "has view k s \<Longrightarrow> has view k s'"
proof -
  obtain t' s0 where own: "set_owner lab needOwner t s = (Inr t', s0)"
    using run by (auto simp: createIfNotExistsOrFailedOrRemove_def bindp_eq_ok)
  note so = set_owner_eq [OF own laws(2)]
  have t': "obj_key t' = obj_key t" using so(2) [OF refl] by simp
  obtain g s1 where get: "clnt_Get clnt (lab_Namespace (plab_Lab lab)) (meta_Name (obj_Meta t')) t' s = (g, s1)" by fastforce
  note cg = client_Get [OF laws(1) get]
  have key: "(obj_Kind t', lab_Namespace (plab_Lab lab), meta_Name (obj_Meta t')) = obj_key t"
    using t' ns by (simp add: obj_key_def)
  have same: "has view j s1 = has view j s" for j using cg(1) by (simp add: has_def)
  have step: "(case g of
       Inl e \<Rightarrow> if IsNotFound e then bindp (MakeErr (clnt_Create clnt t')) (recreateIfFailed clnt chk) s1 else MakeErr (liftp (Inl e)) s1
     | Inr found \<Rightarrow> bindp (if needOwner then MakeErr (liftp (IsOwnedbyLab found lab)) else retp ())
         (\<lambda>_. recreateIfFailed clnt chk found) s1) = (Inr u, s')"
    using run own so(1) get
    by (cases g) (auto simp: createIfNotExistsOrFailedOrRemove_def bindp_def split: if_splits)
  have "has view (obj_key t) s' \<and> (has view k s \<longrightarrow> has view k s')"
  proof (cases g)
    case (Inl e)
    then obtain x s2 where cre: "clnt_Create clnt t' s1 = (Inr x, s2)" and rec: "recreateIfFailed clnt chk x s2 = (Inr u, s')"
      using step by (auto simp: bindp_eq_ok MakeErr_ok split: if_splits)
    have x: "view s2 (obj_key t) = Some x" "obj_key x = obj_key t"
      using client_Create(2) [OF laws(1) cre] t' by auto
    have "has view k s2" if "has view k s"
      using client_Create(1) [OF laws(1) cre] x(1) that same [of k] t' unfolding unchanged_except_def has_def by (metis option.discI)
    moreover have "has view (obj_key t) s'" "\<And>k. has view k s2 \<Longrightarrow> has view k s'"
      using recreate_ok [OF laws(1) rec] x by (simp_all add: has_def)
    ultimately show ?thesis by blast
  next
    case (Inr x)
    have x: "view s1 (obj_key t) = Some x" using cg(1,2) Inr key by simp
    have kx: "obj_key x = obj_key t" using client_key [OF laws(1) x] .
    have "recreateIfFailed clnt chk x s1 = (Inr u, s')"
      using step Inr by (auto simp: bindp_eq_ok MakeErr_ok liftp_def split: if_splits)
    then have "has view (obj_key t) s'" "\<And>k. has view k s1 \<Longrightarrow> has view k s'"
      using recreate_ok [OF laws(1)] x kx by (simp_all add: has_def)
    then show ?thesis using same by blast
  qed
  then show "has view (obj_key t) s'" "has view k s \<Longrightarrow> has view k s'" by blast+
qed

lemma ensure_failed:
  assumes "env_laws view E" "owner_laws lab" "about lab t = {j}"
  shows "makes (has view j) (createIfNotExistsOrFailedOrRemove (env_Client E) lab t chk needOwner False)"
    and "retains view k (createIfNotExistsOrFailedOrRemove (env_Client E) lab t chk needOwner False)"
proof -
  have j: "j = obj_key t" "meta_Namespace (obj_Meta t) = lab_Namespace (plab_Lab lab)"
    using assms(3) by (auto simp: about_def obj_key_def)
  note ok = createOrFailed_ok [OF env_lawsD(1) [OF assms(1)] assms(2) j(2)]
  show "makes (has view j) (createIfNotExistsOrFailedOrRemove (env_Client E) lab t chk needOwner False)"
    unfolding makes_def j(1) using ok(1) by blast
  show "retains view k (createIfNotExistsOrFailedOrRemove (env_Client E) lab t chk needOwner False)"
    unfolding retains_def using ok(2) by blast
qed

lemma GeneralVM_makes:
  assumes "env_laws view E" "owner_laws lab" "k \<in> node_keys E lab node (SysVM v :: SRCard System)"
  shows "makes (has view k) (GeneralVM_Ensure E v lab node False)"
proof -
  let ?ln = "lab_Name (plab_Lab lab)"
  consider (dv) "k = in_lab lab ''DataVolume'' (GetVMPCDVName ?ln node)"
    | (vmi) "k = in_lab lab ''VirtualMachineInstance'' (GetPodName ?ln node)"
    using assms(3) by (auto simp: node_keys_def Let_def)
  then show ?thesis
  proof cases
    case dv
    show ?thesis
      unfolding GeneralVM_Ensure_def Let_def
      by (rule makes_lift, rule makes_retain)
        (auto intro!: makes_MakeErr makes_ensure [OF assms(1,2)] retains_lift retains_MakeErr
          ensure_failed(2) [OF assms(1,2) about_built(8)] simp: about_made dv)
  next
    case vmi
    show ?thesis
      unfolding GeneralVM_Ensure_def Let_def vmi
      by (rule makes_lift, rule makes_then, rule makes_lift, rule makes_MakeErr)
        (rule ensure_failed(1) [OF assms(1,2)], rule about_built(8))
  qed
qed

lemma retains_quiet:
  assumes "env_laws view E"
  shows "retains view k (MakeErr (clnt_Get (env_Client E) ns n t))" "retains view k (wrapp fmt args (clnt_Get (env_Client E) ns n t))"
    and "retains view k (MakeErr (wrapp fmt args (fs_MkdirAll (env_FS E) p)))" "retains view k (MakeErr (wrapp fmt args (fs_WriteFile (env_FS E) p q)))"
  by (intro retains_additive keeps_MakeErr keeps_wrapp keeps_same_view(2) fs_keeps keeps_Get env_lawsD [OF assms])+

lemma srvm_cpm_retains:
  assumes "env_laws view E" "owner_laws lab"
  shows "retains view k (srvm_cpm E v lab node False slot)"
proof -
  have pvc: "retains view k (MakeErr (createIfNotExistsOrRemove (env_Client E) lab t needOwner False))" for t needOwner
    by (intro retains_additive keeps_MakeErr additive_ensure assms)
  show ?thesis
    unfolding srvm_cpm_def Let_def
    by (intro retains_lift retains_bindp retains_quiet [OF assms(1)])
      (auto intro!: retains_lift retains_bindp pvc split: prod.split)
qed

lemma srvm_cpm_makes:
  assumes "env_laws view E" "owner_laws lab"
  shows "makes (has view (in_lab lab ''DataVolume'' (GetSRVMDVName (lab_Name (plab_Lab lab)) node slot)))
    (srvm_cpm E v lab node False slot)"
  unfolding srvm_cpm_def Let_def
  by (rule makes_lift, rule makes_then, rule makes_then, rule makes_then, rule makes_lift)
    (auto intro!: makes_lift makes_retain makes_MakeErr makes_ensure [OF assms] simp: about_made split: prod.split)

lemma srvm_card_retains:
  assumes "env_laws view E" "owner_laws lab"
  shows "retains view k (srvm_card E v ch lab node False x lic)"
proof -
  obtain slot c where x: "x = (slot, c)" by fastforce
  have "retains view k (if IsCPM slot then srvm_cpm E v lab node False slot else retp lic)"
    by (simp add: srvm_cpm_retains [OF assms] retains_additive)
  then show ?thesis
    unfolding x srvm_card_def prod.case
    by (intro retains_bindp retains_lift retains_quiet [OF assms(1)] retains_MakeErr)
      (auto intro!: ensure_failed(2) [OF assms about_built(9)])
qed

lemma srvm_card_makes:
  assumes "env_laws view E" "owner_laws lab" "k \<in> card_keys lab node slot"
  shows "makes (has view k) (srvm_card E v ch lab node False (slot, c) lic)"
proof -
  let ?ln = "lab_Name (plab_Lab lab)"
  have rest: "retains view k (MakeErr (createIfNotExistsOrFailedOrRemove (env_Client E) lab vmi checkVMIfail True False))"
    if "SRVM_getVMI E v ch lab node (slot, c) lic u p = Inr vmi" for lic u p vmi
    by (intro retains_MakeErr ensure_failed(2) [OF assms(1,2) about_built(9) [OF that]])
  consider (dv) "IsCPM slot" "k = in_lab lab ''DataVolume'' (GetSRVMDVName ?ln node slot)"
    | (vmi) "k = in_lab lab ''VirtualMachineInstance'' (GetSRVMCardVMName ?ln node slot)"
    using assms(3) by (auto simp: card_keys_def Let_def split: if_splits)
  then show ?thesis
  proof cases
    case dv
    show ?thesis
      unfolding srvm_card_def prod.case dv(2)
      by (rule makes_retain, simp add: dv(1) srvm_cpm_makes [OF assms(1,2)])
        (intro retains_bindp retains_lift retains_quiet [OF assms(1)] rest [unfolded dv(2)], assumption, simp add: retains_additive)
  next
    case vmi
    have "makes (has view k) (MakeErr (createIfNotExistsOrFailedOrRemove (env_Client E) lab x checkVMIfail True False))"
      if "SRVM_getVMI E v ch lab node (slot, c) lic u p = Inr x" for lic u p x
      unfolding vmi by (rule makes_MakeErr, rule ensure_failed(1) [OF assms(1,2)], rule about_built(9) [OF that])
    then show ?thesis
      unfolding srvm_card_def prod.case
      by (intro makes_then makes_lift makes_retain) (auto intro: retains_additive)
  qed
qed

lemma bridge_kept:
  assumes "env_laws view E" "owner_laws lab"
  shows "keeps (additive view) (MakeErr (createIfNotExistsOrRemove (env_Client E) lab t True False))"
  by (intro keeps_MakeErr additive_ensure assms additive_refl)

lemma SRVM_retains:
  assumes "env_laws view E" "owner_laws lab"
  shows "retains view k (SRVM_Ensure E v lab node False)"
proof -
  note quiet = srvm_quiet [OF assms(1), THEN keeps_same_view(2)]
  have fabric: "keeps (additive view) (srvm_fabric E ch lab node False ix)" for ch ix
    unfolding srvm_fabric_def Let_def
    by (intro keeps_seq, simp split: if_split, intro conjI impI keeps_seq bridge_kept [OF assms])
  show ?thesis
    unfolding SRVM_Ensure_def Let_def
    by (intro retains_bindp retains_lift retains_foldp retains_retp srvm_card_retains [OF assms] retains_additive [OF fabric]
        retains_additive [OF keeps_MakeErr [OF keeps_wrapp [OF quiet(1)]]] retains_additive [OF quiet(2)] retains_additive [OF quiet(3)])
qed

lemma GeneralVM_retains:
  assumes "env_laws view E" "owner_laws lab"
  shows "retains view k (GeneralVM_Ensure E v lab node False)"
  unfolding GeneralVM_Ensure_def Let_def
  by (auto intro!: retains_lift retains_bindp retains_MakeErr ensure_failed(2) [OF assms about_built(8)]
      retains_additive [OF additive_ensure [OF assms]])

lemma System_retains:
  assumes "env_laws view E" "owner_laws lab"
  shows "retains view k (System_Ensure E False lab node sys)"
proof (cases "is_pod sys")
  case True
  then show ?thesis by (intro retains_additive pods_additive(4) assms)
next
  case False
  then show ?thesis
    by (cases sys) (simp_all add: System_Ensure_def is_pod_def SRVM_retains [OF assms] GeneralVM_retains [OF assms])
qed

lemma SRVM_makes:
  assumes "env_laws view E" "owner_laws lab" "k \<in> srvm_keys lab node v"
  shows "makes (has view k) (SRVM_Ensure E v lab node False)"
proof -
  let ?ln = "lab_Name (plab_Lab lab)"
  obtain ch where ch: "srvm_Chassis v = Some ch" using assms(3) by (auto simp: srvm_keys_def split: option.splits)
  note nad_kept = bridge_kept [OF assms(1,2)] and quiet = srvm_quiet [OF assms(1), THEN keeps_same_view(2)]
  note card_kept = srvm_card_retains [OF assms(1,2)]
  consider (nad) "k \<in> srvm_nads lab node ch" | (crd) slot c where "(slot, c) \<in> set (entries (ch_Cards ch))" "k \<in> card_keys lab node slot"
    using assms(3) by (auto simp: srvm_keys_def ch)
  then show ?thesis
  proof cases
    case nad
    obtain model where model: "ch_Model ch = Some model" "\<not> IsIntegratedChassis model"
      using nad by (auto simp: srvm_nads_def Let_def split: option.splits if_splits)
    note mk = makes_MakeErr [OF makes_ensure [OF assms(1,2) about_made(2)]]
    have fabric: "makes (has view k) (srvm_fabric E ch lab node False ix)" for ix
    proof (cases "k = in_lab lab ''NetworkAttachmentDefinition'' (GetVSROSFBName ?ln node)")
      case True
      show ?thesis
        unfolding srvm_fabric_def Let_def True
        by (rule makes_lift, simp add: model deref_eq_Inr split: if_split, intro conjI impI makes_lift makes_first mk)
          (auto intro!: keeps_seq nad_kept)
    next
      case False
      then have df: "fst (ParseSRVMName_New node) = SRVMMAGC" "k = in_lab lab ''NetworkAttachmentDefinition'' (GetMAGCDFName ?ln node)"
        using nad model by (auto simp: srvm_nads_def Let_def split: if_splits)
      show ?thesis
        unfolding srvm_fabric_def Let_def df(2)
        by (rule makes_lift, simp add: model deref_eq_Inr df(1), intro makes_then makes_lift mk)
    qed
    show ?thesis
      unfolding SRVM_Ensure_def Let_def
      by (rule makes_then, rule makes_lift, rule makes_retain)
        (auto simp: ch intro!: fabric retains_bindp retains_additive [OF quiet(2)] retains_additive [OF quiet(3)] retains_foldp card_kept)
  next
    case crd
    have loop: "makes (has view k) (foldp (srvm_card E v ch lab node False) (entries (ch_Cards ch)) [])"
      by (rule makes_fold_retain [OF crd(1)]) (use srvm_card_makes [OF assms(1,2) crd(2)] card_kept in auto)
    show ?thesis
      unfolding SRVM_Ensure_def Let_def
      by (rule makes_then, rule makes_lift, simp add: ch deref_eq_Inr, rule makes_then, rule makes_then, rule makes_then,
          rule makes_retain [OF loop]) simp
  qed
qed

text \<open>Every node type: a general pod needs the lab to be in the namespace of the operator.\<close>

lemma System_makes:
  assumes "env_laws view E" "owner_laws lab" "\<And>v. sys = SysPod v \<Longrightarrow> lab_Namespace (plab_Lab lab) = env_MYNAMESPACE E"
    and "k \<in> node_keys E lab node sys"
  shows "makes (has view k) (System_Ensure E False lab node sys)"
  using assms(3,4)
  by (cases sys) (auto simp: System_Ensure_def node_keys_def [of _ _ _ "SysVSIM _"] node_keys_def [of _ _ _ "SysVSRI _"]
      node_keys_def [of _ _ _ "SysMAGC _"] node_keys_def [of _ _ _ "SysPod _"] node_keys_def [of _ _ _ "SysSRSIM _"]
      intro: SRSim_makes [OF assms(1,2)] SRLinux_makes [OF assms(1,2)] GeneralPod_makes [OF assms(1,2)]
        SRVM_makes [OF assms(1,2)] GeneralVM_makes [OF assms(1,2)])

section \<open>All nodes of a lab\<close>

lemma retains_eachp: "(\<And>x. x \<in> set xs \<Longrightarrow> retains view k (f x)) \<Longrightarrow> retains view k (eachp f xs)"
  by (induction xs) (auto intro: retains_bindp)

lemma makes_each_retain:
  assumes "x \<in> set xs" "makes (has view k) (f x)" "\<And>y. y \<in> set xs \<Longrightarrow> retains view k (f y)"
  shows "makes (has view k) (eachp f xs)"
  using assms
proof (induction xs)
  case (Cons y ys)
  show ?case
  proof (cases "x = y")
    case True
    have "makes (has view k) (bindp (f y) (\<lambda>_. eachp f ys))"
      by (rule makes_retain) (use Cons.prems True in \<open>auto intro: retains_eachp\<close>)
    then show ?thesis by simp
  next
    case False
    then have "makes (has view k) (eachp f ys)" using Cons by auto
    then show ?thesis by (auto intro: makes_then)
  qed
qed simp

lemma ensure_node_retains:
  assumes "env_laws view E" "owner_laws p"
  shows "retains view k (ensure_node (System_Ensure E False) p x)"
  by (cases x) (simp add: ensure_node_def retains_lift System_retains [OF assms])

text \<open>No node removes what another has created, so at the end the objects of all nodes are there.\<close>

lemma nodes_make:
  assumes "env_laws view E" "owner_laws p" "(node, one) \<in> set xs" "fst (GetSystem one) = Some sys"
    and "\<And>v. sys = SysPod v \<Longrightarrow> lab_Namespace (plab_Lab p) = env_MYNAMESPACE E" "k \<in> node_keys E p node sys"
  shows "makes (has view k) (eachp (ensure_node (System_Ensure E False) p) xs)"
proof (rule makes_each_retain [OF assms(3)])
  show "makes (has view k) (ensure_node (System_Ensure E False) p (node, one))"
    unfolding ensure_node_def prod.case
    by (rule makes_lift) (use System_makes [OF assms(1,2,5,6)] assms(4) in \<open>simp add: deref_eq_Inr\<close>)
qed (rule ensure_node_retains [OF assms(1,2)])

lemma nodes_have_types:
  "eachp (ensure_node Ensure p) xs s = (Inr u, s') \<Longrightarrow> (node, one) \<in> set xs \<Longrightarrow> \<exists>sys. fst (GetSystem one) = Some sys"
proof (induction xs arbitrary: s)
  case (Cons x xs)
  from Cons.prems(1) obtain t where t: "ensure_node Ensure p x s = (Inr (), t)" "eachp (ensure_node Ensure p) xs t = (Inr u, s')"
    by (auto simp: bindp_eq_ok)
  show ?case
  proof (cases "(node, one) = x")
    case True
    then show ?thesis using t(1) by (auto simp: ensure_node_def bindp_eq_ok liftp_def deref_eq_Inr)
  next
    case False
    then show ?thesis using Cons t(2) by auto
  qed
qed simp

end
