(* ===== verification/NodeNets.thy ===== *)
theory NodeNets
  imports NodePods
begin

text \<open>
  The network annotation of a pod, read the way its reader (Multus) does: split at the commas it has
  one entry per spoke of the node, in the order of the links, and the first container has a
  device limit for each of them.
\<close>

section \<open>Lists written with a separator\<close>

lemma Split_one: "c \<notin> set t \<Longrightarrow> split_go [c] 0 acc t = [rev acc @ t]"
  by (induction t arbitrary: acc) (auto simp: HasPrefix_iff)

lemma Split_more: "c \<notin> set t \<Longrightarrow> split_go [c] 0 acc (t @ c # s) = (rev acc @ t) # split_go [c] 0 [] s"
  by (induction t arbitrary: acc) (auto simp: HasPrefix_iff)

lemma Split_trailing:
  assumes "ts \<noteq> []" "\<And>t. t \<in> set ts \<Longrightarrow> c \<notin> set t"
  shows "Split (butlast (concat (map (\<lambda>t. t @ [c]) ts))) [c] = ts"
  using assms
proof (induction ts)
  case (Cons t ts)
  show ?case
  proof (cases "ts = []")
    case True
    then show ?thesis using Cons.prems by (simp add: Split_def Split_one)
  next
    case False
    then have "butlast (concat (map (\<lambda>t. t @ [c]) (t # ts))) = t @ c # butlast (concat (map (\<lambda>t. t @ [c]) ts))"
      by (simp add: butlast_append)
    then show ?thesis using Cons False by (simp add: Split_def Split_more)
  qed
qed simp

section \<open>The annotation of a pod\<close>

text \<open>What each pod type writes for its \<open>i\<close>th spoke.\<close>

definition pod_item :: "('s, 'b) Env \<Rightarrow> ParsedLab \<Rightarrow> SRCard System \<Rightarrow> int \<Rightarrow> string \<Rightarrow> string result" where
  "pod_item E lab sys = (case sys of
      SysSRL v \<Rightarrow> srl_net (env_K8slan E) lab
    | SysPod v \<Rightarrow> pod_net (env_K8slan E) lab
    | SysSRSIM v \<Rightarrow> (\<lambda>i spoke. bindr (deref (srsim_Chassis v)) (\<lambda>ch. srsim_net (env_K8slan E) ch lab i spoke))
    | _ \<Rightarrow> (\<lambda>i spoke. errf ''not a pod'' []))"

definition resource_key :: "K8slan \<Rightarrow> ParsedLab \<Rightarrow> string \<Rightarrow> string" where
  "resource_key k lab spoke = K8sLANResKeyPrefix @ ''/'' @ GetDPResouceName k (spoke_lan lab spoke) spoke True"

text \<open>The spokes of a node, numbered from 1.\<close>

definition numbered_spokes :: "ParsedLab \<Rightarrow> string \<Rightarrow> (int \<times> string) list" where
  "numbered_spokes lab node = map (apfst ((+) 1)) (indexed (node_spokes lab node))"

definition first_limits :: "KObj \<Rightarrow> quantity gomap option" where
  "first_limits x = (case obj_Body x of PodBody spec \<Rightarrow> (case pod_Containers spec of c # _ \<Rightarrow> ctr_Limits c | [] \<Rightarrow> None) | _ \<Rightarrow> None)"

lemma numbered_snd: "map snd (numbered_spokes lab node) = node_spokes lab node"
  by (simp add: numbered_spokes_def indexed_def comp_def)

text \<open>The entries can be told apart: none has a comma.\<close>

definition comma_free :: "(int \<Rightarrow> string \<Rightarrow> string result) \<Rightarrow> (int \<times> string) list \<Rightarrow> bool" where
  "comma_free item xs \<longleftrightarrow> list_all (\<lambda>(i, spoke). case item i spoke of Inr t \<Rightarrow> CHR '','' \<notin> set t | Inl _ \<Rightarrow> True) xs"

lemma refer_nads_split:
  assumes "refer_nads k lab node item = Inr (netStr, limits)" and "comma_free item (numbered_spokes lab node)"
  shows "\<exists>ts. list_all2 (\<lambda>(i, spoke) t. item i spoke = Inr t) (numbered_spokes lab node) ts \<and>
    (if ts = [] then net_annotation netStr = [] else \<exists>txt. net_annotation netStr = [(MultusAnnoKey, txt)] \<and> Split txt '','' = ts) \<and>
    fst ` set limits = resource_key k lab ` set (node_spokes lab node)"
proof -
  note fold = refer_fold [OF assms(1) [unfolded refer_nads_def, folded numbered_spokes_def], folded resource_key_def,
    unfolded append_Nil list.set image_empty Un_empty_left]
  then obtain ts where ts: "list_all2 (\<lambda>(i, spoke) t. item i spoke = Inr t) (numbered_spokes lab node) ts"
      "netStr = concat (map (\<lambda>t. t @ '','') ts)"
      "fst ` set limits = (\<lambda>(i, spoke). resource_key k lab spoke) ` set (numbered_spokes lab node)"
    by (elim exE conjE) (rule that)
  have "\<forall>t\<in>set ts. CHR '','' \<notin> set t"
    using ts(1) assms(2) by (induction rule: list_all2_induct) (auto simp: comma_free_def)
  then have "ts \<noteq> [] \<Longrightarrow> Split (butlast netStr) '','' = ts"
    using Split_trailing [of ts "CHR '',''"] ts(2) by blast
  moreover have "netStr = [] \<longleftrightarrow> ts = []" by (auto simp: ts(2))
  moreover have "fst ` set limits = resource_key k lab ` snd ` set (numbered_spokes lab node)"
    unfolding ts(3) by (force simp: image_image split_beta)
  then have "fst ` set limits = resource_key k lab ` set (node_spokes lab node)"
    using numbered_snd [of lab node] by (metis list.set_map)
  ultimately show ?thesis using ts(1) by (auto simp: net_annotation_def)
qed

lemma finish_pod_annotations [simp]: "meta_Annotations (obj_Meta (finish_pod base spec netStr)) = net_annotation netStr"
  by (simp add: finish_pod_def)

lemma finish_pod_limits [simp]: "first_limits (finish_pod base \<lparr>pod_InitContainers = ics, pod_Containers = c # cs, pod_Volumes = vs\<rparr> netStr) = ctr_Limits c"
  by (simp add: finish_pod_def first_limits_def)

lemma node_pod_refers:
  assumes "node_pod E lab node sys = Inr t"
  obtains netStr limits where "refer_nads (env_K8slan E) lab node (pod_item E lab sys) = Inr (netStr, limits)"
    "meta_Annotations (obj_Meta t) = net_annotation netStr" "first_limits t = Some limits"
proof (cases sys)
  case (SysSRL v)
  then show thesis using assms that
    by (auto simp: node_pod_def srl_pod_def Let_def bindr_eq_Inr pod_item_def srl_container_def)
next
  case (SysPod v)
  then show thesis using assms that
    by (auto simp: node_pod_def general_pod_def Let_def bindr_eq_Inr pod_item_def pod_container_def)
next
  case (SysSRSIM v)
  then show thesis using assms that
    by (auto simp: node_pod_def srsim_pod_def Let_def bindr_eq_Inr pod_item_def deref_eq_Inr)
qed (use assms in \<open>simp_all add: node_pod_def\<close>)

end
