(* ===== verification/Props_Nodes.thy ===== *)
theory Props_Nodes
  imports Props_Cluster NodeVMs NodeNets
begin

text \<open>
  Properties of the whole controller with the \<open>Ensure\<close> methods of the seven node types: which objects
  of the cluster a reconciliation touches, what it leaves there, and what the pods and VMs of a node look like.
  The witnesses use an environment in memory.
\<close>

definition mem_fs :: "KObj list FileOps" where
  "mem_fs = \<lparr>fs_Readlink = \<lambda>_. retp [], fs_Stat = \<lambda>_. retp (), fs_MkdirAll = \<lambda>_. retp (), fs_Remove = \<lambda>_. retp (),
     fs_Symlink = \<lambda>_ _. retp (), fs_WriteFile = \<lambda>_ _. retp ()\<rparr>"

definition plain_nad :: "string \<Rightarrow> string \<Rightarrow> string \<Rightarrow> bool \<Rightarrow> prefix list \<Rightarrow> Route list \<Rightarrow> KObj" where
  "plain_nad lan spoke ns veth ps rs = \<lparr>obj_Kind = ''NetworkAttachmentDefinition'',
     obj_Meta = GetObjMeta (lan @ ''-'' @ spoke) [] ns [] [], obj_Body = NADBody []\<rparr>"

definition mem_k8slan :: K8slan where
  "mem_k8slan = \<lparr>GetDefNADName = \<lambda>lan spoke veth. lan @ ''-'' @ spoke, GetAddrNADName = \<lambda>lan spoke. lan @ ''-'' @ spoke,
     GetDPResouceName = \<lambda>lan spoke veth. spoke, GenNAD = plain_nad\<rparr>"

definition mem_env :: "(KObj list, nat \<times> nat list) Env" where
  "mem_env = \<lparr>env_Client = mem_client, env_Bitset = mem_bitset, env_FS = mem_fs, env_GConf = bare_config,
     env_MYNAMESPACE = ''knl-system'', env_K8slan = mem_k8slan, env_Shlex = \<lambda>s. [s], env_SrlYaml = \<lambda>_. Inr [],
     env_CloudInitYaml = \<lambda>_. Inr [], env_IgnitionJson = \<lambda>_. [], env_PasswdHash = \<lambda>p. p, env_AddrString = \<lambda>_. [],
     env_PrefixString = \<lambda>_. [], env_Cores = \<lambda>_. 1, env_Half = \<lambda>q. q\<rparr>"

lemma mem_env_laws: "env_laws mem_view mem_env"
  by (simp add: env_laws_def mem_env_def mem_client_laws fs_laws_def mem_fs_def nad_laws_def mem_k8slan_def plain_nad_def
      GetObjMeta_def Let_def keeps_def)

section \<open>The controller\<close>

lemma build_keeps_lab:
  assumes "env_laws view E" and "owner_laws plab"
  shows "view (snd (build bs gconf (env_Client E) (System_Ensure E f) plab s)) (lab_key ns name) = view s (lab_key ns name)"
proof -
  have "keeps (outside view (- {lab_key ns name})) (build bs gconf (env_Client E) (System_Ensure E f) plab)"
  proof (rule build_outside [OF env_lawsD(1) [OF assms(1)] assms(2)])
    show "lan_key plab ` link_names plab \<subseteq> - {lab_key ns name}" by (auto simp: lan_key_def lab_key_def)
    fix p node one and sys :: "SRCard System"
    assume "same_lab plab p"
    moreover have "node_keys E p node sys \<subseteq> - {lab_key ns name}"
      using node_keys_not_lab [OF env_lawsD(3) [OF assms(1)]] by blast
    ultimately show "keeps (outside view (- {lab_key ns name})) (System_Ensure E f p node sys)"
      using System_outside [OF assms(1) same_lab_laws [OF _ assms(2)]] by blast
  qed
  then show ?thesis by (simp add: keeps_def outside_def)
qed

text \<open>C3
  Nothing is built for a lab before its finalizer is stored: after a reconciliation of a lab that is not being
  deleted, either no object but the lab's own has changed, or the stored lab carries the finalizer.
\<close>

theorem finalizer_before_resources:
  assumes "env_laws view E" "\<And>plab. ParseLab (lab_of x) setref = Inr plab \<Longrightarrow> owner_laws plab"
    and "view s (lab_key ns name) = Some x" "meta_DeletionTimestamp (obj_Meta x) = None"
    and "Reconcile bs gconf (env_Client E) setref (System_Ensure E f) ns name s = (r, s')"
  shows "(\<forall>k. k \<noteq> lab_key ns name \<longrightarrow> view s' k = view s k) \<or>
    (\<exists>y. view s' (lab_key ns name) = Some y \<and> ContainsFinalizer y FinalizerName)"
  using env_lawsD(1) [OF assms(1)] assms(3,5)
proof (cases rule: Reconcile_run)
  case (building s1 plab)
  let ?clnt = "env_Client E" and ?build = "build bs gconf (env_Client E) (System_Ensure E f) plab"
  note clnt = env_lawsD(1) [OF assms(1)]
  note keep = build_keeps_lab [OF assms(1) assms(2) [OF building(3)], where ns = ns and name = name]
  show ?thesis
  proof (cases "ContainsFinalizer x FinalizerName")
    case True
    then have "s' = snd (?build s1)"
      using building(4) by simp (metis logged_snd snd_conv)
    then show ?thesis using keep [where s = s1] building(1) assms(3) True by auto
  next
    case False
    obtain q s2 where u: "clnt_Update ?clnt (AddFinalizer x FinalizerName) s1 = (q, s2)" by fastforce
    note cu = client_Update [OF clnt u]
    have key: "obj_key x = lab_key ns name" by (rule client_key [OF clnt assms(3)])
    show ?thesis
    proof (cases q)
      case (Inl e)
      then have "s' = s2" using building(4) u False by simp
      then have "unchanged_except (lab_key ns name) (view s) (view s')" using cu(1) key building(1) by simp
      then show ?thesis unfolding unchanged_except_def by blast
    next
      case (Inr w)
      then have s': "s' = snd (?build s2)"
        using building(4) u False by simp (metis logged_snd snd_conv)
      have "\<not> gone_after (AddFinalizer x FinalizerName)" by (simp add: gone_after_def assms(4))
      with cu(4) Inr key obtain y where "view s2 (lab_key ns name) = Some y" "ContainsFinalizer y FinalizerName"
        by (auto simp: ContainsFinalizer_def)
      then show ?thesis using keep [where s = s2] s' by auto
    qed
  qed
qed (use assms(4) in auto)

theorem finalizer_before_resources_witness:
  "let s = [lab_obj [] None];
       s' = snd (Reconcile mem_bitset bare_config mem_client set_ref (System_Ensure mem_env False) ''knl-system'' ''lab1'' s)
   in (\<forall>k. k \<noteq> lab_key ''knl-system'' ''lab1'' \<longrightarrow> mem_view s' k = mem_view s k) \<or>
    (\<exists>y. mem_view s' (lab_key ''knl-system'' ''lab1'') = Some y \<and> ContainsFinalizer y FinalizerName)"
proof -
  obtain r s' where run: "Reconcile mem_bitset bare_config (env_Client mem_env) set_ref (System_Ensure mem_env False)
      ''knl-system'' ''lab1'' [lab_obj [] None] = (r, s')"
    by fastforce
  have clnt: "env_Client mem_env = mem_client" by (simp add: mem_env_def)
  have "meta_DeletionTimestamp (obj_Meta (lab_obj [] None)) = None" by (simp add: lab_obj_def)
  from finalizer_before_resources [OF mem_env_laws ParseLab_laws lab_obj_view this run] show ?thesis
    by (simp only: run [unfolded clnt] snd_conv Let_def)
qed

text \<open>C5
  A reconciliation of a lab touches only the lab's own objects: the stored lab, the LANs of its links and the
  objects of its nodes, found by kind, namespace and name; every other object of the cluster is as it was. The
  attachments of addressed spokes of general pods count as the lab's under the name of any link and spoke of it.
\<close>

theorem reconcile_touches_own_objects:
  assumes "env_laws view E" and "view s (lab_key ns name) = Some x"
    and "\<And>plab. ParseLab (lab_of x) setref = Inr plab \<Longrightarrow> owner_laws plab"
    and "Reconcile bs gconf (env_Client E) setref (System_Ensure E f) ns name s = (r, s')"
    and "k \<noteq> lab_key ns name" "k \<notin> lab_objects E (lab_of x)"
  shows "view s' k = view s k"
  using Reconcile_lab_objects [OF assms(1-4)] assms(5,6) unfolding outside_def by blast

definition secret :: KObj where
  "secret = \<lparr>obj_Kind = ''Secret'', obj_Meta = GetObjMeta ''lic'' ''lab1'' ''knl-system'' [] [], obj_Body = SecretBody []\<rparr>"

theorem reconcile_touches_own_objects_witness:
  "let s = [lab_obj [] None, secret];
       s' = snd (Reconcile mem_bitset bare_config mem_client set_ref (System_Ensure mem_env False) ''knl-system'' ''lab1'' s)
   in mem_view s' (obj_key secret) = Some secret"
proof -
  let ?s = "[lab_obj [] None, secret]"
  obtain r s' where run: "Reconcile mem_bitset bare_config (env_Client mem_env) set_ref (System_Ensure mem_env False)
      ''knl-system'' ''lab1'' ?s = (r, s')"
    by fastforce
  have clnt: "env_Client mem_env = mem_client" by (simp add: mem_env_def)
  have "obj_key secret \<noteq> lab_key ''knl-system'' ''lab1''" by (simp add: secret_def obj_key_def lab_key_def)
  moreover have "obj_key secret \<notin> lab_objects mem_env (lab_of (lab_obj [] None))"
    using lab_objects_kinds [OF env_lawsD(3) [OF mem_env_laws]] by (fastforce simp: secret_def obj_key_def node_kinds_def)
  moreover have "mem_view ?s (obj_key secret) = Some secret"
    by (simp add: mem_view_def secret_def lab_obj_def obj_key_def GetObjMeta_def)
  ultimately have "mem_view s' (obj_key secret) = Some secret"
    using reconcile_touches_own_objects [OF mem_env_laws lab_obj_view _ run, of "obj_key secret"] ParseLab_laws by metis
  then show ?thesis by (simp only: run [unfolded clnt] snd_conv Let_def)
qed

text \<open>C6
  When building a lab ends without error, everything of it is there: every link has its LAN, every node has a
  type, and all objects of every node exist. Only a lab with general pods has to be in the operator's namespace:
  the attachments of their addresses are created there, and looked for in the namespace of the lab.
\<close>

theorem lab_built:
  assumes "env_laws view E" "owner_laws plab" "bitset_laws bv len bs"
    and "wfmap (entries (lab_LinkList (lab_Spec (plab_Lab plab))))"
    and "\<And>node one v. (node, one) \<in> set (entries (lab_NodeList (lab_Spec (plab_Lab plab)))) \<Longrightarrow>
      fst (GetSystem one) = Some (SysPod v) \<Longrightarrow> lab_Namespace (plab_Lab plab) = env_MYNAMESPACE E"
    and "EnsureLinks bs gconf (env_Client E) plab s = (Inr p, s1)"
    and "build bs gconf (env_Client E) (System_Ensure E False) plab s = (Inr u, s')"
  shows "(\<forall>l\<in>link_names plab. view s' (lan_key plab l) \<noteq> None) \<and>
    (\<forall>(node, one)\<in>set (entries (lab_NodeList (lab_Spec (plab_Lab plab)))).
       \<exists>sys. fst (GetSystem one) = Some sys \<and> (\<forall>k\<in>node_keys E p node sys. view s' k \<noteq> None))"
proof -
  let ?nodes = "entries (lab_NodeList (lab_Spec (plab_Lab plab)))"
  note clnt = env_lawsD(1) [OF assms(1)]
  have same: "same_lab plab p" by (rule EnsureLinks_frame(2) [OF clnt assms(2,6) refl])
  then have laws: "owner_laws p" and lab: "plab_Lab p = plab_Lab plab"
    using same_lab_laws assms(2) by (auto simp: same_lab_def)
  have run: "eachp (ensure_node (System_Ensure E False) p) ?nodes s1 = (Inr u, s')"
    using assms(6,7) lab by (simp add: build_def)
  have node: "\<exists>sys. fst (GetSystem one) = Some sys \<and> (\<forall>k\<in>node_keys E p node sys. view s' k \<noteq> None)"
    if n: "(node, one) \<in> set ?nodes" for node one
  proof -
    obtain sys where sys: "fst (GetSystem one) = Some sys" using nodes_have_types [OF run n] by blast
    have "view s' k \<noteq> None" if k: "k \<in> node_keys E p node sys" for k
      using nodes_make [OF assms(1) laws n sys _ k] run lab assms(5) [OF n] sys by (simp add: makes_def has_def)
    with sys show ?thesis by blast
  qed
  have link: "view s' (lan_key plab l) \<noteq> None" if l: "l \<in> link_names plab" for l
  proof -
    have "has view (lan_key plab l) s1" using links_made [OF clnt assms(2-4,6) l] by (auto simp: has_def)
    from retainsD [OF retains_eachp [OF ensure_node_retains [OF assms(1) laws]] run this] show ?thesis by (simp add: has_def)
  qed
  show ?thesis using node link by blast
qed

abbreviation debian_pod :: GeneralPod where
  "debian_pod \<equiv> new_GeneralPod\<lparr>gpod_Image := Some ''debian'', gpod_PvcSize := Some (MustParse ''1Gi'')\<rparr>"

definition built :: "(KObj list, unit) proc" where
  "built = bindp (foldp (ensure_link bare_config mem_client) (zip [''l''] [1]) (plab_of pods_lab)) (\<lambda>p.
     eachp (ensure_node (System_Ensure mem_env False) p) (entries (lab_NodeList (lab_Spec (plab_Lab p)))))"

lemma built_ok: "ok (fst (built []))"
  by code_simp

lemma pods_links_run: "EnsureLinks mem_bitset bare_config mem_client (plab_of pods_lab) [] =
    foldp (ensure_link bare_config mem_client) (zip [''l''] [1]) (plab_of pods_lab) []"
  using first_vni by (simp add: EnsureLinks_def plab_of_def pods_links GetSortedKeySlice_def bindp_def wrapp_def)

lemma pods_built:
  obtains s' where "build mem_bitset bare_config (env_Client mem_env) (System_Ensure mem_env False) (plab_of pods_lab) [] = (Inr (), s')"
proof -
  have "build mem_bitset bare_config (env_Client mem_env) (System_Ensure mem_env False) (plab_of pods_lab) [] = built []"
    by (simp add: build_def built_def mem_env_def pods_links_run bindp_def del: foldp.simps)
  then show thesis using built_ok that by (cases "built []") (auto simp: ok_unit)
qed

theorem lab_built_witness:
  "\<exists>s'. build mem_bitset bare_config (env_Client mem_env) (System_Ensure mem_env False) (plab_of pods_lab) [] = (Inr (), s') \<and>
    mem_view s' (lan_key (plab_of pods_lab) ''l'') \<noteq> None \<and> mem_view s' (''Pod'', ''knl-system'', ''lab1-pod-1'') \<noteq> None"
proof -
  obtain p s1 where run: "EnsureLinks mem_bitset bare_config (env_Client mem_env) (plab_of pods_lab) [] = (Inr p, s1)"
    using pods_ensured by (auto simp: mem_env_def)
  obtain s' where bld: "build mem_bitset bare_config (env_Client mem_env) (System_Ensure mem_env False) (plab_of pods_lab) [] = (Inr (), s')"
    by (rule pods_built)
  have lab: "plab_Lab p = pods_lab"
    using EnsureLinks_frame(2) [OF env_lawsD(1) [OF mem_env_laws] plab_of_laws run refl] by (simp add: same_lab_def plab_of_def)
  have links: "wfmap (entries (lab_LinkList (lab_Spec (plab_Lab (plab_of pods_lab)))))" "''l'' \<in> link_names (plab_of pods_lab)"
    by (simp_all add: plab_of_def pods_links wfmap_def link_names_def)
  have ns: "lab_Namespace (plab_Lab (plab_of pods_lab)) = env_MYNAMESPACE mem_env"
    by (simp add: plab_of_def pods_lab_def mem_env_def)
  have node: "(''pod-1'', new_OneOfSystem\<lparr>one_Pod := Some debian_pod\<rparr>) \<in>
      set (entries (lab_NodeList (lab_Spec (plab_Lab (plab_of pods_lab)))))"
    by (simp add: plab_of_def pods_lab_def two_pods_def)
  have sys: "fst (GetSystem (new_OneOfSystem\<lparr>one_Pod := Some debian_pod\<rparr> :: SRCard OneOfSystem)) = Some (SysPod debian_pod)"
    by (simp add: GetSystem_def one_fields_def new_OneOfSystem_def)
  have key: "(''Pod'', ''knl-system'', ''lab1-pod-1'') \<in> node_keys mem_env p ''pod-1'' (SysPod debian_pod :: SRCard System)"
    by (simp add: node_keys_def pod_keys_def Let_def in_lab_def lab pods_lab_def GetPodName_def)
  note all = lab_built [OF mem_env_laws plab_of_laws mem_bitset_laws links(1) ns run bld]
  have "mem_view s' (''Pod'', ''knl-system'', ''lab1-pod-1'') \<noteq> None"
    using bspec [OF all [THEN conjunct2] node] sys key by simp
  moreover have "mem_view s' (lan_key (plab_of pods_lab) ''l'') \<noteq> None" using all links(2) by blast
  ultimately show ?thesis using bld by blast
qed

text \<open>C7
  The \<open>Ensure\<close> methods of the three pod types only ever add objects: whatever the outcome and whatever namespace
  the lab is in, no object of the cluster is changed or removed. After a call that succeeds, a second one changes
  nothing at all; of a general pod this is claimed for labs in the operator's namespace, in which the attachments of its
  addresses are created (they are looked for in the namespace of the lab).
\<close>

theorem pods_ensured_once:
  assumes "env_laws view E" "owner_laws lab" "is_pod sys"
    and "System_Ensure E f lab node sys s = (r, s1)" "System_Ensure E f lab node sys s1 = (r2, s2)"
  shows "(view s k = Some x \<longrightarrow> view s1 k = Some x) \<and>
    ((\<forall>v. sys = SysPod v \<longrightarrow> lab_Namespace (plab_Lab lab) = env_MYNAMESPACE E) \<longrightarrow> ok r \<longrightarrow> view s2 = view s1)"
proof (intro conjI impI)
  note add = pods_additive(4) [OF assms(1-3), of f node]
  show "view s1 k = Some x" if "view s k = Some x"
    by (rule additiveD [OF keepsD [OF add assms(4)] that])
  assume ns: "\<forall>v. sys = SysPod v \<longrightarrow> lab_Namespace (plab_Lab lab) = env_MYNAMESPACE E" and "ok r"
  then have run: "System_Ensure E f lab node sys s = (Inr (), s1)" using assms(4) by (simp add: ok_unit)
  show "view s2 = view s1"
  proof
    fix j
    show "view s2 j = view s1 j"
    proof (cases "j \<in> node_keys E lab node sys")
      case True
      then have "has view j s1" using pods_make [OF assms(1-3) _ True] ns run by (simp add: makes_def)
      then obtain y where "view s1 j = Some y" by (auto simp: has_def)
      then show ?thesis using additiveD [OF keepsD [OF add assms(5)]] by simp
    next
      case False
      then show ?thesis using outsideD [OF keepsD [OF System_outside [OF assms(1,2) order_refl] assms(5)]] by simp
    qed
  qed
qed

lemma debian_ensured: "ok (fst (System_Ensure mem_env False (plab_of pods_lab) ''pod-1'' (SysPod debian_pod) []))"
  by code_simp

theorem pods_ensured_once_witness:
  "\<exists>s1. System_Ensure mem_env False (plab_of pods_lab) ''pod-1'' (SysPod debian_pod) [] = (Inr (), s1) \<and>
    mem_view (snd (System_Ensure mem_env False (plab_of pods_lab) ''pod-1'' (SysPod debian_pod) s1)) = mem_view s1"
proof -
  obtain s1 where run: "System_Ensure mem_env False (plab_of pods_lab) ''pod-1'' (SysPod debian_pod) [] = (Inr (), s1)"
    using debian_ensured by (cases "System_Ensure mem_env False (plab_of pods_lab) ''pod-1'' (SysPod debian_pod) []") (auto simp: ok_unit)
  obtain r2 s2 where again: "System_Ensure mem_env False (plab_of pods_lab) ''pod-1'' (SysPod debian_pod) s1 = (r2, s2)" by fastforce
  have pod: "is_pod (SysPod debian_pod :: SRCard System)" and ns: "lab_Namespace (plab_Lab (plab_of pods_lab)) = env_MYNAMESPACE mem_env"
    by (simp_all add: is_pod_def plab_of_def pods_lab_def mem_env_def)
  from pods_ensured_once [OF mem_env_laws plab_of_laws pod run again] ns have "mem_view s2 = mem_view s1" by simp
  then show ?thesis using run again by simp
qed

section \<open>Pods\<close>

text \<open>C8
  When \<open>Ensure\<close> succeeds for a node of a pod type, a pod of the name of the node has been handed to \<open>createIfNotExistsOrRemove\<close>, with the
  lab as owner: one with the labels of the operator, the lab and the node, all of whose containers run the image of the
  node and mount volumes of the pod, whose claims and config maps exist by then in the lab's namespace, and whose license
  secret is mounted where there is one. A SR Linux or general pod has one container, a SR-SIM one per card with the flash cards in those of the CPM
  cards. Before that only objects that are not pods were touched; at the end a pod of that name owned by the lab is stored.
\<close>

theorem pod_of_node:
  assumes "env_laws view E" "owner_laws lab" "is_pod sys" "System_Ensure E f lab node sys s = (Inr u, s')"
  shows "\<exists>s1 t p. outside view non_pods s s1 \<and> node_pod E lab node sys = Inr t \<and>
    createIfNotExistsOrRemove (env_Client E) lab t True False s1 = (Inr (), s') \<and>
    obj_key t = in_lab lab ''Pod'' (GetPodName (lab_Name (plab_Lab lab)) node) \<and> lab_labels lab node t \<and>
    obj_Body t = PodBody p \<and> pod_complete (view s') lab sys p \<and> node_containers sys (pod_Containers p) \<and>
    (\<exists>x. view s' (obj_key t) = Some x \<and> owned_by lab x)"
proof -
  obtain s1 t where frame: "outside view non_pods s s1" and t: "node_pod E lab node sys = Inr t" "pod_sent E lab t s1 s'"
    using endsE [OF node_pod_ends [OF assms(1-3)] assms(4)] by metis
  note key = node_pod_key [OF t(1)]
  have "view s' k \<noteq> None" if "k \<in> node_keys E lab node sys" "fst k \<noteq> ''NetworkAttachmentDefinition''" for k
    using pods_make [OF assms(1-3) _ that(1)] that(2) assms(4) by (auto simp: makes_def has_def)
  then obtain p where "obj_Body t = PodBody p" "pod_complete (view s') lab sys p" "node_containers sys (pod_Containers p)"
    using node_pod_complete [OF t(1)] by metis
  moreover obtain x where "view s' (obj_key t) = Some x" "owned_by lab x"
    using pod_sent_stored [OF assms(1,2) key t(2)] unfolding key by blast
  ultimately show ?thesis using frame t key node_pod_labels [OF t(1)] unfolding pod_sent_def by blast
qed

theorem pod_of_node_witness:
  "\<exists>s1 x t p. System_Ensure mem_env False (plab_of pods_lab) ''pod-1'' (SysPod debian_pod) [] = (Inr (), s1) \<and>
    mem_view s1 (''Pod'', ''knl-system'', ''lab1-pod-1'') = Some x \<and>
    node_pod mem_env (plab_of pods_lab) ''pod-1'' (SysPod debian_pod) = Inr t \<and> lab_labels (plab_of pods_lab) ''pod-1'' t \<and>
    obj_Body t = PodBody p \<and> map ctr_Name (pod_Containers p) = [''main''] \<and>
    pod_complete (mem_view s1) (plab_of pods_lab) (SysPod debian_pod) p"
proof -
  obtain s1 where run: "System_Ensure mem_env False (plab_of pods_lab) ''pod-1'' (SysPod debian_pod) [] = (Inr (), s1)"
    using debian_ensured by (cases "System_Ensure mem_env False (plab_of pods_lab) ''pod-1'' (SysPod debian_pod) []") (auto simp: ok_unit)
  have key: "in_lab (plab_of pods_lab) ''Pod'' (GetPodName (lab_Name (plab_Lab (plab_of pods_lab))) ''pod-1'') =
      (''Pod'', ''knl-system'', ''lab1-pod-1'')"
    by (simp add: in_lab_def plab_of_def pods_lab_def GetPodName_def)
  have pod: "is_pod (SysPod debian_pod :: SRCard System)" by (simp add: is_pod_def)
  have names: "node_containers (SysPod debian_pod) cs \<longleftrightarrow> map ctr_Name cs = [''main'']" for cs
    by (simp add: node_containers_def)
  from pod_of_node [OF mem_env_laws plab_of_laws pod run, unfolded key names] obtain t p x
    where "node_pod mem_env (plab_of pods_lab) ''pod-1'' (SysPod debian_pod) = Inr t" "lab_labels (plab_of pods_lab) ''pod-1'' t"
      "obj_Body t = PodBody p" "map ctr_Name (pod_Containers p) = [''main'']"
      "pod_complete (mem_view s1) (plab_of pods_lab) (SysPod debian_pod) p"
      "obj_key t = (''Pod'', ''knl-system'', ''lab1-pod-1'')" "mem_view s1 (obj_key t) = Some x"
    by (elim exE conjE) (rule that)
  with run show ?thesis by metis
qed

text \<open>C9
  The network annotation of a pod, split at its commas, has exactly one entry per spoke of the node, in the
  order of the link names and numbered from 1; without spokes there is none. The first container is limited
  to the devices of exactly these spokes. No name with a comma may go into an entry.
\<close>

theorem pod_networks:
  assumes "node_pod E lab node sys = Inr t"
    and "comma_free (pod_item E lab sys) (numbered_spokes lab node)"
  shows "\<exists>ts. list_all2 (\<lambda>(i, spoke) x. pod_item E lab sys i spoke = Inr x) (numbered_spokes lab node) ts \<and>
    (if ts = [] then meta_Annotations (obj_Meta t) = []
     else \<exists>txt. meta_Annotations (obj_Meta t) = [(MultusAnnoKey, txt)] \<and> Split txt '','' = ts) \<and>
    (\<exists>limits. first_limits t = Some limits \<and> fst ` set limits = resource_key (env_K8slan E) lab ` set (node_spokes lab node))"
proof -
  obtain netStr limits where n: "refer_nads (env_K8slan E) lab node (pod_item E lab sys) = Inr (netStr, limits)"
    "meta_Annotations (obj_Meta t) = net_annotation netStr" "first_limits t = Some limits"
    by (rule node_pod_refers [OF assms(1)])
  from refer_nads_split [OF n(1) assms(2)] obtain ts
    where ts: "list_all2 (\<lambda>(i, spoke) x. pod_item E lab sys i spoke = Inr x) (numbered_spokes lab node) ts"
      "if ts = [] then net_annotation netStr = [] else \<exists>txt. net_annotation netStr = [(MultusAnnoKey, txt)] \<and> Split txt '','' = ts"
      "fst ` set limits = resource_key (env_K8slan E) lab ` set (node_spokes lab node)"
    by (elim exE conjE) (rule that)
  show ?thesis
    by (rule exI [of _ ts], unfold n(2), intro conjI ts exI [of _ limits] n(3))
qed

definition wired_lab :: ParsedLab where
  "wired_lab = (plab_of pods_lab)\<lparr>plab_SpokeMap := [(''pod-1'', [(''l1'', [''s1'', ''s2'', ''s3''])])],
     plab_SpokeConnectorMap := map (\<lambda>(s, port). (s, (pod_connector ''pod-1'')\<lparr>con_PortId := port\<rparr>))
       [(''s1'', Some ''1-x1''), (''s2'', None), (''s3'', None)],
     plab_SpokeLinkMap := [(''s1'', ''l1''), (''s2'', ''l1''), (''s3'', ''l1'')]\<rparr>"

lemma wired_spokes: "numbered_spokes wired_lab ''pod-1'' = [(1, ''s1''), (2, ''s2''), (3, ''s3'')]"
  by (simp add: numbered_spokes_def indexed_def node_spokes_def node_spokemap_def wired_lab_def GetSortedKeySlice_def upt_rec)

lemma wired_pod: "ok (node_pod mem_env wired_lab ''pod-1'' (SysSRL (new_SRLinux\<lparr>srl_Image := Some ''srl''\<rparr>)))"
  using wired_spokes
  by (simp add: node_pod_def srl_pod_def refer_nads_def Let_def new_SRLinux_def numbered_spokes_def refer_spoke_def srl_net_def
      split: option.split)

lemma wired_items: "comma_free (pod_item mem_env wired_lab (SysSRL (new_SRLinux\<lparr>srl_Image := Some ''srl''\<rparr>)))
    (numbered_spokes wired_lab ''pod-1'')"
  unfolding wired_spokes by code_simp

theorem pod_networks_witness:
  "\<exists>t txt. node_pod mem_env wired_lab ''pod-1'' (SysSRL (new_SRLinux\<lparr>srl_Image := Some ''srl''\<rparr>)) = Inr t \<and>
    meta_Annotations (obj_Meta t) = [(MultusAnnoKey, txt)] \<and> length (Split txt '','') = 3"
proof -
  let ?sys = "SysSRL (new_SRLinux\<lparr>srl_Image := Some ''srl''\<rparr>)"
  obtain t where t: "node_pod mem_env wired_lab ''pod-1'' ?sys = Inr t" using wired_pod by (auto simp: ok_iff)
  obtain ts where "list_all2 (\<lambda>(i, spoke) x. pod_item mem_env wired_lab ?sys i spoke = Inr x) (numbered_spokes wired_lab ''pod-1'') ts"
    "if ts = [] then meta_Annotations (obj_Meta t) = []
     else \<exists>txt. meta_Annotations (obj_Meta t) = [(MultusAnnoKey, txt)] \<and> Split txt '','' = ts"
    using pod_networks [OF t wired_items] by (elim exE conjE) (rule that)
  moreover from this(1) have "length ts = 3" by (simp add: list_all2_lengthD [symmetric] wired_spokes)
  ultimately show ?thesis using t by (cases "ts = []") auto
qed

section \<open>VMs\<close>

text \<open>C10
  Every VM of an SR OS node has its networks and interfaces paired by name, and the VMs of its cards share out
  the links of the node: if each spoke's port is a card slot, each spoke is the macvtap interface of exactly one VM.
\<close>

theorem vms_share_links:
  assumes "wfmap cards"
    and "\<forall>spoke\<in>set (node_spokes lab node). \<exists>slot\<in>fst ` set cards. spoke_port lab spoke = Some slot"
    and "list_all2 (\<lambda>x vmi. \<exists>lic user passwd. SRVM_getVMI E v ch lab node x lic user passwd = Inr vmi) cards vmis"
  shows "(\<forall>vmi\<in>set vmis. \<exists>spec. vmi_spec vmi = Some spec \<and> paired spec) \<and>
    mset (concat (map vm_links vmis)) = mset (node_spokes lab node)"
  using vms_paired [OF assms(3)] vms_share_spokes [OF assms] by blast

definition sim_env :: "(KObj list, nat \<times> nat list) Env" where
  "sim_env = mem_env\<lparr>env_GConf := bare_config\<lparr>cfg_SFTPSever := Some ''sftp'', cfg_SideCarHookImg := Some ''hook''\<rparr>\<rparr>"

definition sim_card :: SRCard where
  "sim_card = new_card\<lparr>card_SysInfo := Some ''slot=A'', card_ReqCPU := Some (MustParse ''2''),
     card_ReqMemory := Some (MustParse ''4Gi''), card_ListenPorts := Some []\<rparr>"

definition sim_cards :: "SRCard gomap" where
  "sim_cards = [(''1'', sim_card), (''A'', sim_card)]"

definition sim_chassis :: "SRCard SRChassis" where
  "sim_chassis = new_chassis\<lparr>ch_Type := Some SRVMVSIM, ch_Model := Some ''SR-7'', ch_Cards := Some sim_cards\<rparr>"

definition sim_node :: "SRCard SRVM" where
  "sim_node = new_SRVM\<lparr>srvm_Chassis := Some sim_chassis, srvm_Image := Some ''img'', srvm_Dedicate := Some True\<rparr>"

definition sim_lab :: ParsedLab where
  "sim_lab = (plab_of pods_lab)\<lparr>plab_SpokeMap := [(''vsim-1'', [(''l1'', [''s1'', ''s2''])])],
     plab_SpokeConnectorMap := map (\<lambda>s. (s, (pod_connector ''vsim-1'')\<lparr>con_PortId := Some ''1''\<rparr>)) [''s1'', ''s2''],
     plab_SpokeLinkMap := [(''s1'', ''l1''), (''s2'', ''l1'')]\<rparr>"

lemma sim_spokes: "node_spokes sim_lab ''vsim-1'' = [''s1'', ''s2'']"
  by (simp add: node_spokes_def node_spokemap_def sim_lab_def GetSortedKeySlice_def)

lemma sim_ports: "con_PortId (spoke_connector sim_lab ''s1'') = Some ''1''" "con_PortId (spoke_connector sim_lab ''s2'') = Some ''1''"
  by (simp_all add: spoke_connector_def sim_lab_def)

lemma sim_vm: "x \<in> set sim_cards \<Longrightarrow> ok (SRVM_getVMI sim_env sim_node sim_chassis sim_lab ''vsim-1'' x [] [] [])"
  by (auto simp: sim_spokes sim_ports HasPrefix_iff SRVM_getVMI_def sim_cards_def sim_card_def sim_chassis_def sim_node_def sim_env_def new_card_def new_chassis_def
      new_SRVM_def bare_config_def srvm_annotations_def srvm_root_def Let_def port_nics_def)

theorem vms_share_links_witness:
  "\<exists>vmis. list_all2 (\<lambda>x vmi. \<exists>lic user passwd. SRVM_getVMI sim_env sim_node sim_chassis sim_lab ''vsim-1'' x lic user passwd = Inr vmi)
      sim_cards vmis \<and> mset (concat (map vm_links vmis)) = {#''s1'', ''s2''#}"
proof -
  define vmi where "vmi x = projr (SRVM_getVMI sim_env sim_node sim_chassis sim_lab ''vsim-1'' x [] [] [])" for x
  have "SRVM_getVMI sim_env sim_node sim_chassis sim_lab ''vsim-1'' x [] [] [] = Inr (vmi x)" if "x \<in> set sim_cards" for x
    using sim_vm [OF that] by (auto simp: vmi_def ok_iff)
  then have run: "list_all2 (\<lambda>x vmi. \<exists>lic user passwd. SRVM_getVMI sim_env sim_node sim_chassis sim_lab ''vsim-1'' x lic user passwd = Inr vmi)
      sim_cards (map vmi sim_cards)"
    unfolding list_all2_map2 list_all2_same by blast
  have "\<forall>spoke\<in>set (node_spokes sim_lab ''vsim-1''). \<exists>slot\<in>fst ` set sim_cards. spoke_port sim_lab spoke = Some slot"
    by (simp add: sim_spokes spoke_port_def sim_ports sim_cards_def)
  moreover have "wfmap sim_cards" by (simp add: sim_cards_def wfmap_def)
  ultimately show ?thesis using vms_share_links [OF _ _ run] run by (auto simp: sim_spokes)
qed

end
