(* ===== verification/Go_Json.thy ===== *)
theory Go_Json
  imports Go_Encode
begin

text \<open>
  \<open>json.Unmarshal\<close> into a \<open>map[string]string\<close>: white space, \<open>null\<close>, an object of strings, and the
  escapes of a string, a pair of \<open>\u\<close> surrogates included. Reading a printed map gives the map back.
\<close>

section \<open>Strings\<close>

definition u4 :: "string \<Rightarrow> (nat \<times> string) option" where
  "u4 s = (case s of a # b # c # d # r \<Rightarrow>
       (case (hex_val a, hex_val b, hex_val c, hex_val d) of
          (Some i, Some j, Some k, Some l) \<Rightarrow> Some (((i * 16 + j) * 16 + k) * 16 + l, r)
        | _ \<Rightarrow> None)
     | _ \<Rightarrow> None)"

definition utf8 :: "nat \<Rightarrow> string" where
  "utf8 n = map char_of
     (if n < 128 then [n]
      else if n < 2048 then [192 + n div 64, 128 + n mod 64]
      else if n < 65536 then [224 + n div 4096, 128 + n div 64 mod 64, 128 + n mod 64]
      else [240 + n div 262144, 128 + n div 4096 mod 64, 128 + n div 64 mod 64, 128 + n mod 64])"

text \<open>A code unit and what follows it: a surrogate that has no partner reads as the replacement character.\<close>

definition rune :: "nat \<Rightarrow> string \<Rightarrow> nat \<times> string" where
  "rune n s = (if n < 55296 \<or> 57344 \<le> n then (n, s)
     else case s of
        c # e # r \<Rightarrow>
          if c = CHR 92 \<and> e = CHR ''u'' then
            (case u4 r of
               Some (m, r') \<Rightarrow> if n < 56320 \<and> 56320 \<le> m \<and> m < 57344
                              then (65536 + (n - 55296) * 1024 + (m - 56320), r') else (65533, s)
             | None \<Rightarrow> (65533, s))
          else (65533, s)
      | _ \<Rightarrow> (65533, s))"

definition escapes :: "(char \<times> char) list" where
  "escapes = [(CHR 34, CHR 34), (CHR 92, CHR 92), (CHR ''/'', CHR ''/''), (CHR ''b'', CHR 8), (CHR ''f'', CHR 12),
     (CHR ''n'', CHR 10), (CHR ''r'', CHR 13), (CHR ''t'', CHR 9)]"

lemma u4_length: "u4 s = Some (n, r) \<Longrightarrow> length r < length s"
  by (auto simp: u4_def split: list.splits option.splits prod.splits)

lemma rune_length: "length (snd (rune n s)) \<le> length s"
  by (auto simp: rune_def dest!: u4_length split: list.splits option.splits prod.splits)

text \<open>The rest of a string after its opening quote: what it says, and the input after the closing quote.\<close>

function json_str :: "string \<Rightarrow> (string \<times> string) option" where
  "json_str s = (case s of [] \<Rightarrow> None
     | c # r \<Rightarrow>
         if c = CHR 34 then Some ([], r)
         else if c = CHR 92 then
           (case r of [] \<Rightarrow> None
            | e # r1 \<Rightarrow>
                if e = CHR ''u'' then
                  (case u4 r1 of None \<Rightarrow> None
                   | Some (n, r2) \<Rightarrow> map_option (apfst ((@) (utf8 (fst (rune n r2))))) (json_str (snd (rune n r2))))
                else
                  (case map_of escapes e of None \<Rightarrow> None
                   | Some x \<Rightarrow> map_option (apfst ((#) x)) (json_str r1)))
         else if (of_char c :: nat) < 32 then None
         else map_option (apfst ((#) c)) (json_str r))"
  by pat_completeness auto

termination
  by (relation "measure length") (auto dest!: u4_length intro: le_less_trans [OF rune_length] less_SucI)

declare json_str.simps [simp del]

lemma json_str_length: "json_str s = Some (t, r) \<Longrightarrow> length r < length s"
proof (induction "length s" arbitrary: s t r rule: less_induct)
  case less
  obtain c s1 where s: "s = c # s1" using less.prems by (subst (asm) json_str.simps) (auto split: list.splits)
  consider "c = CHR 34" | (uni) e s2 n s3 a where "s1 = e # s2" "u4 s2 = Some (n, s3)" "json_str (snd (rune n s3)) = Some (a, r)"
    | (esc) e s2 a where "s1 = e # s2" "json_str s2 = Some (a, r)" | (plain) a where "json_str s1 = Some (a, r)"
    using less.prems
    by (subst (asm) (2) json_str.simps) (auto simp: s split: list.splits if_splits option.splits prod.splits)
  then show ?case
  proof cases
    case 1
    then show ?thesis using less.prems by (subst (asm) (1) json_str.simps) (simp add: s)
  next
    case uni
    have "length (snd (rune n s3)) < length s"
      using rune_length [of n s3] u4_length [OF uni(2)] by (simp add: s uni(1))
    from less.hyps [OF this uni(3)] this show ?thesis by simp
  next
    case esc
    from less.hyps [OF _ esc(2)] show ?thesis by (simp add: s esc(1))
  next
    case plain
    from less.hyps [OF _ plain] show ?thesis by (simp add: s)
  qed
qed

section \<open>Objects of strings\<close>

definition json_space :: "char \<Rightarrow> bool" where
  "json_space c \<longleftrightarrow> c \<in> {CHR 32, CHR 9, CHR 10, CHR 13}"

definition skip :: "string \<Rightarrow> string" where
  "skip s = dropWhile json_space s"

lemma skip_length: "length (skip s) \<le> length s"
  by (simp add: skip_def length_dropWhile_le)

text \<open>\<open>expect c s\<close>: the input after the character \<open>c\<close>, which spaces may precede.\<close>

definition expect :: "char \<Rightarrow> string \<Rightarrow> string option" where
  "expect c s = (case skip s of d # r \<Rightarrow> if d = c then Some r else None | [] \<Rightarrow> None)"

lemma expect_length: "expect c s = Some r \<Longrightarrow> length r < length s"
  using skip_length [of s] by (auto simp: expect_def split: list.splits if_splits)

text \<open>A member: its key and its value, a string or \<open>null\<close>, which reads as the empty string.\<close>

definition json_value :: "string \<Rightarrow> (string \<times> string) option" where
  "json_value s = (if HasPrefix (skip s) ''null'' then Some ([], drop 4 (skip s))
     else case expect (CHR 34) s of None \<Rightarrow> None | Some r \<Rightarrow> json_str r)"

definition json_member :: "string \<Rightarrow> ((string \<times> string) \<times> string) option" where
  "json_member s = (case expect (CHR 34) s of None \<Rightarrow> None
     | Some s1 \<Rightarrow> (case json_str s1 of None \<Rightarrow> None
     | Some (k, s2) \<Rightarrow> (case expect (CHR '':'') s2 of None \<Rightarrow> None
     | Some s3 \<Rightarrow> (case json_value s3 of None \<Rightarrow> None
     | Some (v, s4) \<Rightarrow> Some ((k, v), s4)))))"

lemma json_value_length: "json_value s = Some (v, r) \<Longrightarrow> length r \<le> length s"
  using skip_length [of s] by (auto simp: json_value_def split: if_splits option.splits dest!: expect_length json_str_length)

lemma json_member_length: "json_member s = Some (kv, r) \<Longrightarrow> length r < length s"
  by (auto simp: json_member_def split: option.splits prod.splits dest!: expect_length json_str_length json_value_length)

function json_members :: "string \<Rightarrow> ((string \<times> string) list \<times> string) option" where
  "json_members s = (case json_member s of None \<Rightarrow> None
     | Some (kv, r) \<Rightarrow> (case expect (CHR '','') r of
         Some r' \<Rightarrow> map_option (apfst ((#) kv)) (json_members r')
       | None \<Rightarrow> map_option (\<lambda>r'. ([kv], r')) (expect (CHR ''}'') r)))"
  by pat_completeness auto

termination
  by (relation "measure length") (auto dest!: json_member_length expect_length)

declare json_members.simps [simp del]

text \<open>A key that occurs twice has its last value.\<close>

definition json_unmarshal_map :: "string \<Rightarrow> string gomap option" where
  "json_unmarshal_map s =
     (if HasPrefix (skip s) ''null'' \<and> skip (drop 4 (skip s)) = [] then Some []
      else case expect (CHR ''{'') s of None \<Rightarrow> None
        | Some s1 \<Rightarrow> (case expect (CHR ''}'') s1 of
            Some s2 \<Rightarrow> if skip s2 = [] then Some [] else None
          | None \<Rightarrow> (case json_members s1 of None \<Rightarrow> None
              | Some (kvs, s2) \<Rightarrow> if skip s2 = [] then Some (fold (\<lambda>(k, v). AList.update k v) kvs []) else None)))"

section \<open>What is printed is read back\<close>

definition ascii :: "string \<Rightarrow> bool" where
  "ascii s \<longleftrightarrow> (\<forall>c\<in>set s. (of_char c :: nat) < 128)"

lemma hex_val_digit: "d < 16 \<Longrightarrow> hex_val (digit_char d) = Some d"
  by (auto simp: hex_val_def Let_def)

lemma json_str_end: "json_str (CHR 34 # s) = Some ([], s)"
  by (subst json_str.simps) simp

lemma json_str_plain: "c \<noteq> CHR 34 \<Longrightarrow> c \<noteq> CHR 92 \<Longrightarrow> 32 \<le> (of_char c :: nat) \<Longrightarrow>
    json_str (c # s) = map_option (apfst ((#) c)) (json_str s)"
  by (subst json_str.simps) simp

lemma json_str_escape: "map_of escapes e = Some x \<Longrightarrow> json_str (CHR 92 # e # s) = map_option (apfst ((#) x)) (json_str s)"
  by (subst json_str.simps) (auto simp: escapes_def split: if_splits)

lemma json_str_unicode:
  assumes "a < 8" "b < 16"
  shows "json_str (CHR 92 # ''u00'' @ [digit_char a, digit_char b] @ s) = map_option (apfst ((#) (char_of (a * 16 + b)))) (json_str s)"
proof -
  have "u4 (''00'' @ [digit_char a, digit_char b] @ s) = Some (a * 16 + b, s)"
    using assms by (simp add: u4_def hex_val_digit) (simp add: hex_val_def)
  moreover have "rune (a * 16 + b) s = (a * 16 + b, s)" using assms by (simp add: rune_def)
  moreover have "utf8 (a * 16 + b) = [char_of (a * 16 + b)]" using assms by (simp add: utf8_def)
  moreover have "map_option (apfst ((@) [x])) m = map_option (apfst ((#) x)) m" for x :: char and m :: "(string \<times> string) option"
    by (cases m) auto
  ultimately show ?thesis by (subst json_str.simps) simp
qed

lemma char_of_escaped: "char_of (34 :: nat) = CHR 34" "char_of (92 :: nat) = CHR 92" "char_of (8 :: nat) = CHR 8" "char_of (9 :: nat) = CHR 9"
    "char_of (10 :: nat) = CHR 10" "char_of (12 :: nat) = CHR 12" "char_of (13 :: nat) = CHR 13"
  by code_simp+

lemma json_str_char:
  assumes "(of_char c :: nat) < 128"
  shows "json_str (json_char c @ s) = map_option (apfst ((#) c)) (json_str s)"
proof -
  define n where "n = (of_char c :: nat)"
  have c: "c = char_of n" by (simp add: n_def)
  have n: "n < 128" using assms by (simp add: n_def)
  consider "n \<in> {34, 92, 8, 9, 10, 12, 13}" | (uni) "n \<notin> {34, 92, 8, 9, 10, 12, 13}" "n < 32 \<or> n = 38 \<or> n = 60 \<or> n = 62"
    | (plain) "n \<notin> {34, 92}" "\<not> n < 32" "n \<notin> {38, 60, 62}" by blast
  then show ?thesis
  proof cases
    case 1
    then have "c \<in> {CHR 34, CHR 92, CHR 8, CHR 9, CHR 10, CHR 12, CHR 13}" by (auto simp: c char_of_escaped)
    then have "\<exists>e. json_char c = [CHR 92, e] \<and> map_of escapes e = Some c"
      by (elim insertE emptyE) (simp_all add: json_char_def escapes_def)
    then show ?thesis by (auto simp: json_str_escape)
  next
    case uni
    then have "json_char c = CHR 92 # ''u00'' @ [digit_char (n div 16), digit_char (n mod 16)]"
      by (auto simp: json_char_def Let_def n_def [symmetric])
    moreover have "n div 16 < 8" "n mod 16 < 16" "char_of (n div 16 * 16 + n mod 16) = c"
      using n by (auto simp: c)
    ultimately show ?thesis using json_str_unicode by simp
  next
    case plain
    then have "json_char c = [c]" by (auto simp: json_char_def Let_def n_def [symmetric])
    moreover have "c \<noteq> CHR 34" "c \<noteq> CHR 92" using plain(1) n_def by auto
    ultimately show ?thesis using plain(2) json_str_plain [of c s] n_def by simp
  qed
qed

lemma json_str_string: "ascii s \<Longrightarrow> json_str (concat (map json_char s) @ CHR 34 # r) = Some (s, r)"
  by (induction s) (simp_all add: ascii_def json_str_end json_str_char)

lemma not_space [simp]: "\<not> json_space (CHR 34)" "\<not> json_space (CHR '':'')" "\<not> json_space (CHR '','')" "\<not> json_space (CHR ''{'')"
  "\<not> json_space (CHR ''}'')"
  by (simp_all add: json_space_def)

lemma expect_here: "\<not> json_space d \<Longrightarrow> expect c (d # s) = (if d = c then Some s else None)"
  by (simp add: expect_def skip_def)

lemma json_member_pair:
  assumes "ascii k" "ascii v"
  shows "json_member (json_pair (k, v) @ r) = Some ((k, v), r)"
  using assms
  by (simp add: json_member_def json_pair_def json_string_def expect_here json_str_string json_value_def skip_def HasPrefix_iff)

lemma json_members_pairs:
  assumes "kvs \<noteq> []" "\<And>k v. (k, v) \<in> set kvs \<Longrightarrow> ascii k \<and> ascii v"
  shows "json_members (Join (map json_pair kvs) '','' @ CHR ''}'' # r) = Some (kvs, r)"
  using assms
proof (induction kvs)
  case (Cons kv kvs)
  obtain k v where kv: "kv = (k, v)" by fastforce
  have one: "json_member (json_pair (k, v) @ s) = Some ((k, v), s)" for s
    by (rule json_member_pair) (use Cons.prems kv in auto)
  show ?case
  proof (cases "kvs = []")
    case True
    then show ?thesis by (subst json_members.simps) (simp add: kv one expect_here)
  next
    case False
    then have "json_members (Join (map json_pair kvs) '','' @ CHR ''}'' # r) = Some (kvs, r)"
      by (intro Cons.IH) (use Cons.prems in auto)
    then show ?thesis using False by (subst json_members.simps) (simp add: kv one expect_here Join_Cons)
  qed
qed simp

lemma map_of_fold_update: "map_of (fold (\<lambda>(k, v). AList.update k v) kvs al) = map_of al ++ map_of (rev kvs)"
  by (induction kvs arbitrary: al) (auto simp: update_conv' map_add_def fun_eq_iff split: option.split)

lemma map_of_rev_distinct: "distinct (map fst kvs) \<Longrightarrow> map_of (rev kvs) = map_of kvs"
  by (rule map_of_eqI) (auto simp: rev_map [symmetric] map_of_eq_None_iff intro!: map_of_is_SomeI dest!: map_of_SomeD)

lemma json_map_read:
  assumes "wfmap m" "\<And>k v. (k, v) \<in> set m \<Longrightarrow> ascii k \<and> ascii v"
  shows "\<exists>m'. json_unmarshal_map (json_map m) = Some m' \<and> map_of m' = map_of m"
proof -
  define val where "val k = (case map_of m k of Some v \<Rightarrow> v | None \<Rightarrow> [])" for k
  define kvs where "kvs = map (\<lambda>k. (k, val k)) (GetSortedKeySlice m)"
  have printed: "json_map m = ''{'' @ Join (map json_pair kvs) '','' @ ''}''" by (simp add: json_map_def kvs_def comp_def val_def)
  have dist: "distinct (map fst kvs)" using assms(1) by (simp add: kvs_def comp_def GetSortedKeySlice_def wfmap_def)
  have vals: "map_of kvs = map_of m"
  proof
    fix k
    show "map_of kvs k = map_of m k"
      unfolding kvs_def map_of_map_restrict
      using map_of_eq_None_iff [of m k] by (cases "map_of m k") (auto simp: restrict_map_def val_def)
  qed
  have plain: "ascii k \<and> ascii v" if "(k, v) \<in> set kvs" for k v
  proof -
    have "map_of m k = Some v" using map_of_is_SomeI [OF dist that] vals by simp
    then show ?thesis using assms(2) map_of_SomeD by metis
  qed
  have "json_unmarshal_map (json_map m) = Some (fold (\<lambda>(k, v). AList.update k v) kvs [])"
  proof (cases kvs)
    case Nil
    then show ?thesis by (simp add: printed json_unmarshal_map_def expect_here skip_def HasPrefix_iff)
  next
    case (Cons kv rest)
    have "json_members (Join (map json_pair kvs) '','' @ ''}'') = Some (kvs, [])"
      using json_members_pairs [of kvs "[]"] plain Cons by simp
    moreover have "\<exists>t. Join (map json_pair kvs) '','' = CHR 34 # t"
      by (cases rest; cases kv) (simp_all add: Cons json_pair_def json_string_def)
    then have "expect (CHR ''}'') (Join (map json_pair kvs) '','' @ ''}'') = None" by (auto simp: expect_here)
    ultimately show ?thesis by (simp add: printed json_unmarshal_map_def expect_here skip_def HasPrefix_iff)
  qed
  moreover have "map_of (fold (\<lambda>(k, v). AList.update k v) kvs []) = map_of m"
    by (simp add: map_of_fold_update map_of_rev_distinct [OF dist] vals)
  ultimately show ?thesis by blast
qed

section \<open>Percent encoding\<close>

lemma hex_val_upper_hex: "d < 16 \<Longrightarrow> hex_val (upper_hex d) = Some d"
  by (simp add: hex_val_def upper_hex_def Let_def)

lemma PathUnescape_plain: "c \<noteq> CHR ''%'' \<Longrightarrow> PathUnescape (c # s) = map_option ((#) c) (PathUnescape s)"
  by (cases "c # s" rule: PathUnescape.cases) auto

lemma PathUnescape_char: "PathUnescape (escape_char c @ s) = map_option ((#) c) (PathUnescape s)"
proof (cases "path_safe c")
  case True
  then have "c \<noteq> CHR ''%''" by (auto simp: path_safe_def)
  then show ?thesis using True by (simp add: escape_char_def PathUnescape_plain)
next
  case False
  have "(of_char c :: nat) < 16 * 16" by simp
  then have "(of_char c :: nat) div 16 < 16" "(of_char c :: nat) mod 16 < 16"
    using less_mult_imp_div_less by (blast, simp)
  then show ?thesis using False by (simp add: escape_char_def Let_def hex_val_upper_hex)
qed

lemma PathUnescape_PathEscape: "PathUnescape (PathEscape s) = Some s"
  by (induction s) (simp_all add: PathEscape_def PathUnescape_char)

end
