(* ===== verification/SideCar.thy ===== *)
theory SideCar
  imports VMBuild Go_Json
begin

text \<open>
  The hook that runs beside each VM before libvirt starts it (kvirtsidecar/main.go): it reads the
  annotations that \<open>getVMI\<close> wrote, writes the configuration of the file server of the VM, and rewrites
  the domain. The parser of the VMI and the parser and printer of the domain are third-party
  packages, hence parameters. Of each libvirt struct the records have the fields the hook reads or
  writes; a field named \<open>Rest\<close> stands for all others.
\<close>

section \<open>Domains\<close>

record DomainCPU =
  dcpu_Mode :: string
  dcpu_Vendor :: string
  dcpu_Model :: string

record DiskTarget =
  tgt_Dev :: string
  tgt_Rest :: string

record DiskSource =
  src_File :: "string option"
  src_Rest :: string

record DiskDriver =
  drv_Type :: string
  drv_ErrorPolicy :: string
  drv_Discard :: string
  drv_Rest :: string

record DomainDisk =
  dsk_Target :: "DiskTarget option"
  dsk_Source :: "DiskSource option"
  dsk_Address :: "string option"
  dsk_Model :: string
  dsk_Driver :: "DiskDriver option"
  dsk_Rest :: string

record DomainInterface =
  dif_Alias :: "string option"
  dif_Model :: "string option"
  dif_Rest :: string

record DomainConsole =
  cns_Alias :: string
  cns_Protocol :: string
  cns_Mode :: string
  cns_Host :: string
  cns_Service :: string
  cns_TLS :: string
  cns_TargetType :: string
  cns_TargetPort :: int

record SMBIOS =
  smb_System :: "(string \<times> string) list option"
  smb_Rest :: string

record SysInfo =
  si_SMBIOS :: "SMBIOS option"
  si_Rest :: string

record OSType =
  ost_Machine :: string
  ost_Rest :: string

record Devices =
  dev_Disks :: "DomainDisk list"
  dev_Controllers :: "string list"
  dev_Interfaces :: "DomainInterface list"
  dev_MemBalloon :: "string option"
  dev_Consoles :: "DomainConsole list"
  dev_Rest :: string

record Domain =
  dom_CPU :: "DomainCPU option"
  dom_SysInfo :: "SysInfo list"
  dom_OS :: "OSType option option"
  dom_Features :: "string option"
  dom_SecLabel :: "string list"
  dom_Devices :: "Devices option"
  dom_Rest :: string

text \<open>The packages the hook calls: the JSON decoder of a VMI, and libvirtxml.\<close>

record SideLib =
  lib_VMI :: "string \<Rightarrow> KObj result"
  lib_Parse :: "string \<Rightarrow> Domain result"
  lib_Print :: "Domain \<Rightarrow> string result"

section \<open>The steps\<close>

definition getTelnetConsole :: "DomainConsole list" where
  "getTelnetConsole = [\<lparr>cns_Alias = ''console0'', cns_Protocol = ''telnet'', cns_Mode = ''bind'', cns_Host = ''0.0.0.0'',
     cns_Service = ''2222'', cns_TLS = ''no'', cns_TargetType = ''virtio'', cns_TargetPort = 0\<rparr>]"

definition ignorePortAliasPrefixList :: "string list" where
  "ignorePortAliasPrefixList = [''vxlandev'', ''macvtapbr'']"

definition with_devices :: "(Devices \<Rightarrow> Devices result) \<Rightarrow> Domain \<Rightarrow> Domain result" where
  "with_devices f d = bindr (deref (dom_Devices d)) (\<lambda>v. bindr (f v) (\<lambda>v. Inr (d\<lparr>dom_Devices := Some v\<rparr>)))"

definition edit_target :: "Devices \<Rightarrow> Devices result" where
  "edit_target v = bindr (at (dev_Disks v) 0) (\<lambda>k. bindr (deref (dsk_Target k)) (\<lambda>t.
     Inr (v\<lparr>dev_Disks := (dev_Disks v)[0 := k\<lparr>dsk_Target := Some (t\<lparr>tgt_Dev := ''hda''\<rparr>)\<rparr>]\<rparr>)))"

definition set_product :: "string \<Rightarrow> (string \<times> string) list \<Rightarrow> (string \<times> string) list" where
  "set_product sysinfo = map (\<lambda>(name, val). (name, if name = ''product'' then sysinfo else val))"

definition edit_sysinfo :: "string \<Rightarrow> Domain \<Rightarrow> Domain result" where
  "edit_sysinfo sysinfo d = bindr (at (dom_SysInfo d) 0) (\<lambda>si. bindr (deref (si_SMBIOS si)) (\<lambda>sm.
     bindr (deref (smb_System sm)) (\<lambda>entry.
       Inr (d\<lparr>dom_SysInfo := (dom_SysInfo d)[0 := si\<lparr>si_SMBIOS := Some (sm\<lparr>smb_System := Some (set_product sysinfo entry)\<rparr>)\<rparr>]\<rparr>))))"

definition edit_machine :: "Domain \<Rightarrow> Domain result" where
  "edit_machine d = bindr (deref (dom_OS d)) (\<lambda>os. bindr (deref os) (\<lambda>t.
     Inr (d\<lparr>dom_OS := Some (Some (t\<lparr>ost_Machine := ''pc''\<rparr>))\<rparr>)))"

definition keep_interface :: "DomainInterface \<Rightarrow> bool" where
  "keep_interface i = (case dif_Alias i of None \<Rightarrow> False
     | Some name \<Rightarrow> name \<noteq> [] \<and> list_all (\<lambda>prefix. \<not> HasPrefix name (''ua-'' @ prefix)) ignorePortAliasPrefixList)"

definition edit_interfaces :: "DomainInterface list \<Rightarrow> DomainInterface list result" where
  "edit_interfaces is = foldm (\<lambda>i rlist.
     if \<not> keep_interface i then Inr rlist
     else bindr (deref (dif_Model i)) (\<lambda>_. Inr (rlist @ [i\<lparr>dif_Model := Some ''virtio''\<rparr>]))) is []"

text \<open>The first disk, and only that one: its file stays, and its format is that of the volume.\<close>

definition edit_disk :: "VMVolume list \<Rightarrow> Devices \<Rightarrow> Devices result" where
  "edit_disk vols v = bindr (at (dev_Disks v) 0) (\<lambda>k. bindr (deref (dsk_Source k)) (\<lambda>src.
     bindr (deref (src_File src)) (\<lambda>diskFile. bindr (deref (dsk_Driver k)) (\<lambda>drv. bindr (at vols 0) (\<lambda>vol.
       let typ = (case vmv_Source vol of ContainerDisk _ \<Rightarrow> ''qcow2'' | _ \<Rightarrow> ''raw'')
       in Inr (v\<lparr>dev_Disks := (dev_Disks v)[0 := k\<lparr>dsk_Source := Some (src\<lparr>src_File := Some diskFile\<rparr>), dsk_Address := None,
            dsk_Model := ''virtio'', dsk_Driver := Some (drv\<lparr>drv_Type := typ, drv_ErrorPolicy := [], drv_Discard := []\<rparr>)\<rparr>]\<rparr>))))))"

definition edit_devices :: "VMVolume list \<Rightarrow> Devices \<Rightarrow> Devices result" where
  "edit_devices vols v =
     bindr (edit_interfaces (dev_Interfaces v)) (\<lambda>is.
     edit_disk vols (v\<lparr>dev_Controllers := [], dev_Interfaces := is, dev_MemBalloon := None, dev_Consoles := getTelnetConsole\<rparr>))"

definition sandy_bridge :: DomainCPU where
  "sandy_bridge = \<lparr>dcpu_Mode = ''custom'', dcpu_Vendor = ''Intel'', dcpu_Model = ''SandyBridge''\<rparr>"

text \<open>All changes to the domain of an SR OS VM, in the order they are made.\<close>

definition edit_domain :: "string \<Rightarrow> VMVolume list \<Rightarrow> Domain \<Rightarrow> Domain result" where
  "edit_domain sysinfo vols d =
     bindr (with_devices edit_target (d\<lparr>dom_CPU := Some sandy_bridge\<rparr>)) (\<lambda>d.
     bindr (edit_sysinfo sysinfo d) (\<lambda>d.
     bindr (edit_machine d) (\<lambda>d.
     with_devices (edit_devices vols) (d\<lparr>dom_Features := None, dom_SecLabel := [''none'']\<rparr>))))"

section \<open>The file server\<close>

definition ftpSvrCfgFilePath :: string where
  "ftpSvrCfgFilePath = ''/tmp/ftpsvrcfg.json''"

definition ftp_config :: "string \<Rightarrow> string \<Rightarrow> string \<Rightarrow> string \<Rightarrow> string" where
  "ftp_config pathMap user passwd host = Join
     [''{'', quoted ''version'' @ '': 1,'', quoted ''listen_address'' @ '': '' @ quoted '':21'' @ '','',
      quoted ''path_map'' @ '': '' @ pathMap @ '','', quoted ''accesses'' @ '': ['', ''{'',
      CHR 9 # quoted ''user'' @ '': '' @ quoted ''ftp'' @ '','', CHR 9 # quoted ''pass'' @ '': '' @ quoted ''ftp'' @ '','',
      CHR 9 # quoted ''fs'' @ '': '' @ quoted ''sftp'' @ '','', CHR 9 # quoted ''params'' @ '': {'',
      CHR 9 # quoted ''username'' @ '': '' @ quoted user @ '','', CHR 9 # quoted ''password'' @ '': '' @ quoted passwd @ '','',
      CHR 9 # quoted ''hostname'' @ '': '' @ quoted host, CHR 9 # ''}'', ''}'', ''],'',
      quoted ''passive_transfer_port_range'' @ '': {'', quoted ''start'' @ '': 2122,'', quoted ''end'' @ '': 2130'', ''}'', ''}'']
     [CHR 10]"

definition annotation :: "string gomap \<Rightarrow> string \<Rightarrow> string result" where
  "annotation as key = (case map_of as key of
      None \<Rightarrow> errf ''can't find %v in VMI's annontation'' [key] | Some v \<Rightarrow> Inr v)"

section \<open>The hook\<close>

definition define_srvm ::
  "'s FileOps \<Rightarrow> string gomap \<Rightarrow> string \<Rightarrow> VMVolume list \<Rightarrow> Domain \<Rightarrow> ('s, Domain) proc" where
  "define_srvm fs as sysinfo vols d =
     bindp (liftp (annotation as SftpSVRAnnontation)) (\<lambda>svr.
     bindp (liftp (annotation as SftpUserAnnontation)) (\<lambda>user.
     bindp (liftp (annotation as SftpPassAnnontation)) (\<lambda>passwd.
     bindp (liftp (annotation as FTPPathMapAnnotation)) (\<lambda>pathMap.
     bindp (liftp (if json_unmarshal_map pathMap = None
       then errf ''failed to unmarshal annontation %v value, %w'' [FTPPathMapAnnotation] else Inr ())) (\<lambda>_.
     bindp (fatal (fs_WriteFile fs ftpSvrCfgFilePath (ftp_config pathMap user passwd svr))) (\<lambda>_.
     liftp (edit_domain sysinfo vols d)))))))"

definition vmi_volumes :: "KObj \<Rightarrow> VMVolume list" where
  "vmi_volumes x = (case obj_Body x of VMIBody spec _ \<Rightarrow> vmi_Volumes spec | _ \<Rightarrow> [])"

definition onDefineDomain :: "SideLib \<Rightarrow> 's FileOps \<Rightarrow> string \<Rightarrow> string \<Rightarrow> ('s, string) proc" where
  "onDefineDomain lib fs vmiJSON domainXML =
     bindp (liftp (lib_VMI lib vmiJSON)) (\<lambda>vmi.
     bindp (wrapp ''failed to unmarsahl using libvirtxml, %w'' [] (liftp (lib_Parse lib domainXML))) (\<lambda>d.
     let as = meta_Annotations (obj_Meta vmi);
         print = (\<lambda>d. wrapp ''failed to marsahl using libvirtxml, %w'' [] (liftp (lib_Print lib d)))
     in case map_of (meta_Labels (obj_Meta vmi)) ChassisTypeAnnotation of
          None \<Rightarrow> liftp (errf ''failed to find %v label'' [ChassisTypeAnnotation])
        | Some vmts \<Rightarrow>
            let vmt = ToLower (TrimSpace vmts) in
            if vmt = SRVMVSIM \<or> vmt = SRVMVSRI \<or> vmt = SRVMMAGC then
              (case map_of as VSROSSysinfoAnno of
                 None \<Rightarrow> retp domainXML
               | Some sysinfo \<Rightarrow> bindp (define_srvm fs as sysinfo (vmi_volumes vmi) d) print)
            else if vmt = VM then
              bindp (liftp (with_devices (\<lambda>v. Inr (v\<lparr>dev_Consoles := getTelnetConsole\<rparr>)) d)) print
            else print d))"

text \<open>
  The command: its exit status and what it prints. The file server is started in the background, and
  whether that fails is only logged.
\<close>

definition sidecar_main ::
  "SideLib \<Rightarrow> 's FileOps \<Rightarrow> (string \<Rightarrow> ('s, unit) proc) \<Rightarrow> string \<Rightarrow> string \<Rightarrow> ('s, nat \<times> string) proc" where
  "sidecar_main lib fs sh vmiJSON domainXML =
     (if vmiJSON = [] \<or> domainXML = [] then retp (1, [])
      else catchp (onDefineDomain lib fs vmiJSON domainXML) (\<lambda>_. retp (1, []))
        (\<lambda>xml. bindp (ignored (sh (''/usr/bin/ftpserver -conf '' @ ftpSvrCfgFilePath @ '' &''))) (\<lambda>_. retp (0, xml))))"

end
