(* ===== verification/Terminal.thy ===== *)
theory Terminal
  imports NodeVMs
begin

text \<open>
  The two operations of a node type that open a session on a node (srvm.go, vmpc.go, srsim.go, srl.go,
  generalpod.go, common.go): \<open>Shell\<close> and \<open>Console\<close>. They look for the pod of the node and replace the
  process by ssh, telnet or kubectl; without a pod they end the process. Both are called from the command
  line, not by the controller. What they print is left out.
\<close>

section \<open>The process\<close>

text \<open>
  What they use of the operating system: finding a program, replacing the process (which returns only
  when it fails), the environment and the home directory; and the address in the status of a pod.
\<close>

record 's OS =
  os_LookPath :: "string \<Rightarrow> string result"
  os_Exec :: "string \<Rightarrow> string list \<Rightarrow> string list \<Rightarrow> ('s, unit) proc"
  os_Environ :: "string list"
  os_Home :: string
  os_PodIP :: "KObj \<Rightarrow> string"

definition SysCallSSH :: "'s OS \<Rightarrow> string \<Rightarrow> string \<Rightarrow> ('s, unit) proc" where
  "SysCallSSH sys username ipaddr = (case os_LookPath sys ''ssh'' of
      Inl _ \<Rightarrow> liftp (Inl (Panic ''os.Exit''))
    | Inr sshPath \<Rightarrow> ignored (os_Exec sys sshPath
        (''ssh'' # Fields (''-o StrictHostKeyChecking=no -o UserKnownHostsFile=/dev/null '' @ username @ ''@'' @ ipaddr))
        (os_Environ sys)))"

definition run_sh :: "'s OS \<Rightarrow> string \<Rightarrow> ('s, unit) proc" where
  "run_sh sys cmd = ignored (os_Exec sys ''/bin/sh'' [''sh'', ''-c'', cmd] [''HOME='' @ os_Home sys])"

section \<open>Finding the pod\<close>

abbreviation vmNameLabel :: string where "vmNameLabel \<equiv> ''vm.kubevirt.io/name''"

text \<open>A list restricted to a namespace and a label; the empty namespace is no restriction.\<close>

definition vm_pods :: "string \<Rightarrow> string \<Rightarrow> KObj list \<Rightarrow> KObj list" where
  "vm_pods ns name = filter (\<lambda>p. (ns = [] \<or> meta_Namespace (obj_Meta p) = ns) \<and>
     map_of (meta_Labels (obj_Meta p)) vmNameLabel = Some name)"

definition find_vm_pod :: "'s Client \<Rightarrow> string \<Rightarrow> string \<Rightarrow> ('s, KObj) proc" where
  "find_vm_pod clnt ns name = bindp (fatal (clnt_List clnt ''Pod'')) (\<lambda>all.
     case vm_pods ns name all of [] \<Rightarrow> liftp (Inl (Panic ''log.Fatal'')) | p # _ \<Rightarrow> retp p)"

definition find_pod :: "'s Client \<Rightarrow> string \<Rightarrow> string \<Rightarrow> string \<Rightarrow> ('s, KObj) proc" where
  "find_pod clnt ns lab node = fatal (clnt_Get clnt ns (GetPodName lab node) (new_obj ''Pod''))"

definition or_admin :: "string \<Rightarrow> string" where
  "or_admin username = (if username = [] then ''admin'' else username)"

section \<open>Shell\<close>

definition SRVM_Shell :: "'s OS \<Rightarrow> 's Client \<Rightarrow> string \<Rightarrow> string \<Rightarrow> string \<Rightarrow> string \<Rightarrow> 'c SRVM \<Rightarrow> ('s, unit) proc" where
  "SRVM_Shell sys clnt ns lab node username gvm =
     bindp (liftp (deref (srvm_Chassis gvm))) (\<lambda>chassis.
     bindp (find_vm_pod clnt ns (GetSRVMCardVMName lab node (GetDefaultCPMSlot chassis))) (\<lambda>pod.
     SysCallSSH sys (or_admin username) (os_PodIP sys pod)))"

text \<open>The user is the one of the node; the one asked for is not used.\<close>

definition GeneralVM_Shell :: "'s OS \<Rightarrow> 's Client \<Rightarrow> string \<Rightarrow> string \<Rightarrow> string \<Rightarrow> string \<Rightarrow> GeneralVM \<Rightarrow> ('s, unit) proc" where
  "GeneralVM_Shell sys clnt ns lab node username gvm =
     bindp (find_vm_pod clnt ns (GetPodName lab node)) (\<lambda>pod.
     bindp (liftp (deref (gvm_Username gvm))) (\<lambda>user.
     SysCallSSH sys user (os_PodIP sys pod)))"

text \<open>SR-SIM and SR Linux.\<close>

definition pod_ssh :: "'s OS \<Rightarrow> 's Client \<Rightarrow> string \<Rightarrow> string \<Rightarrow> string \<Rightarrow> string \<Rightarrow> ('s, unit) proc" where
  "pod_ssh sys clnt ns lab node username =
     bindp (find_pod clnt ns lab node) (\<lambda>pod. SysCallSSH sys (or_admin username) (os_PodIP sys pod))"

definition pod_bash :: "'s OS \<Rightarrow> string \<Rightarrow> string \<Rightarrow> string \<Rightarrow> ('s, unit) proc" where
  "pod_bash sys ns lab node = run_sh sys (''kubectl -n '' @ ns @ '' exec -it '' @ GetPodName lab node @ '' -- bash'')"

definition SRLinux_Shell :: "'s OS \<Rightarrow> 's Client \<Rightarrow> string \<Rightarrow> string \<Rightarrow> string \<Rightarrow> string \<Rightarrow> ('s, unit) proc" where
  "SRLinux_Shell = pod_ssh"

definition SRSim_Shell :: "'s OS \<Rightarrow> 's Client \<Rightarrow> string \<Rightarrow> string \<Rightarrow> string \<Rightarrow> string \<Rightarrow> ('s, unit) proc" where
  "SRSim_Shell = pod_ssh"

definition GeneralPod_Shell :: "'s OS \<Rightarrow> string \<Rightarrow> string \<Rightarrow> string \<Rightarrow> ('s, unit) proc" where
  "GeneralPod_Shell = pod_bash"

definition System_Shell ::
  "'s OS \<Rightarrow> 's Client \<Rightarrow> string \<Rightarrow> string \<Rightarrow> string \<Rightarrow> string \<Rightarrow> 'c System \<Rightarrow> ('s, unit) proc" where
  "System_Shell sys clnt ns lab node username node_type = (case node_type of
      SysVSIM v \<Rightarrow> SRVM_Shell sys clnt ns lab node username v
    | SysVSRI v \<Rightarrow> SRVM_Shell sys clnt ns lab node username v
    | SysMAGC v \<Rightarrow> SRVM_Shell sys clnt ns lab node username v
    | SysVM v \<Rightarrow> GeneralVM_Shell sys clnt ns lab node username v
    | SysSRSIM _ \<Rightarrow> SRSim_Shell sys clnt ns lab node username
    | SysSRL _ \<Rightarrow> SRLinux_Shell sys clnt ns lab node username
    | SysPod _ \<Rightarrow> GeneralPod_Shell sys ns lab node)"

section \<open>Console\<close>

abbreviation SRVMConsoleTCPPort :: int where "SRVMConsoleTCPPort \<equiv> 2222"

definition telnet_vm :: "'s OS \<Rightarrow> 's Client \<Rightarrow> string \<Rightarrow> string \<Rightarrow> ('s, unit) proc" where
  "telnet_vm sys clnt ns name = bindp (find_vm_pod clnt ns name) (\<lambda>pod.
     run_sh sys (''telnet '' @ os_PodIP sys pod @ '' '' @ Itoa SRVMConsoleTCPPort))"

definition SRVM_Console :: "'s OS \<Rightarrow> 's Client \<Rightarrow> string \<Rightarrow> string \<Rightarrow> string \<Rightarrow> 'c SRVM \<Rightarrow> ('s, unit) proc" where
  "SRVM_Console sys clnt ns lab node gvm =
     bindp (liftp (deref (srvm_Chassis gvm))) (\<lambda>chassis.
     telnet_vm sys clnt ns (GetSRVMCardVMName lab node (GetDefaultCPMSlot chassis)))"

definition GeneralVM_Console :: "'s OS \<Rightarrow> 's Client \<Rightarrow> string \<Rightarrow> string \<Rightarrow> string \<Rightarrow> ('s, unit) proc" where
  "GeneralVM_Console sys clnt ns lab node = telnet_vm sys clnt ns (GetPodName lab node)"

definition SRLinux_Console :: "'s OS \<Rightarrow> string \<Rightarrow> string \<Rightarrow> string \<Rightarrow> ('s, unit) proc" where
  "SRLinux_Console = pod_bash"

definition SRSim_Console :: "'s OS \<Rightarrow> string \<Rightarrow> string \<Rightarrow> string \<Rightarrow> ('s, unit) proc" where
  "SRSim_Console = pod_bash"

definition GeneralPod_Console :: "'s OS \<Rightarrow> string \<Rightarrow> string \<Rightarrow> string \<Rightarrow> ('s, unit) proc" where
  "GeneralPod_Console = GeneralPod_Shell"

definition System_Console :: "'s OS \<Rightarrow> 's Client \<Rightarrow> string \<Rightarrow> string \<Rightarrow> string \<Rightarrow> 'c System \<Rightarrow> ('s, unit) proc" where
  "System_Console sys clnt ns lab node node_type = (case node_type of
      SysVSIM v \<Rightarrow> SRVM_Console sys clnt ns lab node v
    | SysVSRI v \<Rightarrow> SRVM_Console sys clnt ns lab node v
    | SysMAGC v \<Rightarrow> SRVM_Console sys clnt ns lab node v
    | SysVM _ \<Rightarrow> GeneralVM_Console sys clnt ns lab node
    | SysSRSIM _ \<Rightarrow> SRSim_Console sys ns lab node
    | SysSRL _ \<Rightarrow> SRLinux_Console sys ns lab node
    | SysPod _ \<Rightarrow> GeneralPod_Console sys ns lab node)"

section \<open>What the sessions reach\<close>

lemma first_CPM_in: "slot \<in> set slots \<Longrightarrow> IsCPM slot \<Longrightarrow> first_CPM slots \<in> set slots \<and> IsCPM (first_CPM slots)"
  by (induction slots) auto

text \<open>
  Each call ranges over the cards of the chassis anew, so in an order of its own: \<open>range_order ro sys\<close> is the node
  type with its cards in the order \<open>ro\<close> gives.
\<close>

definition range_SRVM :: "(SRCard gomap \<Rightarrow> SRCard gomap) \<Rightarrow> SRCard SRVM \<Rightarrow> SRCard SRVM" where
  "range_SRVM ro v = v\<lparr>srvm_Chassis := map_option (\<lambda>ch. ch\<lparr>ch_Cards := map_option ro (ch_Cards ch)\<rparr>) (srvm_Chassis v)\<rparr>"

definition range_order :: "(SRCard gomap \<Rightarrow> SRCard gomap) \<Rightarrow> SRCard System \<Rightarrow> SRCard System" where
  "range_order ro sys = (case sys of SysVSIM v \<Rightarrow> SysVSIM (range_SRVM ro v) | SysVSRI v \<Rightarrow> SysVSRI (range_SRVM ro v)
     | SysMAGC v \<Rightarrow> SysMAGC (range_SRVM ro v) | _ \<Rightarrow> sys)"

lemma range_default_CPM:
  assumes "ok (SRChassis_Validate ch)" "\<And>cards. mset (ro cards) = mset cards"
  defines "slot \<equiv> GetDefaultCPMSlot (ch\<lparr>ch_Cards := map_option ro (ch_Cards ch)\<rparr>)"
  shows "slot \<in> fst ` set (entries (ch_Cards ch)) \<and> IsCPM slot"
proof -
  have same: "set (entries (map_option ro (ch_Cards ch))) = set (entries (ch_Cards ch))"
    using assms(2) by (cases "ch_Cards ch") (auto dest: mset_eq_setD)
  have "''A'' \<in> set (map fst (entries (ch_Cards ch)))" using assms(1) by (simp add: SRChassis_Validate_ok)
  then have "''A'' \<in> set (map fst (entries (map_option ro (ch_Cards ch))))" using same by simp
  moreover have "IsCPM ''A''" by code_simp
  ultimately show ?thesis using first_CPM_in same by (fastforce simp: GetDefaultCPMSlot_def slot_def)
qed

text \<open>The VM a session with a node goes to, for the types that are VMs.\<close>

definition session_vm :: "string \<Rightarrow> string \<Rightarrow> 'c System \<Rightarrow> string option" where
  "session_vm lab node node_type =
     (let srvm = (\<lambda>v. map_option (\<lambda>ch. GetSRVMCardVMName lab node (GetDefaultCPMSlot ch)) (srvm_Chassis v)) in
      case node_type of SysVSIM v \<Rightarrow> srvm v | SysVSRI v \<Rightarrow> srvm v | SysMAGC v \<Rightarrow> srvm v
        | SysVM _ \<Rightarrow> Some (GetPodName lab node) | _ \<Rightarrow> None)"

definition is_VM :: "'c System \<Rightarrow> bool" where
  "is_VM node_type = (case node_type of SysVSIM _ \<Rightarrow> True | SysVSRI _ \<Rightarrow> True | SysMAGC _ \<Rightarrow> True | SysVM _ \<Rightarrow> True | _ \<Rightarrow> False)"

definition session_user :: "string \<Rightarrow> 'c System \<Rightarrow> string" where
  "session_user username node_type = (case node_type of
      SysVM v \<Rightarrow> (case gvm_Username v of Some u \<Rightarrow> u | None \<Rightarrow> []) | _ \<Rightarrow> or_admin username)"

text \<open>KubeVirt starts a pod for each VM and labels it with the name of the VM.\<close>

definition launched :: "('s \<Rightarrow> key \<Rightarrow> KObj option) \<Rightarrow> string \<Rightarrow> 's \<Rightarrow> bool" where
  "launched view ns s \<longleftrightarrow> (\<forall>n. has view (''VirtualMachineInstance'', ns, n) s \<longrightarrow>
     (\<exists>p. view s (obj_key p) = Some p \<and> obj_Kind p = ''Pod'' \<and> meta_Namespace (obj_Meta p) = ns \<and>
       map_of (meta_Labels (obj_Meta p)) vmNameLabel = Some n))"

definition ssh_words :: "string \<Rightarrow> string \<Rightarrow> string list" where
  "ssh_words user ip = [''ssh'', ''-o'', ''StrictHostKeyChecking=no'', ''-o'', ''UserKnownHostsFile=/dev/null''] @
     Fields (user @ ''@'' @ ip)"

lemma ssh_fields:
  "Fields (''-o StrictHostKeyChecking=no -o UserKnownHostsFile=/dev/null '' @ t) =
    [''-o'', ''StrictHostKeyChecking=no'', ''-o'', ''UserKnownHostsFile=/dev/null''] @ Fields t"
  using Fields_word [of "''-o''" "''StrictHostKeyChecking=no -o UserKnownHostsFile=/dev/null '' @ t"]
    Fields_word [of "''StrictHostKeyChecking=no''" "''-o UserKnownHostsFile=/dev/null '' @ t"]
    Fields_word [of "''-o''" "''UserKnownHostsFile=/dev/null '' @ t"] Fields_word [of "''UserKnownHostsFile=/dev/null''" t]
  by (simp add: is_space_def)

lemma SysCallSSH_found:
  assumes "os_LookPath T ''ssh'' = Inr path"
  shows "SysCallSSH T user ip = ignored (os_Exec T path (ssh_words user ip) (os_Environ T))"
  using ssh_fields [of "user @ ''@'' @ ip"] assms by (simp add: SysCallSSH_def ssh_words_def)

lemma find_vm_pod_some:
  assumes "client_laws view clnt" "launched view ns s" "has view (''VirtualMachineInstance'', ns, n) s"
    and "clnt_List clnt ''Pod'' s = (Inr all, s1)"
  shows "\<exists>p. find_vm_pod clnt ns n s = (Inr p, s1) \<and> p \<in> set all \<and> map_of (meta_Labels (obj_Meta p)) vmNameLabel = Some n"
proof -
  obtain q where q: "view s (obj_key q) = Some q" "obj_Kind q = ''Pod''" "meta_Namespace (obj_Meta q) = ns"
    "map_of (meta_Labels (obj_Meta q)) vmNameLabel = Some n"
    using assms(2,3) unfolding launched_def by blast
  have "q \<in> set all" by (rule client_List(2) [OF assms(1,4) refl _ q(1)]) (simp add: obj_key_def q(2))
  then have "q \<in> set (vm_pods ns n all)" using q(3,4) by (simp add: vm_pods_def)
  then obtain p ps where p: "vm_pods ns n all = p # ps" by (cases "vm_pods ns n all") auto
  then have "p \<in> set (vm_pods ns n all)" by simp
  then have "p \<in> set all \<and> map_of (meta_Labels (obj_Meta p)) vmNameLabel = Some n" by (simp add: vm_pods_def)
  moreover have "find_vm_pod clnt ns n s = (Inr p, s1)" by (simp add: find_vm_pod_def fatal_def bindp_def assms(4) p)
  ultimately show ?thesis by blast
qed

lemma ensured_has_VM:
  fixes sys :: "SRCard System"
  assumes "System_Ensure E False lab node sys s0 = (Inr (), s)" "is_VM sys"
  shows "\<exists>n. session_vm ln node sys = Some n" and "sys = SysVM v \<Longrightarrow> \<exists>u. gvm_Username v = Some u"
proof -
  have chassis: "\<exists>ch. srvm_Chassis v = Some ch" if "SRVM_Ensure E v lab node False s0 = (Inr (), s)" for v
    using that by (auto simp: SRVM_Ensure_def Let_def bindp_eq_ok deref_eq_Inr simp del: bindp_retp)
  show "\<exists>n. session_vm ln node sys = Some n"
    using assms chassis by (cases sys) (auto simp: session_vm_def is_VM_def System_Ensure_def)
  assume "sys = SysVM v"
  with assms(1) show "\<exists>u. gvm_Username v = Some u"
    by (auto simp: System_Ensure_def GeneralVM_Ensure_def GeneralVM_getVMI_def Let_def bindp_eq_ok result_simps)
qed

text \<open>The VMs a session may go to: the VM of the node, and of a SR OS node those of its CPM cards.\<close>

definition session_target :: "string \<Rightarrow> string \<Rightarrow> 'c System \<Rightarrow> string \<Rightarrow> bool" where
  "session_target lab node sys n \<longleftrightarrow>
     (let srvm = (\<lambda>v. \<exists>ch. srvm_Chassis v = Some ch \<and>
            (\<exists>slot\<in>fst ` set (entries (ch_Cards ch)). IsCPM slot \<and> n = GetSRVMCardVMName lab node slot))
      in case sys of SysVSIM v \<Rightarrow> srvm v | SysVSRI v \<Rightarrow> srvm v | SysMAGC v \<Rightarrow> srvm v
        | SysVM _ \<Rightarrow> n = GetPodName lab node | _ \<Rightarrow> False)"

lemma session_vm_target:
  assumes "is_VM sys" "\<And>ln. \<exists>n. session_vm ln node sys = Some n"
    and "\<forall>v ch. sys \<in> {SysVSIM v, SysVSRI v, SysMAGC v} \<longrightarrow> srvm_Chassis v = Some ch \<longrightarrow> ok (SRChassis_Validate ch)"
    and "\<And>cards. mset (ro cards) = mset cards"
  shows "\<exists>n. session_vm ln node (range_order ro sys) = Some n \<and> session_target ln node sys n"
proof -
  have cpm: "\<exists>slot\<in>fst ` set (entries (ch_Cards ch)). IsCPM slot \<and>
      GetSRVMCardVMName ln node (GetDefaultCPMSlot (ch\<lparr>ch_Cards := map_option ro (ch_Cards ch)\<rparr>)) = GetSRVMCardVMName ln node slot"
    if "ok (SRChassis_Validate ch)" for ch
    using range_default_CPM [OF that assms(4)] by blast
  show ?thesis
  proof (cases sys)
  case (SysVM v)
  then show ?thesis by (simp add: session_vm_def session_target_def range_order_def)
next
  case (SysVSIM v)
  then obtain ch where ch: "srvm_Chassis v = Some ch" "ok (SRChassis_Validate ch)"
    using assms(2) [of ln] assms(3) by (auto simp: session_vm_def)
  with cpm [OF ch(2)] SysVSIM show ?thesis
    by (simp add: session_vm_def session_target_def range_order_def range_SRVM_def)
next
  case (SysVSRI v)
  then obtain ch where ch: "srvm_Chassis v = Some ch" "ok (SRChassis_Validate ch)"
    using assms(2) [of ln] assms(3) by (auto simp: session_vm_def)
  with cpm [OF ch(2)] SysVSRI show ?thesis
    by (simp add: session_vm_def session_target_def range_order_def range_SRVM_def)
next
  case (SysMAGC v)
  then obtain ch where ch: "srvm_Chassis v = Some ch" "ok (SRChassis_Validate ch)"
    using assms(2) [of ln] assms(3) by (auto simp: session_vm_def)
  with cpm [OF ch(2)] SysMAGC show ?thesis
    by (simp add: session_vm_def session_target_def range_order_def range_SRVM_def)
  qed (use assms(1) in \<open>simp_all add: is_VM_def\<close>)
qed

text \<open>A successful \<open>Ensure\<close> makes the VMs a session may go to.\<close>

lemma session_vm_made:
  fixes sys :: "SRCard System"
  assumes "env_laws view E" "owner_laws lab" "System_Ensure E False lab node sys s0 = (Inr (), s)"
    and "session_target (lab_Name (plab_Lab lab)) node sys n"
  shows "has view (in_lab lab ''VirtualMachineInstance'' n) s"
proof -
  let ?ln = "lab_Name (plab_Lab lab)"
  have srvm: "in_lab lab ''VirtualMachineInstance'' (GetSRVMCardVMName ?ln node slot) \<in> srvm_keys lab node v"
    if "srvm_Chassis v = Some ch" "slot \<in> fst ` set (entries (ch_Cards ch))" for v :: "SRCard SRVM" and ch slot
  proof -
    have "card_keys lab node slot \<subseteq> srvm_keys lab node v" using that unfolding srvm_keys_def by force
    then show ?thesis by (auto simp: card_keys_def Let_def)
  qed
  have mine: "in_lab lab ''VirtualMachineInstance'' n \<in> node_keys E lab node sys"
    using assms(4) srvm by (cases sys) (auto simp: session_target_def node_keys_def Let_def)
  have "sys \<noteq> SysPod v" for v using assms(4) by (auto simp: session_target_def)
  with mine have "makes (has view (in_lab lab ''VirtualMachineInstance'' n)) (System_Ensure E False lab node sys)"
    by (intro System_makes [OF assms(1,2)]) auto
  with assms(3) show ?thesis by (auto simp: makes_def)
qed

lemma range_order_same [simp]: "is_VM (range_order ro sys) = is_VM sys" "session_user user (range_order ro sys) = session_user user sys"
  "range_order ro sys = SysVM v \<longleftrightarrow> sys = SysVM v"
  by (cases sys; simp add: is_VM_def session_user_def range_order_def)+

text \<open>Both sessions with a VM, once its pod is found.\<close>

lemma VM_sessions:
  assumes "is_VM sys" "session_vm lab node sys = Some n" "\<And>v. sys = SysVM v \<Longrightarrow> \<exists>u. gvm_Username v = Some u"
    and "find_vm_pod clnt ns n s = (Inr p, s1)"
  shows "System_Shell T clnt ns lab node user sys s = SysCallSSH T (session_user user sys) (os_PodIP T p) s1"
    and "System_Console T clnt ns lab node sys s = run_sh T (''telnet '' @ os_PodIP T p @ '' '' @ Itoa SRVMConsoleTCPPort) s1"
  using assms
  by (cases sys; fastforce simp: is_VM_def session_vm_def session_user_def System_Shell_def System_Console_def SRVM_Shell_def
      GeneralVM_Shell_def SRVM_Console_def GeneralVM_Console_def telnet_vm_def bindp_def)+

end
