(* ===== verification/Calm.thy ===== *)
theory Calm
  imports NodeEnsure LabController
begin

text \<open>
  Panics of the controller. A panic in a reconciliation is a nil dereference, an index out of range, a
  \<open>Must\<close> function or a failed conversion; none of them is recovered. This theory has a logic for their absence
  (\<open>safely I m P\<close>: from no state with \<open>I\<close> does \<open>m\<close> panic, it leads to one with \<open>I\<close>, and what it returns satisfies \<open>P\<close>) and shows that a lab that
  passed validation, with the fields its node types need (\<open>node_ready\<close>), is reconciled without one.
\<close>

section \<open>Procedures that do not panic\<close>

definition soundly :: "'a result \<Rightarrow> ('a \<Rightarrow> bool) \<Rightarrow> bool" where
  "soundly r P \<longleftrightarrow> (case r of Inr x \<Rightarrow> P x | Inl (Err _) \<Rightarrow> True | Inl (Panic _) \<Rightarrow> False)"

definition safely :: "('s \<Rightarrow> bool) \<Rightarrow> ('s, 'a) proc \<Rightarrow> ('a \<Rightarrow> bool) \<Rightarrow> bool" where
  "safely I m P \<longleftrightarrow> (\<forall>s. I s \<longrightarrow> soundly (fst (m s)) P \<and> I (snd (m s)))"

abbreviation calm :: "('s \<Rightarrow> bool) \<Rightarrow> ('s, 'a) proc \<Rightarrow> bool" where "calm I m \<equiv> safely I m (\<lambda>_. True)"

named_theorems safe \<open>rules for procedures and results that do not panic\<close>

lemma soundly_iff: "soundly r P \<longleftrightarrow> \<not> panics r \<and> (\<forall>x. r = Inr x \<longrightarrow> P x)"
  by (auto simp: soundly_def panics_def split: sum.splits fault.splits)

lemma soundly_simps [simp]: "soundly (Inr x) P \<longleftrightarrow> P x" "soundly (Inl (Err e)) P" "\<not> soundly (Inl (Panic p)) P"
    "soundly (errf f as) P" "soundly (deref q) P \<longleftrightarrow> (\<exists>x. q = Some x \<and> P x)"
  by (simp_all add: soundly_def errf_def deref_def split: option.split)

lemma soundly_wrapf [simp]: "soundly (wrapf f as r) P \<longleftrightarrow> soundly r P"
  by (auto simp: soundly_def wrapf_def split: sum.splits fault.splits)

lemma soundly_bindr [safe]: "soundly r P \<Longrightarrow> (\<And>x. P x \<Longrightarrow> soundly (f x) Q) \<Longrightarrow> soundly (bindr r f) Q"
  by (cases r) (auto simp: soundly_def split: fault.splits)

lemma soundly_ok: "ok r \<Longrightarrow> soundly r (\<lambda>_. True)"
  by (auto simp: ok_iff)

lemma ok_no_panic: "ok r \<Longrightarrow> \<not> panics r"
  by (auto simp: ok_iff)

lemma soundly_deref: "q = Some x \<Longrightarrow> soundly (f x) P \<Longrightarrow> soundly (bindr (deref q) f) P"
  by simp

lemma soundly_with: "soundly r (\<lambda>_. True) \<Longrightarrow> (\<And>x. r = Inr x \<Longrightarrow> P x) \<Longrightarrow> soundly r P"
  by (simp add: soundly_iff)

lemma soundly_weaken: "soundly r P \<Longrightarrow> (\<And>x. P x \<Longrightarrow> Q x) \<Longrightarrow> soundly r Q"
  by (auto simp: soundly_def split: sum.splits fault.splits)

lemma soundly_foldm:
  "(\<And>x b. x \<in> set xs \<Longrightarrow> P b \<Longrightarrow> soundly (f x b) P) \<Longrightarrow> P b \<Longrightarrow> soundly (foldm f xs b) P"
  by (induction xs arbitrary: b) (auto intro!: soundly_bindr)

lemma soundly_mapr: "(\<And>x. x \<in> set xs \<Longrightarrow> soundly (f x) (\<lambda>_. True)) \<Longrightarrow> soundly (mapr f xs) (\<lambda>_. True)"
  by (induction xs) (auto intro!: soundly_bindr [where P = "\<lambda>_. True"])

lemma safely_retp [safe]: "P x \<Longrightarrow> safely I (retp x) P"
  by (simp add: safely_def)

lemma safely_liftp [safe]: "soundly r P \<Longrightarrow> safely I (liftp r) P"
  by (simp add: safely_def)

lemma safelyI: "(\<And>s r t. m s = (r, t) \<Longrightarrow> I s \<Longrightarrow> soundly r P \<and> I t) \<Longrightarrow> safely I m P"
  unfolding safely_def by (metis prod.exhaust_sel)

lemma safelyD: "safely I m P \<Longrightarrow> m s = (r, t) \<Longrightarrow> I s \<Longrightarrow> soundly r P \<and> I t"
  unfolding safely_def by (metis fst_conv snd_conv)

text \<open>The code inspects the result of a call; an error that it sees is no panic.\<close>

lemma safely_cases:
  assumes "safely I m P" and "\<And>e. safely I (h (Err e)) Q" and "\<And>x. P x \<Longrightarrow> safely I (f x) Q"
  shows "safely I (\<lambda>s. case m s of (Inl e, s') \<Rightarrow> h e s' | (Inr x, s') \<Rightarrow> f x s') Q"
proof (rule safelyI)
  fix s r t
  assume run: "(case m s of (Inl e, s') \<Rightarrow> h e s' | (Inr x, s') \<Rightarrow> f x s') = (r, t)" and s: "I s"
  obtain q s' where m: "m s = (q, s')" by fastforce
  note q = safelyD [OF assms(1) m s]
  show "soundly r Q \<and> I t"
  proof (cases q)
    case (Inl e)
    with q obtain g where "e = Err g" by (cases e) auto
    with run m Inl q show ?thesis using safelyD [OF assms(2)] by simp
  next
    case (Inr x)
    with q have "P x" by simp
    from safelyD [OF assms(3) [OF this]] run m Inr q show ?thesis by simp
  qed
qed

lemma safely_bindp:
  assumes "safely I m P" and "\<And>x. P x \<Longrightarrow> safely I (f x) Q"
  shows "safely I (bindp m f) Q"
proof -
  have "bindp m f = (\<lambda>s. case m s of (Inl e, s') \<Rightarrow> (\<lambda>e s. (Inl e, s)) e s' | (Inr x, s') \<Rightarrow> f x s')"
    by (rule ext) (simp add: bindp_def)
  then show ?thesis using safely_cases [OF assms(1) _ assms(2), of "\<lambda>e s. (Inl e, s)"] by (simp add: safely_def)
qed

lemma safely_weaken: "safely I m P \<Longrightarrow> (\<And>x. P x \<Longrightarrow> Q x) \<Longrightarrow> safely I m Q"
  unfolding safely_def by (metis soundly_weaken)

lemma safely_wrapp [safe]: "safely I m P \<Longrightarrow> safely I (wrapp f as m) P"
  by (simp add: safely_def wrapp_def split: prod.split) (metis fst_conv snd_conv)

lemma safely_MakeErr [safe]: "safely I m P \<Longrightarrow> safely I (MakeErr m) P"
  by (simp add: MakeErr_def safely_wrapp)

lemma calm_ignored [safe]: "calm I m \<Longrightarrow> calm I (ignored m)"
  by (simp add: safely_def ignored_def)

lemma safely_catchp:
  assumes "safely I m P" and "\<And>e. safely I (h e) Q" and "\<And>x. P x \<Longrightarrow> safely I (f x) Q"
  shows "safely I (catchp m h f) Q"
proof -
  have "catchp m h f = (\<lambda>s. case m s of (Inl e, s') \<Rightarrow> (\<lambda>e. case e of Panic p \<Rightarrow> (\<lambda>s. (Inl (Panic p), s)) | Err g \<Rightarrow> h (Err g)) e s'
      | (Inr x, s') \<Rightarrow> f x s')"
    by (rule ext) (simp add: catchp_def split: prod.split sum.split fault.split)
  then show ?thesis
    using safely_cases [OF assms(1) _ assms(3), of "\<lambda>e. case e of Panic p \<Rightarrow> (\<lambda>s. (Inl (Panic p), s)) | Err g \<Rightarrow> h (Err g)"] assms(2)
    by simp
qed

lemma calm_eachp: "(\<And>x. x \<in> set xs \<Longrightarrow> calm I (f x)) \<Longrightarrow> calm I (eachp f xs)"
  by (induction xs) (auto intro!: safe safely_bindp)

lemma safely_foldp:
  "(\<And>x b. x \<in> set xs \<Longrightarrow> P b \<Longrightarrow> safely I (f x b) P) \<Longrightarrow> P b \<Longrightarrow> safely I (foldp f xs b) P"
  by (induction xs arbitrary: b) (auto intro!: safe safely_bindp)

lemma safely_if [safe]: "(c \<Longrightarrow> safely I m P) \<Longrightarrow> (\<not> c \<Longrightarrow> safely I n P) \<Longrightarrow> safely I (if c then m else n) P"
  by simp

lemma calm_bindp: "calm I m \<Longrightarrow> (\<And>x. safely I (f x) P) \<Longrightarrow> safely I (bindp m f) P"
  by (rule safely_bindp)

lemma calm_lift: "(\<And>x. r = Inr x \<Longrightarrow> safely I (f x) P) \<Longrightarrow> \<not> panics r \<Longrightarrow> safely I (bindp (liftp r) f) P"
  by (rule safely_bindp [where P = "\<lambda>x. r = Inr x"]) (auto intro!: safe simp: soundly_iff)

lemma safely_deref: "q = Some x \<Longrightarrow> safely I (f x) P \<Longrightarrow> safely I (bindp (liftp (deref q)) f) P"
  by (rule calm_lift) (simp_all add: panics_deref)

section \<open>The cluster\<close>

text \<open>
  What makes the controller panic in the cluster is a LAN without a VNI, which the search for free numbers
  dereferences, and a bridge index too large for a bitset. \<open>numbered x\<close>: the object \<open>x\<close> is neither. The operator
  only writes such objects, so that this is an invariant of the cluster as the operator changes it.
\<close>

definition numbered :: "KObj \<Rightarrow> bool" where
  "numbered x \<longleftrightarrow> (obj_Kind x = ''LAN'' \<longrightarrow> (\<exists>v. lan_VNI (lan_spec x) = Some v \<and> 0 \<le> v \<and> v < 2 ^ 32)) \<and>
     (\<forall>val i. map_of (meta_Labels (obj_Meta x)) BridgeIndexLabelKey = Some val \<longrightarrow> Atoi val = Inr i \<longrightarrow> 0 \<le> i \<and> i < 2 ^ 32)"

text \<open>The numbers of one object are those of another.\<close>

definition same_numbers :: "KObj \<Rightarrow> KObj \<Rightarrow> bool" where
  "same_numbers t x \<longleftrightarrow> obj_Kind x = obj_Kind t \<and> (obj_Kind t = ''LAN'' \<longrightarrow> lan_VNI (lan_spec x) = lan_VNI (lan_spec t)) \<and>
     map_of (meta_Labels (obj_Meta x)) BridgeIndexLabelKey = map_of (meta_Labels (obj_Meta t)) BridgeIndexLabelKey"

lemma same_numbers_numbered: "same_numbers t x \<Longrightarrow> numbered t \<Longrightarrow> numbered x"
  by (simp add: same_numbers_def numbered_def)

lemma same_numbers_finalizer [simp]: "same_numbers x (RemoveFinalizer x fin)" "same_numbers x (AddFinalizer x fin)"
  by (simp_all add: same_numbers_def RemoveFinalizer_def AddFinalizer_def set_finalizers_def lan_spec_def)

text \<open>The calls of the client, over a state with an invariant.\<close>

definition calm_client :: "('s \<Rightarrow> bool) \<Rightarrow> 's Client \<Rightarrow> bool" where
  "calm_client I clnt \<longleftrightarrow>
     (\<forall>ns n t. safely I (clnt_Get clnt ns n t) (\<lambda>x. obj_Kind x = obj_Kind t \<and> numbered x)) \<and>
     (\<forall>t. numbered t \<longrightarrow> safely I (clnt_Create clnt t) (\<lambda>x. obj_Kind x = obj_Kind t \<and> numbered x)) \<and>
     (\<forall>t. numbered t \<or> meta_Name (obj_Meta t) = [] \<longrightarrow> calm I (clnt_Update clnt t)) \<and>
     (\<forall>t. calm I (clnt_Delete clnt t)) \<and>
     (\<forall>k. safely I (clnt_List clnt k) (\<lambda>xs. \<forall>x\<in>set xs. obj_Kind x = k \<and> numbered x))"

definition calm_fs :: "('s \<Rightarrow> bool) \<Rightarrow> 's FileOps \<Rightarrow> bool" where
  "calm_fs I fs \<longleftrightarrow> (\<forall>p q. calm I (fs_Readlink fs p) \<and> calm I (fs_Stat fs p) \<and> calm I (fs_MkdirAll fs p) \<and>
     calm I (fs_Remove fs p) \<and> calm I (fs_Symlink fs p q) \<and> calm I (fs_WriteFile fs p q))"

text \<open>Setting the owner does not panic and leaves the numbers alone.\<close>

definition calm_owner :: "(KObj \<Rightarrow> KObj result) \<Rightarrow> bool" where
  "calm_owner f \<longleftrightarrow> (\<forall>t. soundly (f t) (same_numbers t))"

lemma calm_clientD:
  assumes "calm_client I clnt"
  shows "safely I (clnt_Get clnt ns n t) (\<lambda>x. obj_Kind x = obj_Kind t \<and> numbered x)"
    and "numbered u \<Longrightarrow> safely I (clnt_Create clnt u) (\<lambda>x. obj_Kind x = obj_Kind u \<and> numbered x)"
    and "numbered u \<or> meta_Name (obj_Meta u) = [] \<Longrightarrow> calm I (clnt_Update clnt u)" and "calm I (clnt_Delete clnt u)"
    and "safely I (clnt_List clnt k) (\<lambda>xs. \<forall>x\<in>set xs. obj_Kind x = k \<and> numbered x)"
  using assms unfolding calm_client_def by blast+

lemma calm_Get: "calm_client I clnt \<Longrightarrow> calm I (clnt_Get clnt ns n t)"
  by (rule safely_weaken [OF calm_clientD(1)]) auto

lemma calm_Create: "calm_client I clnt \<Longrightarrow> numbered t \<Longrightarrow> calm I (clnt_Create clnt t)"
  by (rule safely_weaken [OF calm_clientD(2)]) auto

lemma IsOwnedbyLab_calm: "soundly (IsOwnedbyLab x lab) (\<lambda>_. True)"
  by (simp add: IsOwnedbyLab_def Let_def)

lemma safely_set_owner:
  assumes "calm_owner (plab_SetOwnerFunc lab)" "numbered t"
  shows "safely I (set_owner lab needOwner t) numbered"
proof -
  have "soundly (plab_SetOwnerFunc lab t) numbered"
    by (rule soundly_weaken [where P = "same_numbers t"]) (use assms same_numbers_numbered in \<open>auto simp: calm_owner_def\<close>)
  then show ?thesis using assms(2) by (auto simp: set_owner_def intro!: safe)
qed

lemma calm_Err: "calm I (liftp (Inl (Err e)))"
  by (auto intro: safe)

lemma calm_stay [simp]: "calm I (\<lambda>s. (Inr (), s))"
  by (simp add: safely_def)

lemma calm_ensure:
  assumes "calm_client I clnt" "calm_owner (plab_SetOwnerFunc lab)" "numbered t"
  shows "calm I (createIfNotExistsOrRemove clnt lab t needOwner remove)"
  unfolding createIfNotExistsOrRemove_def
proof (rule safely_bindp [OF safely_set_owner [OF assms(2,3)]], rule safely_cases [OF calm_Get [OF assms(1)]])
  fix t and found :: KObj and e
  assume t: "numbered t"
  show "calm I (\<lambda>s. if remove then MakeErr (clnt_Delete clnt found) s
           else if needOwner then MakeErr (liftp (IsOwnedbyLab found lab)) s else (Inr (), s))"
    by (cases remove; cases needOwner) (auto intro!: safe calm_clientD(4) [OF assms(1)] IsOwnedbyLab_calm)
  show "calm I (\<lambda>s. if IsNotFound (Err e) then if remove then (Inr (), s) else MakeErr (bindp (clnt_Create clnt t) (\<lambda>_. retp ())) s
          else MakeErr (liftp (Inl (Err e))) s)"
    by (cases "IsNotFound (Err e)"; cases remove) (auto intro!: safe calm_bindp calm_Create [OF assms(1) t])
qed

lemma calm_recreate:
  assumes "calm_client I clnt" "numbered t" "soundly (chk t) (\<lambda>_. True)"
  shows "calm I (recreateIfFailed clnt chk t)"
  using assms(3)
  by (cases "chk t") (auto simp: recreateIfFailed_def WaitForObjGone_def split: fault.split
      intro!: safe calm_bindp calm_Create [OF assms(1,2)] calm_clientD(4) [OF assms(1)])

lemma calm_ensure_vmi:
  assumes "calm_client I clnt" "calm_owner (plab_SetOwnerFunc lab)" "numbered t"
  shows "calm I (createIfNotExistsOrFailedOrRemove clnt lab t checkVMIfail needOwner remove)"
  unfolding createIfNotExistsOrFailedOrRemove_def
proof (rule safely_bindp [OF safely_set_owner [OF assms(2,3)]], rule safely_cases [OF calm_clientD(1) [OF assms(1)]])
  fix t and found :: KObj and e
  assume t: "numbered t"
  have chk: "soundly (checkVMIfail x) (\<lambda>_. True)" for x by (simp add: checkVMIfail_def split: Body.split)
  note again = calm_recreate [OF assms(1) _ chk]
  show "calm I (\<lambda>s. if IsNotFound (Err e) then if remove then (Inr (), s)
             else bindp (MakeErr (clnt_Create clnt t)) (recreateIfFailed clnt checkVMIfail) s
           else MakeErr (liftp (Inl (Err e))) s)"
    by (cases "IsNotFound (Err e)"; cases remove)
      (auto intro!: safe safely_bindp [OF safely_MakeErr [OF calm_clientD(2) [OF assms(1) t]]] again)
  assume found: "obj_Kind found = obj_Kind t \<and> numbered found"
  show "calm I (\<lambda>s. if remove then MakeErr (clnt_Delete clnt found) s
           else bindp (if needOwner then MakeErr (liftp (IsOwnedbyLab found lab)) else retp ())
                  (\<lambda>_. recreateIfFailed clnt checkVMIfail found) s)"
    by (cases remove) (auto intro!: safe calm_bindp again found [THEN conjunct2] calm_clientD(4) [OF assms(1)] IsOwnedbyLab_calm)
qed

section \<open>Links\<close>

text \<open>What stays of a parsed lab, and where the connectors of its spokes come from.\<close>

definition all_spokes :: "ParsedLab \<Rightarrow> string set" where
  "all_spokes q = (\<Union>m\<in>snd ` set (plab_SpokeMap q). \<Union>ss\<in>snd ` set m. set ss)"

definition wired :: "ParsedLab \<Rightarrow> ParsedLab \<Rightarrow> bool" where
  "wired p q \<longleftrightarrow> plab_Lab q = plab_Lab p \<and> plab_SetOwnerFunc q = plab_SetOwnerFunc p \<and> plab_ConnectorMap q = plab_ConnectorMap p \<and>
     snd ` set (plab_SpokeConnectorMap q) \<subseteq> connectors (entries (lab_LinkList (lab_Spec (plab_Lab p)))) \<and>
     all_spokes q \<subseteq> fst ` set (plab_SpokeConnectorMap q)"

definition links_ok :: "SRCard LabSpec \<Rightarrow> bool" where
  "links_ok spec \<longleftrightarrow> (\<forall>c\<in>connectors (entries (lab_LinkList spec)). good_connector c)"

lemma soundly_alloc: "soundly (alloc bs msg n nxt b) (\<lambda>vs. length vs = n \<and> (\<forall>v\<in>set vs. v \<le> maxVNI))"
  by (induction n arbitrary: nxt) (auto intro!: soundly_bindr split: option.split)

lemma soundly_Set:
  assumes "bitset_laws bv len bs" "0 \<le> i" "i < 2 ^ 32"
  shows "soundly (bs_Set bs (to_uint i) b) (\<lambda>_. True)"
proof -
  have "to_uint i < 2 ^ 32" using assms(2,3) by (simp add: to_uint_def)
  then show ?thesis by (rule soundly_ok [OF bitset_Set_ok [OF assms(1)]])
qed

definition in_range :: "int \<Rightarrow> bool" where
  "in_range v \<longleftrightarrow> 0 \<le> v \<and> v < 2 ^ 32"

lemma safely_VNIs:
  assumes "bitset_laws bv len bs" "calm_client I clnt"
  shows "safely I (GetAvailableVNIs bs clnt n) (\<lambda>vs. \<forall>v\<in>set vs. in_range v)"
  unfolding GetAvailableVNIs_def
proof (intro calm_lift safely_bindp [OF safely_wrapp [OF calm_clientD(5) [OF assms(2)]]])
  show "\<not> panics (bs_Set bs 0 (bs_New bs maxVNI))" by (rule ok_no_panic [OF bitset_Set_ok [OF assms(1)]]) simp
next
  fix b xs
  assume "\<forall>x\<in>set xs. obj_Kind x = ''LAN'' \<and> numbered x"
  then have "soundly (mark_lan bs x b) (\<lambda>_. True)" if "x \<in> set xs" for x b
    using that soundly_Set [OF assms(1)] by (fastforce simp: mark_lan_def numbered_def)
  then have marked: "soundly (foldm (mark_lan bs) xs b) (\<lambda>_. True)" by (auto intro!: soundly_foldm)
  have "soundly (bindr (alloc bs msg n 0 b) (\<lambda>vs. Inr (map int vs))) (\<lambda>vs. \<forall>v\<in>set vs. in_range v)" for msg b
    by (rule soundly_bindr [OF soundly_alloc]) (auto simp: in_range_def)
  then show "safely I (liftp (bindr (foldm (mark_lan bs) xs b) (\<lambda>b.
      bindr (alloc bs ''no available vni to allocate'' n 0 b) (\<lambda>vs. Inr (map int vs))))) (\<lambda>vs. \<forall>v\<in>set vs. in_range v)"
    by (intro safely_liftp soundly_bindr [OF marked])
qed

lemma bridge_indices:
  assumes "bitset_laws bv len bs" "calm_client I clnt"
  shows "safely I (GetAvailableBrIndex bs clnt n) (\<lambda>vs. length vs = n \<and> (\<forall>v\<in>set vs. v \<le> maxVNI))"
  unfolding GetAvailableBrIndex_def
proof (rule calm_lift)
  fix b
  let ?list = "\<lambda>s. case clnt_List clnt ''NetworkAttachmentDefinition'' s of
      (r, s') \<Rightarrow> (map_sum id (filter (\<lambda>x. map_of (meta_Labels (obj_Meta x)) BridgeIndexLabelKey \<noteq> None)) r, s')"
  have "safely I ?list (\<lambda>xs. \<forall>x\<in>set xs. numbered x)"
  proof (rule safelyI)
    fix s r t
    assume run: "?list s = (r, t)" and s: "I s"
    obtain q s' where q: "clnt_List clnt ''NetworkAttachmentDefinition'' s = (q, s')" by fastforce
    from safelyD [OF calm_clientD(5) [OF assms(2)] q s] run q show "soundly r (\<lambda>xs. \<forall>x\<in>set xs. numbered x) \<and> I t"
      by (auto simp: soundly_def split: sum.splits fault.splits)
  qed
  then have listed: "safely I (wrapp ''failed to list net-attach-def, %w'' [] ?list) (\<lambda>xs. \<forall>x\<in>set xs. numbered x)" by (rule safely_wrapp)
  have marked: "soundly (mark_nad bs x b) (\<lambda>_. True)" if "numbered x" for x b
  proof -
    have num: "soundly (Atoi val) (\<lambda>i. 0 \<le> i \<and> i < 2 ^ 32)"
      if "map_of (meta_Labels (obj_Meta x)) BridgeIndexLabelKey = Some val" for val
      using that \<open>numbered x\<close> by (simp add: soundly_iff numbered_def)
    show ?thesis
    proof (cases "map_of (meta_Labels (obj_Meta x)) BridgeIndexLabelKey")
      case (Some val)
      have "soundly (bindr (wrapf f as (Atoi val)) (\<lambda>i. bs_Set bs (to_uint i) b)) (\<lambda>_. True)" for f as
        by (rule soundly_bindr [OF soundly_wrapf [THEN iffD2, OF num [OF Some]]]) (simp add: soundly_Set [OF assms(1)])
      then show ?thesis by (simp add: mark_nad_def Some)
    qed (simp add: mark_nad_def)
  qed
  show "safely I (bindp (wrapp ''failed to list net-attach-def, %w'' [] ?list) (\<lambda>nads.
     liftp (bindr (foldm (mark_nad bs) nads b) (alloc bs ''no available bridge index to allocate'' n 0))))
     (\<lambda>vs. length vs = n \<and> (\<forall>v\<in>set vs. v \<le> maxVNI))"
    by (rule safely_bindp [OF listed], rule safely_liftp, rule soundly_bindr [where P = "\<lambda>_. True"])
      (auto intro: soundly_foldm marked soundly_alloc)
qed (rule ok_no_panic [OF bitset_Set_ok [OF assms(1)]], simp)

lemma update_values: "snd ` set (AList.update k v m) \<subseteq> insert v (snd ` set m)"
  by (induction m) auto

lemma indexed_values: "(i, c) \<in> set (indexed cs) \<Longrightarrow> c \<in> set cs"
  unfolding indexed_def by (rule set_zip_rightD)

lemma wired_refl: "plab_SpokeConnectorMap p = [] \<Longrightarrow> plab_SpokeMap p = [] \<Longrightarrow> wired p p"
  by (simp add: wired_def all_spokes_def)

lemma spokes_of_node:
  assumes "map_of (plab_SpokeMap q) node = Some m" "map_of m l = Some ss"
  shows "set ss \<subseteq> all_spokes q"
proof -
  have "m \<in> snd ` set (plab_SpokeMap q)" "ss \<in> snd ` set m" using assms by (force dest: map_of_SomeD)+
  then show ?thesis by (auto simp: all_spokes_def)
qed

lemma add_spoke_wired:
  assumes "links_ok (lab_Spec (plab_Lab p))" "c \<in> connectors (entries (lab_LinkList (lab_Spec (plab_Lab p))))"
    and "wired p q" "lan_VNI spec = Some v"
  shows "soundly (add_spoke l (i, c) (spec, q)) (\<lambda>(spec, q). wired p q \<and> lan_VNI spec = Some v)"
proof -
  obtain n where n: "con_NodeName c = Some n" using assms(1,2) by (auto simp: links_ok_def good_connector_def)
  have conns: "snd ` set (AList.update (getSpokeName v i) c (plab_SpokeConnectorMap q)) \<subseteq> connectors (entries (lab_LinkList (lab_Spec (plab_Lab p))))"
    using update_values [of "getSpokeName v i" c "plab_SpokeConnectorMap q"] assms(2,3) by (auto simp: wired_def)
  have "all_spokes (q\<lparr>plab_SpokeMap := AList.update n (AList.update l (ss @ [sp]) m) (plab_SpokeMap q),
      plab_SpokeConnectorMap := x, plab_SpokeLinkMap := y\<rparr>) \<subseteq> insert sp (all_spokes q)"
    if m: "m = (case map_of (plab_SpokeMap q) n of Some m \<Rightarrow> m | None \<Rightarrow> [])"
      and ss: "ss = (case map_of m l of Some l \<Rightarrow> l | None \<Rightarrow> [])" for sp x y m ss
  proof -
    have old: "\<Union>(set ` snd ` set m) \<subseteq> all_spokes q"
    proof (cases "map_of (plab_SpokeMap q) n")
      case (Some m')
      then have "m' \<in> snd ` set (plab_SpokeMap q)" by (force dest: map_of_SomeD)
      then show ?thesis using m Some by (auto simp: all_spokes_def)
    qed (simp add: m)
    have "set ss \<subseteq> all_spokes q"
    proof (cases "map_of m l")
      case (Some k)
      then have "k \<in> snd ` set m" by (force dest: map_of_SomeD)
      with old ss Some show ?thesis by auto
    qed (simp add: ss)
    then have "\<Union>(set ` snd ` set (AList.update l (ss @ [sp]) m)) \<subseteq> insert sp (all_spokes q)"
      using old update_values [of l "ss @ [sp]" m] by fastforce
    then show ?thesis
      using update_values [of n "AList.update l (ss @ [sp]) m" "plab_SpokeMap q"] by (fastforce simp: all_spokes_def)
  qed
  note spokes = this [OF refl refl]
  have old: "all_spokes q \<subseteq> fst ` set (plab_SpokeConnectorMap q)" using assms(3) by (simp add: wired_def)
  show ?thesis
    using conns assms(3,4) n
    by (simp add: add_spoke_def wired_def Let_def keys_update subset_trans [OF spokes insert_mono [OF old]])
qed

lemma GetObjMeta_index [simp]: "map_of (meta_Labels (GetObjMeta n l ns node t)) BridgeIndexLabelKey = None"
  by (auto simp: GetObjMeta_def Let_def update_conv')

lemma get_lan_numbered:
  assumes "calm_client I clnt" "cfg_VXLANDefaultDev gconf = Some dev" "in_range vni"
  shows "safely I (get_lan gconf clnt lab l vni) (\<lambda>x. obj_Kind x = ''LAN'' \<and> numbered x)"
proof -
  let ?n = "Getk8lanName (lab_Name lab) l" and ?P = "\<lambda>x. obj_Kind x = ''LAN'' \<and> numbered x"
  have "safely I (\<lambda>s. case clnt_Get clnt (lab_Namespace lab) ?n (new_obj ''LAN'') s of
      (Inl e, s') \<Rightarrow> (\<lambda>e s'. if IsNotFound e then (new_lan gconf lab l vni, s')
        else (wrapf ''unexpected error getting existing LAN %v, %w'' [?n] (Inl e), s')) e s'
    | (Inr x, s') \<Rightarrow> retp x s') ?P"
  proof (rule safely_cases [OF calm_clientD(1) [OF assms(1)]])
    fix e
    have "soundly (new_lan gconf lab l vni) ?P"
      using assms(3) by (simp add: new_lan_def assms(2) Let_def lan_spec_def numbered_def in_range_def)
    then show "safely I (\<lambda>s'. if IsNotFound (Err e) then (new_lan gconf lab l vni, s')
        else (wrapf ''unexpected error getting existing LAN %v, %w'' [?n] (Inl (Err e)), s')) ?P"
      by (simp add: safely_def)
  qed (auto simp: safely_def)
  then show ?thesis
    by (rule arg_cong2 [where f = "safely I", THEN iffD1, rotated 2]) (auto simp: get_lan_def Let_def split: prod.split sum.split)
qed

lemma ensure_link_wired:
  assumes "calm_client I clnt" "cfg_VXLANDefaultDev gconf = Some dev" "calm_owner (plab_SetOwnerFunc p)"
    and "links_ok (lab_Spec (plab_Lab p))" "wired p q" "in_range vni"
  shows "safely I (ensure_link gconf clnt (l, vni) q) (wired p)"
proof -
  let ?links = "entries (lab_LinkList (lab_Spec (plab_Lab p)))"
  let ?cs = "case map_of ?links l of Some l \<Rightarrow> link_Connectors l | None \<Rightarrow> []"
  have lab: "plab_Lab q = plab_Lab p" using assms(5) by (simp add: wired_def)
  have cs: "c \<in> connectors ?links" if "c \<in> set ?cs" for c
  proof (cases "map_of ?links l")
    case (Some k)
    then have "k \<in> snd ` set ?links" by (force dest: map_of_SomeD)
    with that Some show ?thesis by (auto simp: connectors_def)
  qed (use that in simp)
  have spokes: "soundly (foldm (add_spoke l) (indexed ?cs) (spec, q)) (\<lambda>(spec, q). wired p q \<and> lan_VNI spec = Some v)"
    if "lan_VNI spec = Some v" for spec v
  proof (rule soundly_foldm)
    fix x b
    assume x: "x \<in> set (indexed ?cs)" and b: "case b of (spec :: LANSpec, q) \<Rightarrow> wired p q \<and> lan_VNI spec = Some v"
    obtain i c sp q' where xb: "x = (i, c)" "b = (sp, q')" by fastforce
    have v: "wired p q'" "lan_VNI sp = Some v" using b xb(2) by auto
    have "c \<in> connectors ?links" using cs indexed_values x xb(1) by metis
    from add_spoke_wired [OF assms(4) this v]
    show "soundly (add_spoke l x b) (\<lambda>(spec, q). wired p q \<and> lan_VNI spec = Some v)" by (simp add: xb)
  qed (use assms(5) that in simp)
  have create: "safely I (bindp (wrapp f as (createIfNotExistsOrRemove clnt q' t True False)) (\<lambda>_. retp q')) (wired p)"
    if "wired p q'" "numbered t" for f as q' t
    using that assms(3) by (intro safely_bindp [OF safely_wrapp [OF calm_ensure [OF assms(1)]]] safe) (auto simp: wired_def)
  show ?thesis
    unfolding ensure_link_def Let_def lab prod.case
  proof (rule safely_bindp [OF get_lan_numbered [OF assms(1,2,6)]])
    fix lan
    assume lan: "obj_Kind lan = ''LAN'' \<and> numbered lan"
    then obtain v where v: "lan_VNI (lan_spec lan) = Some v" "in_range v" by (auto simp: numbered_def in_range_def)
    have sent: "numbered (lan\<lparr>obj_Body := LANBody spec\<rparr>)" if "lan_VNI spec = Some v" for spec
      using lan v that by (simp add: numbered_def lan_spec_def)
    show "safely I (bindp (liftp (foldm (add_spoke l) (indexed ?cs) (lan_spec lan, q))) (\<lambda>(spec, q').
        bindp (wrapp ''failed to create LAN CR for lab %v link %v, %w'' [lab_Name (plab_Lab p), l]
          (createIfNotExistsOrRemove clnt q' (lan\<lparr>obj_Body := LANBody spec\<rparr>) True False)) (\<lambda>_. retp q'))) (wired p)"
      by (rule safely_bindp [OF safely_liftp [OF spokes [OF v(1)]]]) (auto intro: create sent)
  qed
qed

lemma EnsureLinks_wired:
  assumes "bitset_laws bv len bs" "calm_client I clnt" "cfg_VXLANDefaultDev gconf = Some dev" "calm_owner (plab_SetOwnerFunc p)"
    and "links_ok (lab_Spec (plab_Lab p))" "plab_SpokeConnectorMap p = []" "plab_SpokeMap p = []"
  shows "safely I (EnsureLinks bs gconf clnt p) (wired p)"
  unfolding EnsureLinks_def Let_def
proof (rule safely_bindp [OF safely_wrapp [OF safely_VNIs [OF assms(1,2)]]], rule safely_foldp)
  fix vs x q
  assume "\<forall>v\<in>set vs. in_range v" and x: "x \<in> set (zip (GetSortedKeySlice (entries (lab_LinkList (lab_Spec (plab_Lab p))))) vs)"
    and "wired p q"
  moreover have "snd x \<in> set vs" using x set_zip_rightD [of "fst x" "snd x"] by simp
  ultimately show "safely I (ensure_link gconf clnt x q) (wired p)"
    by (cases x) (simp add: ensure_link_wired [OF assms(2-5)])
qed (rule wired_refl [OF assms(6,7)])

section \<open>The networks of a node\<close>

lemma wired_connector:
  assumes "wired p q"
  shows "spoke_connector q spoke = no_connector \<or> spoke_connector q spoke \<in> connectors (entries (lab_LinkList (lab_Spec (plab_Lab p))))"
proof (cases "map_of (plab_SpokeConnectorMap q) spoke")
  case (Some c)
  then have "c \<in> snd ` set (plab_SpokeConnectorMap q)" by (force dest: map_of_SomeD)
  with assms Some show ?thesis by (auto simp: wired_def spoke_connector_def)
qed (simp add: spoke_connector_def)

lemma wired_addrs:
  assumes "wired p q" "links_ok (lab_Spec (plab_Lab p))"
  shows "s \<in> set (con_Addrs (spoke_connector q spoke)) \<Longrightarrow> ok (ParsePrefix s)"
    and "s \<in> set (con_Routes (spoke_connector q spoke)) \<Longrightarrow> ok (parseRoute s)"
  using wired_connector [OF assms(1), of spoke] assms(2) by (fastforce simp: no_connector_def links_ok_def good_connector_def ok_iff)+

lemma soundly_refer:
  assumes "\<And>i spoke. soundly (item i spoke) (\<lambda>_. True)"
  shows "soundly (refer_nads k lab node item) (\<lambda>_. True)"
  unfolding refer_nads_def
  by (rule soundly_foldm) (auto simp: refer_spoke_def Let_def intro!: soundly_bindr [OF assms])

section \<open>The objects of the nodes\<close>

lemma plain_numbered:
  "obj_Kind t \<noteq> ''LAN'' \<Longrightarrow> map_of (meta_Labels (obj_Meta t)) BridgeIndexLabelKey = None \<Longrightarrow> numbered t"
  by (simp add: numbered_def)

lemma finish_pod_numbered: "numbered (finish_pod (NewBasePod ln node ns img t) spec netStr)"
  by (rule plain_numbered) (simp_all add: finish_pod_def NewBasePod_def Let_def update_conv')

lemma made_numbered:
  "numbered (NewDV ns ln name img cls sz)"
  "idx \<le> maxVNI \<Longrightarrow> numbered (NewFBBridgeNetworkDef ns ln br node t (int idx) mtu)"
proof -
  show "numbered (NewDV ns ln name img cls sz)" by (rule plain_numbered) (simp_all add: NewDV_def)
  assume "idx \<le> maxVNI"
  then have "Atoi (Itoa (int idx)) = Inr (int idx)" by (intro Atoi_Itoa) (simp_all add: int64_min_def int64_max_def)
  with \<open>idx \<le> maxVNI\<close> show "numbered (NewFBBridgeNetworkDef ns ln br node t (int idx) mtu)"
    by (simp add: numbered_def NewFBBridgeNetworkDef_def Let_def update_conv')
qed

lemma new_pvc_numbered: "new_pvc gconf (GetObjMeta n l ns node t) sz = Inr x \<Longrightarrow> numbered x"
  by (rule plain_numbered) (auto simp: new_pvc_def result_simps)

lemma built_numbered:
  "getConfigMapFromSRLChassis yaml srl ns node ln idx = Inr x \<Longrightarrow> numbered x"
  "srl_pod k srl lab node topo etc = Inr x \<Longrightarrow> numbered x"
  "srsim_pod k srsim ch lab node img cs vs = Inr x \<Longrightarrow> numbered x"
  "general_pod k shlex gpod lab node img root = Inr x \<Longrightarrow> numbered x"
  by (rule plain_numbered; auto simp: getConfigMapFromSRLChassis_def Let_def result_simps)
    (auto simp: srl_pod_def srsim_pod_def general_pod_def result_simps Let_def finish_pod_numbered)

lemma VMI_numbered:
  "GeneralVM_getVMI E gvm lab node = Inr x \<Longrightarrow> numbered x"
  "SRVM_getVMI E srvm ch lab node (slot, c) lic u p = Inr x \<Longrightarrow> numbered x"
  by (rule plain_numbered; auto simp: GeneralVM_getVMI_def SRVM_getVMI_def srvm_meta_def Let_def result_simps update_conv')+

lemma soundly_pvc: "cfg_PVCStorageClass gconf = Some c \<Longrightarrow> soundly (new_pvc gconf (GetObjMeta n l ns node t) sz) numbered"
  by (rule soundly_with, simp add: new_pvc_def) (rule new_pvc_numbered)

section \<open>SR Linux and general pods\<close>

text \<open>What an operator must have configured, and what it relies on: the YAML encoders work on the structs they get.\<close>

definition env_calm :: "('s \<Rightarrow> bool) \<Rightarrow> ('b \<Rightarrow> nat \<Rightarrow> bool) \<Rightarrow> ('b \<Rightarrow> nat) \<Rightarrow> ('s, 'b) Env \<Rightarrow> bool" where
  "env_calm I bv len E \<longleftrightarrow> bitset_laws bv len (env_Bitset E) \<and> calm_client I (env_Client E) \<and> calm_fs I (env_FS E) \<and>
     (\<forall>x. ok (env_SrlYaml E x)) \<and> (\<forall>x. ok (env_CloudInitYaml E x)) \<and>
     cfg_PVCStorageClass (env_GConf E) \<noteq> None \<and> cfg_VXLANDefaultDev (env_GConf E) \<noteq> None \<and>
     cfg_SFTPSever (env_GConf E) \<noteq> None \<and> cfg_SideCarHookImg (env_GConf E) \<noteq> None \<and>
     (\<forall>lan spoke ns veth ps rs. numbered (GenNAD (env_K8slan E) lan spoke ns veth ps rs))"

lemma env_calmD:
  assumes "env_calm I bv len E"
  shows "bitset_laws bv len (env_Bitset E)" and "calm_client I (env_Client E)" and "calm_fs I (env_FS E)"
    and "ok (env_SrlYaml E x)" and "ok (env_CloudInitYaml E y)" and "\<exists>c. cfg_PVCStorageClass (env_GConf E) = Some c"
    and "\<exists>c. cfg_VXLANDefaultDev (env_GConf E) = Some c" and "\<exists>c. cfg_SFTPSever (env_GConf E) = Some c"
    and "\<exists>c. cfg_SideCarHookImg (env_GConf E) = Some c" and "numbered (GenNAD (env_K8slan E) lan spoke ns veth ps rs)"
  using assms by (simp_all add: env_calm_def)

lemma calm_env_ensure:
  assumes "env_calm I bv len E" "calm_owner (plab_SetOwnerFunc lab)" "numbered t"
  shows "calm I (createIfNotExistsOrRemove (env_Client E) lab t needOwner remove)"
    and "calm I (createIfNotExistsOrFailedOrRemove (env_Client E) lab t checkVMIfail needOwner remove)"
  by (rule calm_ensure [OF env_calmD(2) [OF assms(1)] assms(2,3)], rule calm_ensure_vmi [OF env_calmD(2) [OF assms(1)] assms(2,3)])

lemma SRLinux_calm:
  assumes "env_calm I bv len E" "calm_owner (plab_SetOwnerFunc lab)" "ok (SRLinux_Validate v)"
  shows "calm I (SRLinux_Ensure E v lab node)"
proof -
  obtain img t ch where v: "srl_Image v = Some img" "srl_Chassis v = Some t" "getSRLChassisViaTypeStr t = Inr ch"
    using assms(3) by (auto simp: SRLinux_Validate_def result_simps split: option.splits if_splits)
  obtain cls where cls: "cfg_PVCStorageClass (env_GConf E) = Some cls" using env_calmD(6) [OF assms(1)] by blast
  have yaml: "soundly (must (env_SrlYaml E x)) (\<lambda>_. True)" for x
    using env_calmD(4) [OF assms(1), of x] by (auto simp: ok_iff)
  have cm: "soundly (getConfigMapFromSRLChassis (env_SrlYaml E) v ns node ln i) numbered" for ns ln i
  proof (rule soundly_with)
    show "soundly (getConfigMapFromSRLChassis (env_SrlYaml E) v ns node ln i) (\<lambda>_. True)"
      using v by (auto simp: getConfigMapFromSRLChassis_def Let_def intro!: soundly_bindr [OF yaml])
  qed (rule built_numbered(1))
  have net: "soundly (srl_net k lab i spoke) (\<lambda>_. True)" for k i spoke
    by (simp add: srl_net_def Let_def split: option.split)
  have pod: "soundly (srl_pod k v lab node topo etc) numbered" for k topo etc
  proof (rule soundly_with)
    show "soundly (srl_pod k v lab node topo etc) (\<lambda>_. True)"
      using v(1) by (auto simp: srl_pod_def intro!: soundly_bindr [OF soundly_refer [OF net]])
  qed (rule built_numbered(2))
  show ?thesis
    unfolding SRLinux_Ensure_def Let_def getEtcPVC_def
    by (intro safely_bindp [OF safely_liftp [OF cm]] safely_bindp [OF safely_liftp [OF pod]]
        safely_bindp [OF safely_liftp [OF soundly_pvc [OF cls]]] calm_bindp safely_wrapp calm_env_ensure [OF assms(1,2)])
qed

lemma GeneralPod_calm:
  assumes "env_calm I bv len E" "calm_owner (plab_SetOwnerFunc lab)" "ok (GeneralPod_Validate X v)"
    and "wired p lab" "links_ok (lab_Spec (plab_Lab p))"
  shows "calm I (GeneralPod_Ensure E v lab node)"
proof -
  obtain img sz where v: "gpod_Image v = Some img" "gpod_PvcSize v = Some sz"
    using assms(3) by (auto simp: GeneralPod_Validate_def split: option.splits if_splits)
  obtain cls where cls: "cfg_PVCStorageClass (env_GConf E) = Some cls" using env_calmD(6) [OF assms(1)] by blast
  have prefix: "soundly (MustParsePrefix s) (\<lambda>_. True)" if "ok (ParsePrefix s)" for s
    using that by (auto simp: ok_iff MustParsePrefix_def)
  have route: "soundly (parsed_route s) (\<lambda>_. True)" if "ok (parseRoute s)" for s
    using that by (auto simp: ok_iff parsed_route_def)
  have nad: "soundly (pod_nad E lab spoke) numbered" for spoke
    unfolding pod_nad_def Let_def
    by (intro soundly_bindr [OF soundly_mapr] prefix route wired_addrs [OF assms(4,5)]) (simp_all add: env_calmD(10) [OF assms(1)])
  have net: "soundly (pod_net k lab i spoke) (\<lambda>_. True)" for k i spoke
    by (simp add: pod_net_def Let_def split: option.split)
  have pod: "soundly (general_pod k sh v lab node im root) numbered" for k sh im root
    by (rule soundly_with [OF _ built_numbered(4)]) (auto simp: general_pod_def intro!: soundly_bindr [OF soundly_refer [OF net]])
  have nads: "calm I (ensure_pod_nad E lab node spoke)" for spoke
    unfolding ensure_pod_nad_def
    by (intro safely_if safely_bindp [OF safely_liftp [OF nad]] safely_wrapp safely_retp calm_env_ensure [OF assms(1,2)] TrueI)
  show ?thesis
    unfolding GeneralPod_Ensure_def Let_def getRootPVC_def
    by (intro safely_deref [OF v(2)] safely_deref [OF v(1)] safely_bindp [OF safely_liftp [OF pod]]
        safely_bindp [OF safely_liftp [OF soundly_pvc [OF cls]]] calm_bindp calm_eachp safely_wrapp nads calm_env_ensure [OF assms(1,2)])
qed

section \<open>General VMs\<close>

text \<open>
  The fields that validation does not ask for and the defaults give; and for each connector with addresses, a
  MAC address and a way to hand the addresses on that works for prefixes.
\<close>

definition vm_ready :: "Link gomap \<Rightarrow> GeneralVM \<Rightarrow> bool" where
  "vm_ready links v \<longleftrightarrow> gvm_PinCPU v \<noteq> None \<and> gvm_HugePage v \<noteq> None \<and> gvm_Username v \<noteq> None \<and> gvm_Password v \<noteq> None \<and>
     gvm_InitMethod v \<noteq> None \<and> gvm_Ports v \<noteq> None \<and>
     (\<forall>c\<in>connectors links. con_Addrs c \<noteq> [] \<longrightarrow> con_Mac c \<noteq> None \<and> gvm_InitMethod v \<noteq> Some InitMethod_IGNITION_NMGR)"

lemma find_connector_sound:
  "\<forall>c\<in>set cs. con_NodeName c \<noteq> None \<Longrightarrow> soundly (find_connector n cs) (\<lambda>r. \<forall>c. r = Some c \<longrightarrow> c \<in> set cs)"
proof (induction cs)
  case (Cons c cs)
  then have "soundly (find_connector n cs) (\<lambda>r. \<forall>d. r = Some d \<longrightarrow> d \<in> set (c # cs))" by (auto elim: soundly_weaken)
  then show ?case using Cons.prems by auto
qed simp

lemma link_connector:
  assumes "links_ok (lab_Spec (plab_Lab lab))"
  shows "soundly (getLinkandConnector lab node l) (\<lambda>r. \<forall>k c. r = Some (k, c) \<longrightarrow> c \<in> connectors (entries (lab_LinkList (lab_Spec (plab_Lab lab)))))"
proof (cases "map_of (entries (lab_LinkList (lab_Spec (plab_Lab lab)))) l")
  case (Some link)
  then have "link \<in> snd ` set (entries (lab_LinkList (lab_Spec (plab_Lab lab))))" by (force dest: map_of_SomeD)
  then have in_lab: "set (link_Connectors link) \<subseteq> connectors (entries (lab_LinkList (lab_Spec (plab_Lab lab))))"
    by (auto simp: connectors_def)
  then have named: "\<forall>c\<in>set (link_Connectors link). con_NodeName c \<noteq> None" using assms by (auto simp: links_ok_def good_connector_def)
  show ?thesis
    unfolding getLinkandConnector_def Some option.case
    by (rule soundly_bindr [OF find_connector_sound [OF named]]) (use in_lab in auto)
qed (simp add: getLinkandConnector_def)

lemma gvm_link_sound:
  assumes "vm_ready (entries (lab_LinkList (lab_Spec (plab_Lab lab)))) v" "gvm_InitMethod v = Some way"
    and "links_ok (lab_Spec (plab_Lab lab))"
  shows "soundly (gvm_link E way lab node l b) (\<lambda>_. True)"
proof -
  obtain i ign cfg where b: "b = (i, ign, cfg)" by (cases b) auto
  have conn: "soundly (AddConnector nic c cfg) (\<lambda>_. True)"
    if "c \<in> connectors (entries (lab_LinkList (lab_Spec (plab_Lab lab))))" "con_Addrs c \<noteq> []" for nic c
  proof -
    have "con_Mac c \<noteq> None" using assms(1) that unfolding vm_ready_def by blast
    then obtain mac where "con_Mac c = Some mac" by blast
    moreover have "good_connector c" using assms(3) that(1) by (simp add: links_ok_def)
    ultimately show ?thesis using AddConnector_eq [of c mac nic cfg] by auto
  qed
  show ?thesis
    unfolding gvm_link_def b prod.case
  proof (rule soundly_bindr [OF link_connector [OF assms(3)]])
    fix r
    assume r: "\<forall>k c. r = Some (k, c) \<longrightarrow> c \<in> connectors (entries (lab_LinkList (lab_Spec (plab_Lab lab))))"
    then have "way \<noteq> InitMethod_IGNITION_NMGR" if "r = Some (k, c)" "con_Addrs c \<noteq> []" for k c
      using assms(1,2) that by (auto simp: vm_ready_def)
    with r show "soundly (case r of None \<Rightarrow> Inr (i, ign, cfg) | Some (_, c) \<Rightarrow>
         if con_Addrs c = [] then Inr (i + 1, ign, cfg)
         else if way = InitMethod_IGNITION_NMGR then
           bindr (ignition_lines (env_PrefixString E) (env_AddrString E) c) (\<lambda>(v4addrstr, v6addstr).
             bindr (deref (con_Mac c)) (\<lambda>mac.
               Inr (i + 1, ign\<lparr>ign_Files := ign_Files ign @
                   [(''/etc/NetworkManager/system-connections/static-'' @ Itoa (i + 1) @ ''.nmconnection'',
                     encodeDataURL (nm_file (i + 1) mac v4addrstr v6addstr))]\<rparr>, cfg)))
         else if way = InitMethod_CLOUDINIT then
           bindr (AddConnector (''nic'' @ Itoa (i + 1)) c cfg) (\<lambda>netcfg. Inr (i + 1, ign, netcfg))
         else Inr (i + 1, ign, cfg)) (\<lambda>_. True)"
      by (auto split: option.split intro!: soundly_bindr [OF conn])
  qed
qed

lemma GeneralVM_calm:
  assumes "env_calm I bv len E" "calm_owner (plab_SetOwnerFunc lab)" "ok (GeneralVM_Validate v)"
    and "vm_ready (entries (lab_LinkList (lab_Spec (plab_Lab lab)))) v" "links_ok (lab_Spec (plab_Lab lab))"
  shows "calm I (GeneralVM_Ensure E v lab node f)"
proof -
  obtain img cpu where v: "gvm_Image v = Some img" "gvm_ReqCPU v = Some cpu"
    using assms(3) by (auto simp: GeneralVM_Validate_def split: if_splits)
  obtain pin huge passwd user way ports where r: "gvm_PinCPU v = Some pin" "gvm_HugePage v = Some huge"
    "gvm_Password v = Some passwd" "gvm_Username v = Some user" "gvm_InitMethod v = Some way" "gvm_Ports v = Some ports"
    using assms(4) by (auto simp: vm_ready_def)
  obtain hook where hook: "cfg_SideCarHookImg (env_GConf E) = Some hook" using env_calmD(9) [OF assms(1)] by blast
  have yaml: "soundly (must (env_CloudInitYaml E x)) (\<lambda>_. True)" for x
    using env_calmD(5) [OF assms(1), of x] by (auto simp: ok_iff)
  have links: "soundly (foldm (gvm_link E way lab node) ls b) (\<lambda>_. True)" for ls b
    by (rule soundly_foldm) (simp_all add: gvm_link_sound [OF assms(4) r(5) assms(5)])
  have init: "soundly (gvm_init_volume E way user passwd ign cfg) (\<lambda>_. True)" for ign cfg
    by (auto simp: gvm_init_volume_def intro!: soundly_bindr [OF yaml])
  have "soundly (GeneralVM_getVMI E v lab node) (\<lambda>_. True)"
    unfolding GeneralVM_getVMI_def Let_def split_def
    by (intro soundly_deref [OF hook] soundly_deref [OF v(2)] soundly_deref [OF r(1)] soundly_deref [OF r(2)] soundly_deref [OF r(3)]
        soundly_deref [OF r(4)] soundly_deref [OF r(5)] soundly_deref [OF r(6)] soundly_bindr [OF links]
        soundly_bindr [OF init]) simp
  then have vmi: "soundly (GeneralVM_getVMI E v lab node) numbered" by (rule soundly_with [OF _ VMI_numbered(1)])
  show ?thesis
    unfolding GeneralVM_Ensure_def Let_def
    by (intro safely_deref [OF v(1)] safely_bindp [OF safely_liftp [OF vmi]] calm_bindp safely_wrapp safely_MakeErr
        calm_env_ensure [OF assms(1,2)] made_numbered(1))
qed

section \<open>SR OS VMs\<close>

text \<open>
  The fields of cards that the webhook fills in, the loaders for images from the file server, and a port for
  each connector of the lab.
\<close>

definition card_ready :: "SRCard \<Rightarrow> bool" where
  "card_ready c \<longleftrightarrow> card_SysInfo c \<noteq> None \<and> card_ReqCPU c \<noteq> None \<and> card_ReqMemory c \<noteq> None \<and> card_ListenPorts c \<noteq> None"

definition srvm_ready :: "SRCard KNLConfigSpec \<Rightarrow> Link gomap \<Rightarrow> SRCard SRVM \<Rightarrow> bool" where
  "srvm_ready gconf links v \<longleftrightarrow>
     (\<forall>ch. srvm_Chassis v = Some ch \<longrightarrow> (\<forall>(slot, c)\<in>set (entries (ch_Cards ch)). card_ready c)) \<and>
     (\<forall>img. srvm_Image v = Some img \<longrightarrow> HasPrefix img FTPImagePrefix \<longrightarrow>
        cfg_SRCPMLoaderImage gconf \<noteq> None \<and> cfg_SRIOMLoaderImage gconf \<noteq> None) \<and>
     (\<forall>c\<in>connectors links. con_PortId c \<noteq> None)"

lemma calm_fsD:
  assumes "calm_fs I fs"
  shows "calm I (fs_Readlink fs p)" and "calm I (fs_Stat fs p)" and "calm I (fs_MkdirAll fs p)" and "calm I (fs_Symlink fs p q)"
    and "calm I (fs_WriteFile fs p q)" and "calm I (fs_Remove fs p)"
  using assms by (simp_all add: calm_fs_def)

lemma node_spokes_all: "set (node_spokes q node) \<subseteq> all_spokes q"
proof (cases "map_of (plab_SpokeMap q) node")
  case (Some m)
  show ?thesis
    using subsetD [OF spokes_of_node [OF Some]] by (auto simp: node_spokes_def node_spokemap_def Some split: option.splits dest!: sym [of "Some _"])
next
  case None
  then have "node_spokes q node = concat (map (\<lambda>_. []) (GetSortedKeySlice ([] :: string list gomap)))"
    by (simp add: node_spokes_def node_spokemap_def)
  then show ?thesis by simp
qed

lemma port_nics_sound:
  assumes "wired p q" "\<forall>c\<in>connectors (entries (lab_LinkList (lab_Spec (plab_Lab p)))). con_PortId c \<noteq> None"
  shows "soundly (port_nics k q node slot) (\<lambda>_. True)"
proof -
  have port: "\<exists>port. con_PortId (spoke_connector q spoke) = Some port" if "spoke \<in> set (node_spokes q node)" for spoke
  proof -
    have "spoke \<in> fst ` set (plab_SpokeConnectorMap q)" using that node_spokes_all assms(1) unfolding wired_def by blast
    then obtain c where c: "map_of (plab_SpokeConnectorMap q) spoke = Some c" by (metis map_of_eq_None_iff not_None_eq)
    then have "c \<in> snd ` set (plab_SpokeConnectorMap q)" by (force dest: map_of_SomeD)
    with assms c show ?thesis by (auto simp: wired_def spoke_connector_def)
  qed
  have one: "soundly (bindr (deref (con_PortId (spoke_connector q spoke))) g) (\<lambda>_. True)"
    if "spoke \<in> set (node_spokes q node)" "\<And>port. soundly (g port) (\<lambda>_. True)" for spoke and g :: "string \<Rightarrow> (Network \<times> Interface) list result"
    using port [OF that(1)] that(2) by auto
  show ?thesis
    unfolding port_nics_def by (intro soundly_bindr [OF soundly_mapr] one) simp_all
qed

lemma SRVM_getVMI_sound:
  assumes "env_calm I bv len E" "srvm_Image v = Some img" "srvm_Dedicate v = Some ded" "ch_Type ch = Some t" "card_ready c"
    and "HasPrefix img FTPImagePrefix \<longrightarrow> cfg_SRIOMLoaderImage (env_GConf E) \<noteq> None"
    and "wired p q" "\<forall>c\<in>connectors (entries (lab_LinkList (lab_Spec (plab_Lab p)))). con_PortId c \<noteq> None"
  shows "soundly (SRVM_getVMI E v ch q node (slot, c) lic u pw) numbered"
proof (rule soundly_with [OF _ VMI_numbered(2)])
  obtain info cpu memory ports where c: "card_SysInfo c = Some info" "card_ReqCPU c = Some cpu" "card_ReqMemory c = Some memory"
    "card_ListenPorts c = Some ports" using assms(5) by (auto simp: card_ready_def)
  have annos: "soundly (srvm_annotations (env_GConf E) t l node slot c lic u pw) (\<lambda>_. True)" for l
    using env_calmD(8,9) [OF assms(1)] c(1) by (auto simp: srvm_annotations_def Let_def)
  have root: "soundly (srvm_root (env_GConf E) (srvm_Image v) l node slot) (\<lambda>_. True)" for l
    using assms(2,6) by (auto simp: srvm_root_def)
  have half: "soundly (if ded then Inr None else bindr (deref (card_ReqMemory c)) (\<lambda>mem. Inr (Some (env_Half E mem)))) (\<lambda>_. True)"
    using c(3) by simp
  show "soundly (SRVM_getVMI E v ch q node (slot, c) lic u pw) (\<lambda>_. True)"
    unfolding SRVM_getVMI_def Let_def prod.case
    by (intro soundly_deref [OF assms(4)] soundly_bindr [OF annos] soundly_deref [OF assms(3)] soundly_deref [OF c(2)]
        soundly_bindr [OF half] soundly_bindr [OF root] soundly_deref [OF c(4)] soundly_deref [OF c(1)]
        soundly_bindr [OF port_nics_sound [OF assms(7,8)]]) simp
qed

lemma SRVM_calm:
  assumes env: "env_calm I bv len E" and own: "calm_owner (plab_SetOwnerFunc q)" and valid: "ok (SRVM_Validate X v links node)"
    and ready: "srvm_ready (env_GConf E) (entries (lab_LinkList (lab_Spec (plab_Lab p)))) v" and wired: "wired p q"
  shows "calm I (SRVM_Ensure E v q node f)"
proof -
  obtain ch img lic ded where v: "srvm_Chassis v = Some ch" "srvm_Image v = Some img" "srvm_License v = Some lic"
    "srvm_Dedicate v = Some ded" "ok (SRChassis_Validate ch)"
    using valid by (auto simp: SRVM_Validate_def ok_bindr split: option.splits if_splits)
  obtain t model where ch: "ch_Type ch = Some t" "ch_Model ch = Some model" using v(5) by (auto simp: SRChassis_Validate_ok)
  note fs = calm_fsD [OF env_calmD(3) [OF env]] and mk = calm_env_ensure [OF env own] and get = calm_Get [OF env_calmD(2) [OF env]]
  have loaders: "HasPrefix img FTPImagePrefix \<longrightarrow> cfg_SRCPMLoaderImage (env_GConf E) \<noteq> None \<and> cfg_SRIOMLoaderImage (env_GConf E) \<noteq> None"
    and ports: "\<forall>c\<in>connectors (entries (lab_LinkList (lab_Spec (plab_Lab p)))). con_PortId c \<noteq> None"
    using ready v(2) by (auto simp: srvm_ready_def)
  have fabric: "calm I (srvm_fabric E ch q node f ix)"
    if ix: "length ix = (if fst (ParseSRVMName_New node) = SRVMMAGC then 2 else 1) \<and> (\<forall>i\<in>set ix. i \<le> maxVNI)" for ix
  proof -
    have index: "soundly (at ix i) (\<lambda>i. i \<le> maxVNI)" if "i < length ix" for i
      using ix that by (simp add: at_def)
    have one: "calm I (bindp (liftp (deref (ch_Type ch))) (\<lambda>typ. bindp (liftp (at ix i)) (\<lambda>idx. MakeErr
        (createIfNotExistsOrRemove (env_Client E) q (NewFBBridgeNetworkDef ns ln br node typ (int idx) SRVMFBMTU) True f))))"
      if "i < length ix" for i ns ln br
      by (intro safely_deref [OF ch(1)] safely_bindp [OF safely_liftp [OF index [OF that]]] safely_MakeErr mk made_numbered(2))
    show ?thesis
      unfolding srvm_fabric_def Let_def
      by (intro safely_deref [OF ch(2)] safely_if safely_retp TrueI calm_bindp one) (use ix in \<open>auto split: if_splits\<close>)
  qed
  have link: "calm I (ReCreateSymLink (env_FS E) l n sub)" for l n sub
    unfolding ReCreateSymLink_def Let_def by (intro calm_bindp safe fs)
  have release: "calm I (srvm_release E v l node)" for l
    unfolding srvm_release_def Let_def
    by (intro calm_bindp safe safely_catchp [OF fs(1)] link TrueI) (simp add: v)
  have folder: "calm I (srvm_cfg_folder (env_FS E) l node)" for l
    unfolding srvm_cfg_folder_def Let_def by (intro safely_catchp [OF fs(2)] safe fs TrueI)
  have image: "soundly (if HasPrefix img FTPImagePrefix
      then bindr (deref (cfg_SRCPMLoaderImage (env_GConf E))) (\<lambda>loader. Inr (''docker://'' @ loader, Some (MustParse ''64Mi'')))
      else Inr (''docker://'' @ img, srvm_DiskSize v)) (\<lambda>_. True)"
    using loaders by auto
  have cpm: "calm I (srvm_cpm E v q node f slot)" for slot
    unfolding srvm_cpm_def Let_def split_def
    by (intro safely_deref [OF v(3)] safely_deref [OF v(2)] safely_bindp [OF safely_liftp [OF image]] calm_bindp safely_wrapp safely_MakeErr
        safely_retp get fs mk made_numbered(1) TrueI)
  have card: "calm I (srvm_card E v ch q node f x b)" if "x \<in> set (entries (ch_Cards ch))" for x b
  proof -
    obtain slot c where x: "x = (slot, c)" by fastforce
    have "card_ready c" using ready v(1) that unfolding x srvm_ready_def by fastforce
    then have vmi: "soundly (SRVM_getVMI E v ch q node (slot, c) l u pw) numbered" for l u pw
      by (rule SRVM_getVMI_sound [OF env v(2,4) ch(1) _ _ wired ports]) (use loaders in simp)
    show ?thesis
      unfolding x srvm_card_def prod.case
      by (intro safely_bindp [OF safely_liftp [OF vmi]] calm_bindp safely_if safely_MakeErr safely_retp cpm get mk TrueI)
  qed
  show ?thesis
    unfolding SRVM_Ensure_def Let_def
    by (intro safely_bindp [OF safely_MakeErr [OF safely_wrapp [OF bridge_indices [OF env_calmD(1,2) [OF env]]]]]
        safely_deref [OF v(1)] calm_bindp fabric release folder safely_foldp card safe TrueI)
qed

section \<open>SR-SIM\<close>

text \<open>Names of line-card slots are numbers, and XIOMs have a model; validation asks for neither.\<close>

definition srsim_ready :: "SRCard SRSim \<Rightarrow> bool" where
  "srsim_ready v \<longleftrightarrow> (\<forall>ch. srsim_Chassis v = Some ch \<longrightarrow> numeric_slots (entries (ch_Cards ch)) \<and>
     (\<forall>(slot, c)\<in>set (entries (ch_Cards ch)). \<forall>(x, xiom)\<in>set (entries (card_XIOM c)). xiom_Model xiom \<noteq> None))"

lemma default_slot_sound:
  assumes "ok (SRChassis_Validate ch)" "numeric_slots (entries (ch_Cards ch))"
  shows "soundly (GetDefaultMDASlot ch) (\<lambda>_. True)"
proof -
  obtain t m where ch: "ch_Type ch = Some t" "ch_Model ch = Some m" using assms(1) by (auto simp: SRChassis_Validate_ok)
  show ?thesis
  proof (cases "IsIntegratedChassis m")
    case True
    then show ?thesis by (simp add: GetDefaultMDASlot_def ch split: list.split)
  next
    case False
    from GetDefaultMDASlot_eq [OF assms(1) ch(1,2) False assms(2)] show ?thesis by (simp add: Let_def)
  qed
qed

lemma SRSim_calm:
  assumes env: "env_calm I bv len E" and own: "calm_owner (plab_SetOwnerFunc q)" and valid: "ok (SRSim_Validate v links node)"
    and ready: "srsim_ready v"
  shows "calm I (SRSim_Ensure E v q node)"
proof -
  obtain ch img lic where v: "srsim_Chassis v = Some ch" "srsim_Image v = Some img" "srsim_LicSecret v = Some lic"
    "ok (SRChassis_Validate ch)"
    using valid by (auto simp: SRSim_Validate_def ok_bindr split: option.splits if_splits)
  obtain model cls where m: "ch_Model ch = Some model" "cfg_PVCStorageClass (env_GConf E) = Some cls"
    using v(4) env_calmD(6) [OF env] by (auto simp: SRChassis_Validate_ok)
  have numeric: "numeric_slots (entries (ch_Cards ch))" using ready v(1) by (simp add: srsim_ready_def)
  have cf: "calm I (srsim_cf E q node slot i b)" for slot i b
    unfolding srsim_cf_def Let_def split_def getCFPVC_def
    by (intro safely_bindp [OF safely_liftp [OF soundly_pvc [OF m(2)]]] calm_bindp safely_wrapp safely_retp
        calm_env_ensure [OF env own] TrueI)
  have envs: "soundly (srsim_envs ch slot c) (\<lambda>_. True)" if c: "(slot, c) \<in> set (entries (ch_Cards ch))" for slot c
  proof -
    obtain cm where cm: "card_Model c = Some cm" using v(4) c by (fastforce simp: SRChassis_Validate_ok SRCard_Validate_ok)
    have "xiom_Model xiom \<noteq> None" if "(x, xiom) \<in> set (entries (card_XIOM c))" for x xiom
      using ready v(1) c that unfolding srsim_ready_def by fastforce
    then have "soundly (xiom_envs x) (\<lambda>_. True)" if "x \<in> set (entries (card_XIOM c))" for x
      using that by (cases x) (fastforce simp: xiom_envs_def)
    then show ?thesis
      unfolding srsim_envs_def by (intro soundly_deref [OF m(1)] soundly_deref [OF cm] soundly_bindr [OF soundly_mapr]) auto
  qed
  have card: "safely I (srsim_card E v ch q node x b) (\<lambda>b. fst b \<noteq> [])" if "x \<in> set (entries (ch_Cards ch))" for x b
  proof -
    obtain slot c where x: "x = (slot, c)" by fastforce
    have "calm I (foldp (srsim_cf E q node slot) is b)" for "is" b by (intro safely_foldp cf TrueI)
    then have flash: "calm I (if IsCPM slot then foldp (srsim_cf E q node slot) [1, 2, 3] b else retp b)" for b
      by (auto simp del: foldp.simps intro: safe)
    show ?thesis
      unfolding x srsim_card_def prod.case Let_def split_def fst_conv snd_conv
      by (intro safely_deref [OF v(2)] safely_bindp [OF safely_liftp [OF envs]] calm_bindp [OF flash] safely_retp)
        (use that x in auto)
  qed
  have cards: "safely I (foldp (srsim_card E v ch q node) xs b) (\<lambda>b. fst b \<noteq> [])" if "xs \<noteq> []" "set xs \<subseteq> set (entries (ch_Cards ch))" for xs b
    using that
  proof (cases xs)
    case (Cons x ys)
    with that(2) show ?thesis by (auto intro!: safely_bindp [OF card] safely_foldp card)
  qed simp
  have net: "soundly (srsim_net k ch q i spoke) (\<lambda>_. True)" for k i spoke
    by (auto simp: srsim_net_def Let_def split: option.split intro!: soundly_bindr [OF default_slot_sound [OF v(4) numeric]])
  have pod: "soundly (srsim_pod k v ch q node im cs vs) (\<lambda>_. True)" if "cs \<noteq> []" for k im cs vs
    unfolding srsim_pod_def split_def
    by (intro soundly_deref [OF v(3)] soundly_bindr [where P = "\<lambda>_. True" and r = "at cs 0"] soundly_bindr [OF soundly_refer [OF net]])
      (use that in \<open>auto simp: at_def\<close>)
  have "entries (ch_Cards ch) \<noteq> []" using v(4) by (auto simp: SRChassis_Validate_ok)
  then show ?thesis
    unfolding SRSim_Ensure_def split_def
    by (intro safely_deref [OF v(2)] safely_deref [OF v(1)] safely_bindp [OF cards]
        safely_bindp [OF safely_liftp [OF soundly_with [OF pod built_numbered(3)]]] safely_wrapp calm_env_ensure [OF env own]) auto
qed

section \<open>All nodes, and the controller\<close>

definition node_ready :: "SRCard KNLConfigSpec \<Rightarrow> Link gomap \<Rightarrow> SRCard System \<Rightarrow> bool" where
  "node_ready gconf links sys = (case sys of
      SysVSIM v \<Rightarrow> srvm_ready gconf links v
    | SysVSRI v \<Rightarrow> srvm_ready gconf links v
    | SysMAGC v \<Rightarrow> srvm_ready gconf links v
    | SysVM v \<Rightarrow> vm_ready links v
    | SysSRSIM v \<Rightarrow> srsim_ready v
    | SysSRL _ \<Rightarrow> True
    | SysPod _ \<Rightarrow> True)"

lemma System_calm:
  assumes "env_calm I bv len E" "calm_owner (plab_SetOwnerFunc q)" "ok (System_Validate X links node sys)"
    and "node_ready (env_GConf E) (entries (lab_LinkList (lab_Spec (plab_Lab p)))) sys"
    and "wired p q" "links_ok (lab_Spec (plab_Lab p))"
  shows "calm I (System_Ensure E f q node sys)"
proof -
  have lab: "plab_Lab q = plab_Lab p" using assms(5) by (simp add: wired_def)
  show ?thesis
    using assms(3,4)
    by (cases sys) (simp_all add: System_Ensure_def System_Validate_def node_ready_def SRLinux_calm [OF assms(1,2)] SRSim_calm [OF assms(1,2)]
        GeneralPod_calm [OF assms(1,2) _ assms(5,6)] GeneralVM_calm [OF assms(1,2), unfolded lab, OF _ _ assms(6)]
        SRVM_calm [OF assms(1,2) _ _ assms(5)])
qed

lemma links_ok_validated: "ok (LabSpec_Validate X spec) \<Longrightarrow> links_ok spec"
  by (fastforce simp: LabSpec_Validate_ok Link_Validate_ok links_ok_def connectors_def)

definition lab_ready :: "SRCard KNLConfigSpec \<Rightarrow> SRCard LabSpec \<Rightarrow> bool" where
  "lab_ready gconf spec \<longleftrightarrow> (\<forall>(n, one)\<in>set (entries (lab_NodeList spec)). \<forall>sys. fst (GetSystem one) = Some sys \<longrightarrow>
     node_ready gconf (entries (lab_LinkList spec)) sys)"

lemma build_calm:
  assumes env: "env_calm I bv len E" and own: "calm_owner (plab_SetOwnerFunc p)"
    and valid: "ok (LabSpec_Validate X (lab_Spec (plab_Lab p)))" and ready: "lab_ready (env_GConf E) (lab_Spec (plab_Lab p))"
    and fresh: "plab_SpokeConnectorMap p = []" "plab_SpokeMap p = []"
  shows "calm I (build (env_Bitset E) (env_GConf E) (env_Client E) (System_Ensure E f) p)"
proof -
  note links = links_ok_validated [OF valid]
  obtain dev where dev: "cfg_VXLANDefaultDev (env_GConf E) = Some dev" using env_calmD(7) [OF env] by blast
  have node: "calm I (ensure_node (System_Ensure E f) q x)"
    if q: "wired p q" and x: "x \<in> set (entries (lab_NodeList (lab_Spec (plab_Lab p))))" for q x
  proof -
    obtain n one where no: "x = (n, one)" by fastforce
    obtain sys name where sys: "one_fields one = [(sys, name)]"
      "ok (System_Validate X (entries (lab_LinkList (lab_Spec (plab_Lab p)))) n sys)"
      using valid x unfolding no by (fastforce simp: LabSpec_Validate_ok)
    then have get: "fst (GetSystem one) = Some sys" by (simp add: GetSystem_def)
    with ready x have "node_ready (env_GConf E) (entries (lab_LinkList (lab_Spec (plab_Lab p)))) sys"
      unfolding lab_ready_def no by blast
    from System_calm [OF env _ sys(2) this q links] own q show ?thesis
      by (simp add: no ensure_node_def safely_deref [OF get] wired_def)
  qed
  show ?thesis
    unfolding build_def
    by (rule safely_bindp [OF EnsureLinks_wired [OF env_calmD(1,2) [OF env] dev own links fresh]], rule calm_eachp, rule node)
      (simp_all add: wired_def)
qed

lemma calm_logged: "calm I m \<Longrightarrow> calm I (logged m)"
  by (rule safelyI) (auto simp: logged_def soundly_def dest: safelyD split: prod.splits sum.splits fault.splits)

lemma add_links_sound:
  "\<forall>c\<in>set cs. con_NodeName c \<noteq> None \<Longrightarrow> soundly (foldm (add_node_link l) cs m) (\<lambda>_. True)"
  by (rule soundly_foldm) (auto simp: add_node_link_def split: option.split)

lemma ParseLab_sound:
  assumes "links_ok (lab_Spec lab)"
  shows "soundly (ParseLab lab ref) (\<lambda>p. plab_Lab p = lab \<and> plab_SetOwnerFunc p = ref lab \<and> plab_SpokeConnectorMap p = [] \<and> plab_SpokeMap p = [])"
proof -
  have "\<forall>c\<in>set (link_Connectors link). con_NodeName c \<noteq> None" if "(l, link) \<in> set (entries (lab_LinkList (lab_Spec lab)))" for l link
    using assms that by (fastforce simp: links_ok_def connectors_def good_connector_def)
  then have "soundly (foldm (\<lambda>(linkName, link). foldm (add_node_link linkName) (link_Connectors link))
      (entries (lab_LinkList (lab_Spec lab))) []) (\<lambda>_. True)"
    by (intro soundly_foldm) (auto intro: add_links_sound)
  then show ?thesis unfolding ParseLab_def by (rule soundly_bindr) simp
qed

lemma release_calm:
  assumes "calm_client I clnt"
  shows "calm I (release_lan clnt lab l)"
proof -
  let ?n = "Getk8lanName (lab_Name lab) l"
  let ?up = "\<lambda>lan. wrapp ''failed to remove finalizer on LAN %v, %w'' [?n] (clnt_Update clnt (RemoveFinalizer lan FinalizerName))"
  have up: "calm I (?up lan)" if "numbered lan \<or> meta_Name (obj_Meta lan) = []" for lan
  proof -
    have "meta_Name (obj_Meta (RemoveFinalizer lan FinalizerName)) = meta_Name (obj_Meta lan)"
      by (simp add: RemoveFinalizer_def set_finalizers_def)
    then show ?thesis
      using that same_numbers_numbered [OF same_numbers_finalizer(1)] by (intro safe calm_clientD(3) [OF assms]) auto
  qed
  have "calm I (\<lambda>s. case clnt_Get clnt (lab_Namespace lab) ?n (new_obj ''LAN'') s of
      (Inl e, s') \<Rightarrow> (\<lambda>e s'. if IsNotFound e then ?up (new_obj ''LAN'') s'
        else (wrapf ''failed to check finalizer on LAN %v, %w'' [?n] (Inl e), s')) e s' | (Inr lan, s') \<Rightarrow> ?up lan s')"
  proof (rule safely_cases [OF calm_clientD(1) [OF assms]])
    fix e
    show "calm I (\<lambda>s'. if IsNotFound (Err e) then ?up (new_obj ''LAN'') s'
        else (wrapf ''failed to check finalizer on LAN %v, %w'' [?n] (Inl (Err e)), s'))"
      using up [of "new_obj ''LAN''"] by (simp add: safely_def)
  qed (rule up, simp)
  then show ?thesis
    by (rule arg_cong2 [where f = "safely I", THEN iffD1, rotated 2]) (auto simp: release_lan_def Let_def split: prod.split sum.split)
qed

lemma Reconcile_calm:
  assumes env: "env_calm I bv len E" and own: "\<And>lab. calm_owner (setref lab)" and inv: "I s"
    and stored: "\<And>x s'. clnt_Get (env_Client E) ns name (new_obj ''Lab'') s = (Inr x, s') \<Longrightarrow>
      ok (LabSpec_Validate X (lab_Spec (lab_of x))) \<and> lab_ready (env_GConf E) (lab_Spec (lab_of x))"
  shows "\<not> panics (fst (Reconcile (env_Bitset E) (env_GConf E) (env_Client E) setref (System_Ensure E f) ns name s)) \<and>
    I (snd (Reconcile (env_Bitset E) (env_GConf E) (env_Client E) setref (System_Ensure E f) ns name s))"
proof -
  let ?clnt = "env_Client E"
  note cl = calm_clientD [OF env_calmD(2) [OF env]]
  obtain g s1 where get: "clnt_Get ?clnt ns name (new_obj ''Lab'') s = (g, s1)" by fastforce
  have g: "\<not> panics g" "I s1" and found: "g = Inr x \<Longrightarrow> numbered x" for x
    using safelyD [OF cl(1) get inv] by (simp_all add: soundly_iff)
  show ?thesis
  proof (cases g)
    case (Inl e)
    with g obtain w where "e = Err w" by (cases e) auto
    then show ?thesis using get Inl g(2) by (simp add: Reconcile_def)
  next
    case (Inr x)
    have x: "ok (LabSpec_Validate X (lab_Spec (lab_of x)))" "lab_ready (env_GConf E) (lab_Spec (lab_of x))"
      using stored get Inr by blast+
    let ?ok = "\<lambda>p. plab_Lab p = lab_of x \<and> plab_SetOwnerFunc p = setref (lab_of x) \<and> plab_SpokeConnectorMap p = [] \<and> plab_SpokeMap p = []"
    have sent: "calm I (clnt_Update ?clnt (AddFinalizer x FinalizerName))" "calm I (clnt_Update ?clnt (RemoveFinalizer x FinalizerName))"
      using cl(3) same_numbers_numbered [OF same_numbers_finalizer(1) found [OF Inr]] same_numbers_numbered [OF same_numbers_finalizer(2) found [OF Inr]]
      by blast+
    have release: "calm I (deleteExternalResources ?clnt (lab_of x))"
      unfolding deleteExternalResources_def by (intro calm_eachp release_calm env_calmD(2) [OF env])
    have built: "calm I (build (env_Bitset E) (env_GConf E) ?clnt (System_Ensure E f) p)" if "?ok p" for p
      using that build_calm [OF env, of p X f] own x by simp
    have "calm I (bindp (liftp (ParseLab (lab_of x) setref)) (\<lambda>plab.
            if meta_DeletionTimestamp (obj_Meta x) = None then
              bindp (if ContainsFinalizer x FinalizerName then retp () else clnt_Update ?clnt (AddFinalizer x FinalizerName))
                (\<lambda>_. logged (build (env_Bitset E) (env_GConf E) ?clnt (System_Ensure E f) plab))
            else if ContainsFinalizer x FinalizerName then
              bindp (deleteExternalResources ?clnt (lab_of x)) (\<lambda>_. clnt_Update ?clnt (RemoveFinalizer x FinalizerName))
            else retp ()))"
      by (rule safely_bindp [OF safely_liftp [OF ParseLab_sound [OF links_ok_validated [OF x(1)]]]])
        (intro safely_if calm_bindp safe calm_logged built release sent TrueI)
    then show ?thesis using get Inr g(2) by (simp add: Reconcile_def safely_def soundly_iff)
  qed
qed

section \<open>The API server\<close>

text \<open>
  What the last theorem asks of the client in terms of what the cluster stores: a call returns, with a result or
  an error; what a write leaves in the cluster was there before or has the numbers of the object sent, even when
  the call returns an error; a deletion removes an object or leaves it with its numbers, marked as deleted; and a list
  has objects of the cluster of the kind asked for. Nothing is said about the objects that others have stored:
  that they are \<open>numbered\<close> is a property of the cluster.
\<close>

definition all_numbered :: "('s \<Rightarrow> key \<Rightarrow> KObj option) \<Rightarrow> 's \<Rightarrow> bool" where
  "all_numbered view s \<longleftrightarrow> (\<forall>k x. view s k = Some x \<longrightarrow> numbered x)"

definition wrote :: "('s \<Rightarrow> key \<Rightarrow> KObj option) \<Rightarrow> KObj \<Rightarrow> 's \<Rightarrow> 's \<Rightarrow> bool" where
  "wrote view t s s' \<longleftrightarrow> (\<forall>k x. view s' k = Some x \<longrightarrow> view s k = Some x \<or> (k = obj_key t \<and> same_numbers t x))"

definition total_client :: "('s \<Rightarrow> key \<Rightarrow> KObj option) \<Rightarrow> 's Client \<Rightarrow> bool" where
  "total_client view clnt \<longleftrightarrow>
     (\<forall>ns n t s. \<not> panics (fst (clnt_Get clnt ns n t s))) \<and>
     (\<forall>t s. \<not> panics (fst (clnt_Create clnt t s)) \<and> wrote view t s (snd (clnt_Create clnt t s))) \<and>
     (\<forall>t s. \<not> panics (fst (clnt_Update clnt t s)) \<and> wrote view t s (snd (clnt_Update clnt t s))) \<and>
     (\<forall>t s. \<not> panics (fst (clnt_Delete clnt t s)) \<and>
        (\<forall>k x. view (snd (clnt_Delete clnt t s)) k = Some x \<longrightarrow> (\<exists>y. view s k = Some y \<and> same_numbers y x))) \<and>
     (\<forall>kind s. \<not> panics (fst (clnt_List clnt kind s)) \<and> (\<forall>xs. fst (clnt_List clnt kind s) = Inr xs \<longrightarrow>
        (\<forall>x\<in>set xs. obj_Kind x = kind \<and> view s (obj_key x) = Some x)))"

lemma numbered_wrote: "all_numbered view s \<Longrightarrow> wrote view t s s' \<Longrightarrow> numbered t \<Longrightarrow> all_numbered view s'"
  unfolding all_numbered_def wrote_def using same_numbers_numbered by blast

lemma total_clientD:
  assumes "total_client view clnt"
  shows "clnt_Get clnt ns n t s = (r, s') \<Longrightarrow> \<not> panics r"
    and "clnt_Create clnt t s = (r, s') \<Longrightarrow> \<not> panics r \<and> wrote view t s s'"
    and "clnt_Update clnt t s = (u, s') \<Longrightarrow> \<not> panics u \<and> wrote view t s s'"
    and "clnt_Delete clnt t s = (u, s') \<Longrightarrow> \<not> panics u \<and>
      (\<forall>k x. view s' k = Some x \<longrightarrow> (\<exists>y. view s k = Some y \<and> same_numbers y x))"
    and "clnt_List clnt kind s = (l, s') \<Longrightarrow> \<not> panics l \<and>
      (\<forall>xs. l = Inr xs \<longrightarrow> (\<forall>x\<in>set xs. obj_Kind x = kind \<and> view s (obj_key x) = Some x))"
proof -
  note t = assms [unfolded total_client_def]
  show "\<not> panics r" if "clnt_Get clnt ns n t s = (r, s')"
    using t [THEN conjunct1, rule_format, of ns n t s] by (simp add: that)
  show "\<not> panics r \<and> wrote view t s s'" if "clnt_Create clnt t s = (r, s')"
    using t [THEN conjunct2, THEN conjunct1, THEN spec, THEN spec, of t s] by (simp add: that)
  show "\<not> panics u \<and> wrote view t s s'" if "clnt_Update clnt t s = (u, s')"
    using t [THEN conjunct2, THEN conjunct2, THEN conjunct1, THEN spec, THEN spec, of t s] by (simp add: that)
  show "\<not> panics u \<and> (\<forall>k x. view s' k = Some x \<longrightarrow> (\<exists>y. view s k = Some y \<and> same_numbers y x))" if "clnt_Delete clnt t s = (u, s')"
    using t [THEN conjunct2, THEN conjunct2, THEN conjunct2, THEN conjunct1, THEN spec, THEN spec, of t s] by (simp add: that)
  show "\<not> panics l \<and> (\<forall>xs. l = Inr xs \<longrightarrow> (\<forall>x\<in>set xs. obj_Kind x = kind \<and> view s (obj_key x) = Some x))"
    if "clnt_List clnt kind s = (l, s')"
    using t [THEN conjunct2, THEN conjunct2, THEN conjunct2, THEN conjunct2, THEN spec, THEN spec, of kind s] by (simp add: that)
qed

lemma total_calm_client:
  assumes "client_laws view clnt" "total_client view clnt"
  shows "calm_client (all_numbered view) clnt"
  unfolding calm_client_def
proof (intro conjI allI impI)
  let ?I = "all_numbered view"
  note total = total_clientD [OF assms(2)]
  show "safely ?I (clnt_Get clnt ns n t) (\<lambda>x. obj_Kind x = obj_Kind t \<and> numbered x)" for ns n t
  proof (rule safelyI)
    fix s r s'
    assume run: "clnt_Get clnt ns n t s = (r, s')" and s: "?I s"
    note cg = client_Get [OF assms(1) run]
    have "obj_Kind x = obj_Kind t \<and> numbered x" if "r = Inr x" for x
    proof
      from client_key [OF assms(1) cg(2) [OF that]] show "obj_Kind x = obj_Kind t" by (simp add: obj_key_def)
      from cg(2) [OF that] s show "numbered x" unfolding all_numbered_def by blast
    qed
    moreover have "?I s'" using s cg(1) by (simp add: all_numbered_def)
    ultimately show "soundly r (\<lambda>x. obj_Kind x = obj_Kind t \<and> numbered x) \<and> ?I s'"
      using total(1) [OF run] unfolding soundly_iff by blast
  qed
  show "safely ?I (clnt_Create clnt t) (\<lambda>x. obj_Kind x = obj_Kind t \<and> numbered x)" if t: "numbered t" for t
  proof (rule safelyI)
    fix s r s'
    assume run: "clnt_Create clnt t s = (r, s')" and s: "?I s"
    have w: "\<not> panics r" "wrote view t s s'" using total(2) [OF run] by simp_all
    have s': "?I s'" by (rule numbered_wrote [OF s w(2) t])
    have "obj_Kind x = obj_Kind t \<and> numbered x" if "r = Inr x" for x
    proof
      note made = client_Create(2) [OF assms(1) run that]
      from made show "obj_Kind x = obj_Kind t" by (simp add: obj_key_def)
      from made s' show "numbered x" unfolding all_numbered_def by blast
    qed
    then show "soundly r (\<lambda>x. obj_Kind x = obj_Kind t \<and> numbered x) \<and> ?I s'" using w(1) s' unfolding soundly_iff by blast
  qed
  show "calm ?I (clnt_Update clnt t)" if t: "numbered t \<or> meta_Name (obj_Meta t) = []" for t
  proof (rule safelyI)
    fix s r s'
    assume run: "clnt_Update clnt t s = (r, s')" and s: "?I s"
    have w: "\<not> panics r" "wrote view t s s'" using total(3) [OF run] by simp_all
    have "?I s'"
    proof (cases "numbered t")
      case True
      then show ?thesis by (rule numbered_wrote [OF s w(2)])
    next
      case False
      then have "view s' (obj_key t) = None" using t client_nameless [OF assms(1)] by (simp add: obj_key_def)
      then show ?thesis using s client_Update(1) [OF assms(1) run] unfolding all_numbered_def unchanged_except_def by (metis option.discI)
    qed
    then show "soundly r (\<lambda>_. True) \<and> ?I s'" using w(1) by (simp add: soundly_iff)
  qed
  show "calm ?I (clnt_Delete clnt t)" for t
  proof (rule safelyI)
    fix s r s'
    assume run: "clnt_Delete clnt t s = (r, s')" and s: "?I s"
    have w: "\<not> panics r" "\<And>k x. view s' k = Some x \<Longrightarrow> \<exists>y. view s k = Some y \<and> same_numbers y x"
      using total(4) [OF run] by blast+
    have "?I s'" using s w(2) same_numbers_numbered unfolding all_numbered_def by blast
    then show "soundly r (\<lambda>_. True) \<and> ?I s'" using w(1) by (simp add: soundly_iff)
  qed
  show "safely ?I (clnt_List clnt k) (\<lambda>xs. \<forall>x\<in>set xs. obj_Kind x = k \<and> numbered x)" for k
  proof (rule safelyI)
    fix s r s'
    assume run: "clnt_List clnt k s = (r, s')" and s: "?I s"
    have w: "\<not> panics r" "\<And>xs x. r = Inr xs \<Longrightarrow> x \<in> set xs \<Longrightarrow> obj_Kind x = k \<and> view s (obj_key x) = Some x"
      using total(5) [OF run] by simp_all
    then have "\<forall>x\<in>set xs. obj_Kind x = k \<and> numbered x" if "r = Inr xs" for xs
      using s that unfolding all_numbered_def by blast
    moreover have "?I s'" using s client_List(1) [OF assms(1) run] by (simp add: all_numbered_def)
    ultimately show "soundly r (\<lambda>xs. \<forall>x\<in>set xs. obj_Kind x = k \<and> numbered x) \<and> ?I s'"
      using w(1) unfolding soundly_iff by blast
  qed
qed

definition total_fs :: "'s FileOps \<Rightarrow> bool" where
  "total_fs fs \<longleftrightarrow> (\<forall>p q s. \<not> panics (fst (fs_Readlink fs p s)) \<and> \<not> panics (fst (fs_Stat fs p s)) \<and> \<not> panics (fst (fs_MkdirAll fs p s)) \<and>
     \<not> panics (fst (fs_Remove fs p s)) \<and> \<not> panics (fst (fs_Symlink fs p q s)) \<and> \<not> panics (fst (fs_WriteFile fs p q s)))"

lemma calm_keeping:
  assumes "keeps (\<lambda>s s'. view s' = view s) m" "\<And>s. \<not> panics (fst (m s))"
  shows "calm (all_numbered view) m"
proof (rule safelyI)
  fix s r s'
  assume run: "m s = (r, s')" and s: "all_numbered view s"
  have "view s' = view s" using assms(1) run unfolding keeps_def by (metis snd_conv)
  with s assms(2) [of s] run show "soundly r (\<lambda>_. True) \<and> all_numbered view s'" by (simp add: soundly_iff all_numbered_def)
qed

lemma total_calm_fs:
  assumes "fs_laws view fs" "total_fs fs"
  shows "calm_fs (all_numbered view) fs"
  using assms unfolding calm_fs_def fs_laws_def Let_def total_fs_def by (simp add: calm_keeping)

text \<open>What an operator must have configured, and what it relies on.\<close>

definition env_total :: "('s \<Rightarrow> key \<Rightarrow> KObj option) \<Rightarrow> ('b \<Rightarrow> nat \<Rightarrow> bool) \<Rightarrow> ('b \<Rightarrow> nat) \<Rightarrow> ('s, 'b) Env \<Rightarrow> bool" where
  "env_total view bv len E \<longleftrightarrow> env_laws view E \<and> bitset_laws bv len (env_Bitset E) \<and>
     total_client view (env_Client E) \<and> total_fs (env_FS E) \<and>
     (\<forall>x. ok (env_SrlYaml E x)) \<and> (\<forall>x. ok (env_CloudInitYaml E x)) \<and>
     cfg_PVCStorageClass (env_GConf E) \<noteq> None \<and> cfg_VXLANDefaultDev (env_GConf E) \<noteq> None \<and>
     cfg_SFTPSever (env_GConf E) \<noteq> None \<and> cfg_SideCarHookImg (env_GConf E) \<noteq> None \<and>
     (\<forall>lan spoke ns veth ps rs. map_of (meta_Labels (obj_Meta (GenNAD (env_K8slan E) lan spoke ns veth ps rs))) BridgeIndexLabelKey = None)"

lemma env_total_calm:
  assumes "env_total view bv len E"
  shows "env_calm (all_numbered view) bv len E"
proof -
  have "numbered (GenNAD (env_K8slan E) lan spoke ns veth ps rs)" for lan spoke ns veth ps rs
    by (rule plain_numbered) (use assms in \<open>simp_all add: env_total_def env_laws_def nad_laws_def\<close>)
  moreover have "calm_client (all_numbered view) (env_Client E)" "calm_fs (all_numbered view) (env_FS E)"
    using assms by (simp_all add: env_total_def env_laws_def total_calm_client total_calm_fs)
  ultimately show ?thesis using assms by (simp add: env_calm_def env_total_def env_laws_def)
qed

end
