(* ===== verification/Props_Calm.thy ===== *)
theory Props_Calm
  imports Props_Nodes Calm
begin

text \<open>
  That the controller does not panic on the labs the webhook lets through, and where the conditions come from:
  the fields that validation does not ask for.
\<close>

section \<open>No panics\<close>

text \<open>C11
  A reconciliation never panics, whatever calls fail, when every LAN in the cluster has a VNI and the bridge indices in
  labels fit a bitset; and it leaves a cluster of that kind, so neither does the next one. This is so if the stored
  lab passed validation and has the fields its VMs and SR-SIM nodes need on top of that (\<open>lab_ready\<close>; labs of SR Linux
  and general pod nodes need none), and the operator is fully configured. Without the condition on the cluster it is
  not true: a LAN without a VNI, whoever created it, panics the reconciliation of every lab (\<open>LAN_without_VNI_panics\<close>).
\<close>

theorem controller_never_panics:
  assumes "env_total view bv len E" and "\<And>lab. calm_owner (setref lab)" and "all_numbered view s"
    and "\<And>x. view s (lab_key ns name) = Some x \<Longrightarrow>
      ok (LabSpec_Validate X (lab_Spec (lab_of x))) \<and> lab_ready (env_GConf E) (lab_Spec (lab_of x))"
  shows "\<not> panics (fst (Reconcile (env_Bitset E) (env_GConf E) (env_Client E) setref (System_Ensure E f) ns name s)) \<and>
    all_numbered view (snd (Reconcile (env_Bitset E) (env_GConf E) (env_Client E) setref (System_Ensure E f) ns name s))"
proof (rule Reconcile_calm [OF env_total_calm [OF assms(1)] assms(2,3)])
  fix x s'
  assume get: "clnt_Get (env_Client E) ns name (new_obj ''Lab'') s = (Inr x, s')"
  have "client_laws view (env_Client E)" using assms(1) by (simp add: env_total_def env_lawsD)
  from client_Get(2) [OF this get refl] show "ok (LabSpec_Validate X (lab_Spec (lab_of x))) \<and> lab_ready (env_GConf E) (lab_Spec (lab_of x))"
    by (intro assms(4)) (simp add: new_obj_def lab_key_def)
qed

lemma mem_view_left: "mem_view (filter (\<lambda>x. obj_key x \<noteq> k) s) j = Some x \<Longrightarrow> mem_view s j = Some x"
  by (cases "j = k") (simp_all add: mem_view_removed mem_view_filter)

lemma mem_total: "total_client mem_view mem_client"
proof -
  have "wrote mem_view t s (snd (clnt_Create mem_client t s))" for t s
    by (simp add: wrote_def mem_client_def mem_view_Cons same_numbers_def split: option.split)
  moreover have "wrote mem_view t s (snd (clnt_Update mem_client t s))" for t s
    by (auto simp: wrote_def mem_client_def mem_view_Cons same_numbers_def split: if_splits dest: mem_view_left)
  moreover have "\<exists>y. mem_view s k = Some y \<and> same_numbers y x" if "mem_view (snd (clnt_Delete mem_client t s)) k = Some x" for t s k x
    using mem_view_left [of "obj_key t" s k x] that by (simp add: mem_client_def same_numbers_def)
  moreover have "\<not> panics (fst (clnt_Get mem_client ns n t s))" "\<not> panics (fst (clnt_Create mem_client t s))"
    "\<not> panics (fst (clnt_Update mem_client t s))" "\<not> panics (fst (clnt_Delete mem_client t s))" for ns n t s
    by (simp_all add: mem_client_def panics_def split: option.split)
  moreover have "\<not> panics (fst (clnt_List mem_client kind s))"
    "fst (clnt_List mem_client kind s) = Inr xs \<Longrightarrow> \<forall>x\<in>set xs. obj_Kind x = kind \<and> mem_view s (obj_key x) = Some x" for kind s xs
    by (auto simp: mem_client_def panics_def)
  ultimately show ?thesis unfolding total_client_def by (intro conjI allI impI) assumption+
qed

definition full_env :: "(KObj list, nat \<times> nat list) Env" where
  "full_env = mem_env\<lparr>env_GConf := bare_config\<lparr>cfg_SFTPSever := Some ''sftp'', cfg_SideCarHookImg := Some ''hook''\<rparr>\<rparr>"

lemma full_env_total: "env_total mem_view (\<lambda>b i. i \<in> set (snd b)) fst full_env"
proof -
  have "env_laws mem_view full_env" using mem_env_laws by (simp add: env_laws_def full_env_def)
  moreover have "meta_Labels (obj_Meta (plain_nad lan spoke ns veth ps rs)) = [(K8SLABELAPPKey, K8SLABELAPPVAL), (K8SLABELSETUPKEY, [])]"
    for lan spoke ns veth ps rs by (simp add: plain_nad_def GetObjMeta_def Let_def)
  ultimately show ?thesis
    by (simp add: env_total_def full_env_def mem_env_def mem_bitset_laws mem_total total_fs_def mem_fs_def bare_config_def mem_k8slan_def
        panics_def retp_def)
qed

lemma set_ref_calm: "calm_owner (set_ref lab)"
  by (simp add: calm_owner_def set_ref_def same_numbers_def lan_spec_def)

text \<open>A lab of two pods, and a LAN of another lab that is there already.\<close>

definition two_labs :: "KObj list" where
  "two_labs = [lab_obj [] None, (mem_lan pods_lab ''l'' 1)\<lparr>obj_Meta := GetObjMeta ''other-l'' ''other'' ''knl-system'' [] []\<rparr>]"

theorem controller_never_panics_witness:
  "\<not> panics (fst (Reconcile mem_bitset (env_GConf full_env) mem_client set_ref (System_Ensure full_env False)
     ''knl-system'' ''lab1'' two_labs)) \<and> lan_VNI (lan_spec (two_labs ! 1)) = Some 1"
proof -
  have env: "env_Bitset full_env = mem_bitset" "env_Client full_env = mem_client"
    by (simp_all add: full_env_def mem_env_def)
  have spec: "lab_Spec (lab_of (lab_obj [] None)) = two_pods" by (simp add: lab_of_def lab_obj_def)
  have "fst (GetSystem one) = Some sys \<Longrightarrow> node_ready g links sys" if "(n, one) \<in> set (entries (lab_NodeList two_pods))" for n one sys g links
    using that by (auto simp: two_pods_def GetSystem_def one_fields_def new_OneOfSystem_def node_ready_def)
  then have ready: "lab_ready g two_pods" for g unfolding lab_ready_def by blast
  have vni: "lan_VNI (lan_spec (two_labs ! 1)) = Some 1" by (simp add: two_labs_def mem_lan_def lan_spec_def)
  have "numbered x" if "x \<in> set two_labs" for x
    using that by (auto simp: two_labs_def numbered_def lab_obj_def mem_lan_def lan_spec_def GetObjMeta_index)
  then have cluster: "all_numbered mem_view two_labs" unfolding all_numbered_def using mem_view_Some by blast
  have "ok (LabSpec_Validate all_parse (lab_Spec (lab_of x))) \<and> lab_ready g (lab_Spec (lab_of x))"
    if "mem_view two_labs (lab_key ''knl-system'' ''lab1'') = Some x" for x g
    using that ready two_pods_ok spec lab_obj_view [of "[]" None] by (simp add: two_labs_def)
  then have "ok (LabSpec_Validate all_parse (lab_Spec (lab_of x))) \<and> lab_ready (env_GConf full_env) (lab_Spec (lab_of x))"
    if "mem_view two_labs (lab_key ''knl-system'' ''lab1'') = Some x" for x
    using that by blast
  with full_env_total set_ref_calm cluster
  have "\<not> panics (fst (Reconcile (env_Bitset full_env) (env_GConf full_env) (env_Client full_env) set_ref (System_Ensure full_env False)
      ''knl-system'' ''lab1'' two_labs))"
    by (rule controller_never_panics [THEN conjunct1])
  with vni show ?thesis unfolding env by blast
qed

text \<open>The number of every LAN in the cluster is read, whichever lab it is of.\<close>

lemma LAN_without_VNI_panics:
  assumes "bitset_laws bv len bs" "clnt_List clnt ''LAN'' s = (Inr (x # xs), s')" "lan_VNI (lan_spec x) = None"
  shows "panics (fst (GetAvailableVNIs bs clnt n s))"
proof -
  obtain b where "bs_Set bs 0 (bs_New bs maxVNI) = Inr b" using bitset_Set_ok [OF assms(1), of 0] by (auto simp: ok_iff)
  with assms(2,3) show ?thesis
    by (simp add: GetAvailableVNIs_def bindp_def liftp_def wrapp_def mark_lan_def panics_def deref_def)
qed

text \<open>
  What \<open>lab_ready\<close> asks of an SR-SIM node is not implied by validation: a line card in a slot that is not
  a number passes it, and the default port of that node (srsim.go) panics.
\<close>

definition lettered_sim :: "SRCard SRSim" where
  "lettered_sim = \<lparr>srsim_Image = Some ''srsim:25.7'',
     srsim_Chassis = Some \<lparr>ch_Type = Some SRSIM, ch_Model = Some ''sr-7'',
       ch_Cards = Some [(''A'', new_card\<lparr>card_Model := Some ''cpm5''\<rparr>), (''x1'', new_card\<lparr>card_Model := Some ''iom4-e''\<rparr>)],
       ch_SFM = None, ch_ChassisMAC = None\<rparr>, srsim_LicSecret = Some ''lic''\<rparr>"

lemma validated_slot_panics:
  "ok (SRSim_Validate lettered_sim [] ''sim-1'') \<and> panics (GetDefaultMDASlot (the (srsim_Chassis lettered_sim)))"
  by code_simp

end
