(* ===== verification/DeepCopy.thy ===== *)
theory DeepCopy
  imports KNL_Prelude
begin

text \<open>
  Go values with their sharing, for the generated \<open>DeepCopyInto\<close> and \<open>DeepCopy\<close> methods. The
  other theories of the development read a pointer as an option and cannot say that two values share
  storage; here a pointer, a slice and a map are addresses of a store that only grows. The theory holds
  the store, the statements the generated code is made of, and the contract of a deep copy
  (\<open>copies\<close>) with one rule for each kind of statement. CopyMethods holds the methods themselves.

  A slice is the array of its elements: two slices that overlap within one array are not told apart from
  two that share all of it. The loop over a map visits the entries in the order of the list.
\<close>

section \<open>Values, types and the store\<close>

type_synonym addr = nat

datatype 'l gval = GLeaf 'l | GNil | GRef addr | GStruct "(string \<times> 'l gval) list"

text \<open>What an address holds: a variable, the array of a slice, or the table of a map.\<close>

datatype 'l cell = CVar "'l gval" | CArr "'l gval list" | CTab "('l \<times> 'l gval) list"

type_synonym 'l store = "'l cell list"
type_synonym 'l copier = "'l gval \<Rightarrow> ('l store, 'l gval) proc"

text \<open>\<open>TFlat\<close> is the type of a value without references: a string, a number, a struct of such.\<close>

datatype gty = TFlat | TPtr gty | TSlice gty | TDict gty | TRec "(string \<times> gty) list"

fun flat :: "'l gval \<Rightarrow> bool" where
  "flat (GLeaf l) = True"
| "flat (GStruct fs) = list_all (\<lambda>(f, x). flat x) fs"
| "flat _ = False"

text \<open>
  What a value says when all its references are followed, and the addresses met on the way. \<open>None\<close>
  when the value does not have the type or an address is not in use.
\<close>

datatype 'l tree =
    Flat "'l gval"
  | Null
  | To "'l tree"
  | Elems "'l tree list"
  | Keyed "('l \<times> 'l tree) list"
  | Fields "(string \<times> 'l tree) list"

fun collect :: "('t \<times> addr list) option list \<Rightarrow> ('t list \<times> addr list) option" where
  "collect [] = Some ([], [])"
| "collect (None # rs) = None"
| "collect (Some (t, as) # rs) =
     (case collect rs of None \<Rightarrow> None | Some (ts, bs) \<Rightarrow> Some (t # ts, as @ bs))"

definition cell_at :: "'l store \<Rightarrow> addr \<Rightarrow> 'l cell option" where
  "cell_at h a = (if a < length h then Some (h ! a) else None)"

fun read :: "gty \<Rightarrow> 'l store \<Rightarrow> 'l gval \<Rightarrow> ('l tree \<times> addr list) option"
  and read_fields :: "(string \<times> gty) list \<Rightarrow> 'l store \<Rightarrow> (string \<times> 'l gval) list \<Rightarrow> ((string \<times> 'l tree) list \<times> addr list) option" where
  "read TFlat h v = (if flat v then Some (Flat v, []) else None)"
| "read (TPtr T) h v = (case v of
       GNil \<Rightarrow> Some (Null, [])
     | GRef a \<Rightarrow> (case cell_at h a of
           Some (CVar x) \<Rightarrow> (case read T h x of Some (t, as) \<Rightarrow> Some (To t, a # as) | None \<Rightarrow> None)
         | _ \<Rightarrow> None)
     | _ \<Rightarrow> None)"
| "read (TSlice T) h v = (case v of
       GNil \<Rightarrow> Some (Null, [])
     | GRef a \<Rightarrow> (case cell_at h a of
           Some (CArr xs) \<Rightarrow> (case collect (map (read T h) xs) of Some (ts, as) \<Rightarrow> Some (Elems ts, a # as) | None \<Rightarrow> None)
         | _ \<Rightarrow> None)
     | _ \<Rightarrow> None)"
| "read (TDict T) h v = (case v of
       GNil \<Rightarrow> Some (Null, [])
     | GRef a \<Rightarrow> (case cell_at h a of
           Some (CTab kvs) \<Rightarrow>
             (case collect (map (\<lambda>kv. read T h (snd kv)) kvs) of
                Some (ts, as) \<Rightarrow> Some (Keyed (zip (map fst kvs) ts), a # as) | None \<Rightarrow> None)
         | _ \<Rightarrow> None)
     | _ \<Rightarrow> None)"
| "read (TRec fs) h v = (case v of
       GStruct xs \<Rightarrow> (case read_fields fs h xs of Some (ts, as) \<Rightarrow> Some (Fields ts, as) | None \<Rightarrow> None)
     | _ \<Rightarrow> None)"
| "read_fields [] h xs = (if xs = [] then Some ([], []) else None)"
| "read_fields ((f, T) # fs) h xs = (case xs of
       [] \<Rightarrow> None
     | (g, x) # xs' \<Rightarrow>
         (if g \<noteq> f then None
          else case read T h x of None \<Rightarrow> None
             | Some (t, as) \<Rightarrow>
                 (case read_fields fs h xs' of None \<Rightarrow> None | Some (ts, bs) \<Rightarrow> Some ((f, t) # ts, as @ bs))))"

section \<open>The statements of the generated code\<close>

definition new_cell :: "'l cell \<Rightarrow> ('l store, addr) proc" where
  "new_cell c h = (Inr (length h), h @ [c])"

definition put_cell :: "addr \<Rightarrow> 'l cell \<Rightarrow> ('l store, unit) proc" where
  "put_cell a c h = (Inr (), h[a := c])"

definition get_cell :: "'l gval \<Rightarrow> ('l store, 'l cell) proc" where
  "get_cell v h = (case v of
      GRef a \<Rightarrow> (case cell_at h a of Some c \<Rightarrow> (Inr c, h) | None \<Rightarrow> (Inl (Panic ''invalid memory address''), h))
    | _ \<Rightarrow> (Inl (Panic ''nil pointer dereference''), h))"

fun mapp :: "('a \<Rightarrow> ('s, 'b) proc) \<Rightarrow> 'a list \<Rightarrow> ('s, 'b list) proc" where
  "mapp f [] = retp []"
| "mapp f (x # xs) = bindp (f x) (\<lambda>y. bindp (mapp f xs) (\<lambda>ys. retp (y # ys)))"

text \<open>\<open>*out = *in\<close>, also for the elements of \<open>copy\<close> and of a loop over a map of plain values.\<close>

definition plain :: "'l copier" where
  "plain v = retp v"

text \<open>\<open>if in.F != nil { ... }\<close>, after \<open>*out = *in\<close> has made \<open>out.F\<close> nil as well.\<close>

definition if_set :: "'l copier \<Rightarrow> 'l copier" where
  "if_set c v = (if v = GNil then retp v else c v)"

text \<open>
  \<open>*out = new(T)\<close> and then the copy of what \<open>*in\<close> points to: \<open>**out = **in\<close>,
  \<open>(*in).DeepCopyInto(*out)\<close>, or for a pointer to a slice the statements for the slice.
\<close>

definition new_of :: "'l copier \<Rightarrow> 'l copier" where
  "new_of c v =
     bindp (get_cell v) (\<lambda>cell. case cell of
         CVar x \<Rightarrow>
           bindp (new_cell (CVar x)) (\<lambda>b.
           bindp (c x) (\<lambda>y.
           bindp (put_cell b (CVar y)) (\<lambda>_. retp (GRef b))))
       | _ \<Rightarrow> liftp (Inl (Panic ''not a variable'')))"

text \<open>\<open>x := (*in).DeepCopy(); *out = &x\<close>\<close>

definition address_of :: "'l copier \<Rightarrow> 'l copier" where
  "address_of c v =
     bindp (get_cell v) (\<lambda>cell. case cell of
         CVar x \<Rightarrow> bindp (c x) (\<lambda>y. bindp (new_cell (CVar y)) (\<lambda>b. retp (GRef b)))
       | _ \<Rightarrow> liftp (Inl (Panic ''not a variable'')))"

text \<open>
  \<open>*out = make([]T, len(*in))\<close> and then \<open>copy(*out, *in)\<close> or the loop
  \<open>(*in)[i].DeepCopyInto(&(*out)[i])\<close>. The elements are stored together after the loop: nothing
  reads them before.
\<close>

definition make_slice :: "'l copier \<Rightarrow> 'l copier" where
  "make_slice c v =
     bindp (get_cell v) (\<lambda>cell. case cell of
         CArr xs \<Rightarrow>
           bindp (new_cell (CArr (map (\<lambda>_. GNil) xs))) (\<lambda>b.
           bindp (mapp c xs) (\<lambda>ys.
           bindp (put_cell b (CArr ys)) (\<lambda>_. retp (GRef b))))
       | _ \<Rightarrow> liftp (Inl (Panic ''not a slice'')))"

text \<open>\<open>*out = make(map[K]T, len(*in))\<close> and then the loop \<open>for key, val := range *in\<close>.\<close>

definition make_map :: "'l copier \<Rightarrow> 'l copier" where
  "make_map c v =
     bindp (get_cell v) (\<lambda>cell. case cell of
         CTab kvs \<Rightarrow>
           bindp (new_cell (CTab [])) (\<lambda>b.
           bindp (mapp (\<lambda>kv. bindp (c (snd kv)) (\<lambda>y. retp (fst kv, y))) kvs) (\<lambda>kws.
           bindp (put_cell b (CTab kws)) (\<lambda>_. retp (GRef b))))
       | _ \<Rightarrow> liftp (Inl (Panic ''not a map'')))"

text \<open>\<open>*val.DeepCopy()\<close>: a copy in a new variable, of which only the value is used.\<close>

definition value_of_copy :: "'l copier \<Rightarrow> 'l copier" where
  "value_of_copy c v =
     bindp (new_cell (CVar v)) (\<lambda>b.
     bindp (c v) (\<lambda>y.
     bindp (put_cell b (CVar y)) (\<lambda>_. retp y)))"

fun get_field :: "'l gval \<Rightarrow> string \<Rightarrow> 'l gval result" where
  "get_field (GStruct fs) f = (case map_of fs f of Some x \<Rightarrow> Inr x | None \<Rightarrow> Inl (Panic ''no such field''))"
| "get_field _ f = Inl (Panic ''not a struct'')"

fun set_field :: "'l gval \<Rightarrow> string \<Rightarrow> 'l gval \<Rightarrow> 'l gval" where
  "set_field (GStruct fs) f y = GStruct (map (\<lambda>(g, x). (g, if g = f then y else x)) fs)"
| "set_field v f y = v"

text \<open>
  A \<open>DeepCopyInto\<close> method: \<open>*out = *in\<close>, and then for each field the code names the
  statements that read it from \<open>in\<close> and store it in \<open>out\<close>.
\<close>

definition into :: "(string \<times> 'l copier) list \<Rightarrow> 'l copier" where
  "into ups v =
     foldp (\<lambda>(f, c) out. bindp (liftp (get_field v f)) (\<lambda>x. bindp (c x) (\<lambda>y. retp (set_field out f y)))) ups v"

text \<open>A \<open>DeepCopy\<close> method of a pointer receiver.\<close>

definition deep_copy :: "'l copier \<Rightarrow> 'l copier" where
  "deep_copy c v = (if v = GNil then retp GNil else new_of c v)"

text \<open>
  A \<open>DeepCopyObject\<close> method: the result is an interface value, which is nil only when it has no
  dynamic type either.
\<close>

definition copy_object :: "string \<Rightarrow> 'l copier \<Rightarrow> 'l gval \<Rightarrow> ('l store, (string \<times> 'l gval) option) proc" where
  "copy_object ty c v = bindp (c v) (\<lambda>x. retp (if x \<noteq> GNil then Some (ty, x) else None))"

section \<open>Following references\<close>

definition kept :: "'l store \<Rightarrow> 'l store \<Rightarrow> addr \<Rightarrow> bool" where
  "kept h h' a \<longleftrightarrow> (\<forall>c. cell_at h a = Some c \<longrightarrow> cell_at h' a = Some c)"

lemma keptD: "kept h h' a \<Longrightarrow> cell_at h a = Some c \<Longrightarrow> cell_at h' a = Some c"
  by (simp add: kept_def)

lemma collect_Cons_iff:
  "collect (r # rs) = Some (ts, as) \<longleftrightarrow>
     (\<exists>t bs us cs. r = Some (t, bs) \<and> collect rs = Some (us, cs) \<and> ts = t # us \<and> as = bs @ cs)"
  by (cases r) (auto split: option.splits)

lemma collect_mono:
  assumes "collect (map (read T h) xs) = Some (ts, as)" and "\<forall>a\<in>set as. kept h h' a"
    and "\<And>x t bs. x \<in> set xs \<Longrightarrow> read T h x = Some (t, bs) \<Longrightarrow> \<forall>a\<in>set bs. kept h h' a \<Longrightarrow>
      read T h' x = Some (t, bs)"
  shows "collect (map (read T h') xs) = Some (ts, as)"
  using assms
proof (induction xs arbitrary: ts as)
  case (Cons x xs)
  from Cons.prems(1) obtain t bs us cs where
    x: "read T h x = Some (t, bs)" and xs: "collect (map (read T h) xs) = Some (us, cs)" and
    eq: "ts = t # us" "as = bs @ cs" by (auto simp: collect_Cons_iff)
  have "read T h' x = Some (t, bs)" by (rule Cons.prems(3) [OF _ x]) (use Cons.prems(2) eq in auto)
  moreover have "collect (map (read T h') xs) = Some (us, cs)"
    by (rule Cons.IH [OF xs]) (use Cons.prems(2) eq in \<open>auto intro: Cons.prems(3)\<close>)
  ultimately show ?case by (simp add: eq)
qed simp

lemma collect_length: "collect rs = Some (ts, as) \<Longrightarrow> length ts = length rs"
proof (induction rs arbitrary: ts as)
  case (Cons r rs)
  then show ?case by (auto simp: collect_Cons_iff)
qed simp

lemma cell_at_less: "cell_at h a = Some c \<Longrightarrow> a < length h"
  by (auto simp: cell_at_def split: if_splits)

lemma kept_append: "kept h (h @ new) a"
  by (auto simp: kept_def cell_at_def nth_append)

lemma kept_update: "a \<noteq> b \<Longrightarrow> kept h (h[b := c]) a"
  by (auto simp: kept_def cell_at_def)

lemma kept_new: "length h \<le> b \<Longrightarrow> kept h ((h @ new)[b := c]) a"
  by (auto simp: kept_def cell_at_def nth_append nth_list_update)

lemma read_ptr_iff:
  "read (TPtr T) h v = Some (t, as) \<longleftrightarrow>
     v = GNil \<and> t = Null \<and> as = [] \<or>
     (\<exists>a x u bs. v = GRef a \<and> cell_at h a = Some (CVar x) \<and> read T h x = Some (u, bs) \<and> t = To u \<and> as = a # bs)"
  by (auto split: gval.splits option.splits cell.splits)

lemma read_slice_iff:
  "read (TSlice T) h v = Some (t, as) \<longleftrightarrow>
     v = GNil \<and> t = Null \<and> as = [] \<or>
     (\<exists>a xs ts bs. v = GRef a \<and> cell_at h a = Some (CArr xs) \<and> collect (map (read T h) xs) = Some (ts, bs) \<and>
        t = Elems ts \<and> as = a # bs)"
  by (auto split: gval.splits option.splits cell.splits)

lemma read_dict_iff:
  "read (TDict T) h v = Some (t, as) \<longleftrightarrow>
     v = GNil \<and> t = Null \<and> as = [] \<or>
     (\<exists>a kvs ts bs. v = GRef a \<and> cell_at h a = Some (CTab kvs) \<and>
        collect (map (read T h) (map snd kvs)) = Some (ts, bs) \<and> t = Keyed (zip (map fst kvs) ts) \<and> as = a # bs)"
  by (auto simp: comp_def split: gval.splits option.splits cell.splits)

lemma read_rec_iff:
  "read (TRec fs) h v = Some (t, as) \<longleftrightarrow>
     (\<exists>xs ts. v = GStruct xs \<and> read_fields fs h xs = Some (ts, as) \<and> t = Fields ts)"
  by (auto split: gval.splits option.splits)

lemma read_fields_Cons_iff:
  "read_fields ((f, T) # fs) h xs = Some (ts, as) \<longleftrightarrow>
     (\<exists>x ys t bs us cs. xs = (f, x) # ys \<and> read T h x = Some (t, bs) \<and> read_fields fs h ys = Some (us, cs) \<and>
        ts = (f, t) # us \<and> as = bs @ cs)"
  by (auto split: list.splits option.splits if_splits)

lemmas read_iffs = read_ptr_iff read_slice_iff read_dict_iff read_rec_iff read_fields_Cons_iff

declare read.simps(2-5) [simp del] read_fields.simps(2) [simp del]

text \<open>What is read does not change when the addresses met keep what they hold.\<close>

lemma read_mono:
  "read T h v = Some (t, as) \<Longrightarrow> \<forall>a\<in>set as. kept h h' a \<Longrightarrow> read T h' v = Some (t, as)"
  and read_fields_mono:
  "read_fields fs h xs = Some (ts, bs) \<Longrightarrow> \<forall>a\<in>set bs. kept h h' a \<Longrightarrow>
     read_fields fs h' xs = Some (ts, bs)"
proof (induction T h v and fs h xs arbitrary: t as and ts bs rule: read_read_fields.induct)
  case (2 T h v)
  then show ?case by (fastforce simp: read_ptr_iff dest: keptD)
next
  case (3 T h v)
  from 3(2) consider "v = GNil" "t = Null" "as = []" | a xs us cs where "v = GRef a" "cell_at h a = Some (CArr xs)"
    "collect (map (read T h) xs) = Some (us, cs)" "t = Elems us" "as = a # cs" by (auto simp: read_slice_iff)
  then show ?case
  proof cases
    case 2
    have "collect (map (read T h') xs) = Some (us, cs)"
      by (rule collect_mono [OF 2(3) _ 3(1) [OF 2(1,2) refl]]) (use 3(3) 2 in auto)
    then show ?thesis using 2 3(3) by (auto simp: read_slice_iff dest: keptD)
  qed (simp add: read_slice_iff)
next
  case (4 T h v)
  from 4(2) consider "v = GNil" "t = Null" "as = []" | a kvs us cs where "v = GRef a" "cell_at h a = Some (CTab kvs)"
    "collect (map (read T h) (map snd kvs)) = Some (us, cs)" "t = Keyed (zip (map fst kvs) us)" "as = a # cs"
    by (auto simp: read_dict_iff)
  then show ?case
  proof cases
    case 2
    have "collect (map (read T h') (map snd kvs)) = Some (us, cs)"
    proof (rule collect_mono [OF 2(3)])
      fix x t bs
      assume "x \<in> set (map snd kvs)" "read T h x = Some (t, bs)" "\<forall>a\<in>set bs. kept h h' a"
      then show "read T h' x = Some (t, bs)" using 4(1) [OF 2(1,2)] by auto
    qed (use 4(3) 2 in auto)
    then show ?thesis using 2 4(3) by (auto simp: read_dict_iff dest: keptD)
  qed (simp add: read_dict_iff)
next
  case (5 fs h v)
  then show ?case by (auto simp: read_rec_iff)
next
  case (7 f T fs h xs)
  from 7(3) obtain x ys t cs us ds where xs: "xs = (f, x) # ys" and x: "read T h x = Some (t, cs)"
    and ys: "read_fields fs h ys = Some (us, ds)" and eq: "ts = (f, t) # us" "bs = cs @ ds"
    by (auto simp: read_fields_Cons_iff)
  have "read T h' x = Some (t, cs)" using 7(1) [OF xs refl _ x] 7(4) eq by auto
  moreover have "read_fields fs h' ys = Some (us, ds)" using 7(2) [OF xs refl _ x refl ys] 7(4) eq by auto
  ultimately show ?case by (simp add: read_fields_Cons_iff xs eq)
qed simp_all

text \<open>Only addresses in use are met.\<close>

lemma collect_in:
  assumes "collect (map (read T h) xs) = Some (ts, as)"
    and "\<And>x t bs. x \<in> set xs \<Longrightarrow> read T h x = Some (t, bs) \<Longrightarrow> set bs \<subseteq> A"
  shows "set as \<subseteq> A"
  using assms
proof (induction xs arbitrary: ts as)
  case (Cons x xs)
  from Cons.prems(1) obtain t bs us cs where x: "read T h x = Some (t, bs)"
    and xs: "collect (map (read T h) xs) = Some (us, cs)" and as: "as = bs @ cs" by (auto simp: collect_Cons_iff)
  have "set cs \<subseteq> A" by (rule Cons.IH [OF xs]) (rule Cons.prems(2), auto)
  moreover have "set bs \<subseteq> A" by (rule Cons.prems(2) [OF _ x]) simp
  ultimately show ?case by (simp add: as)
qed simp

lemma read_in_use:
  "read T h v = Some (t, as) \<Longrightarrow> set as \<subseteq> {..<length h}"
  and read_fields_in_use: "read_fields fs h xs = Some (ts, bs) \<Longrightarrow> set bs \<subseteq> {..<length h}"
proof (induction T h v and fs h xs arbitrary: t as and ts bs rule: read_read_fields.induct)
  case (2 T h v)
  then show ?case by (fastforce simp: read_ptr_iff dest: cell_at_less)
next
  case (3 T h v)
  from 3(2) consider "as = []" | a xs us cs where "v = GRef a" "cell_at h a = Some (CArr xs)"
    "collect (map (read T h) xs) = Some (us, cs)" "as = a # cs" by (auto simp: read_slice_iff)
  then show ?case
  proof cases
    case 2
    have "set cs \<subseteq> {..<length h}" by (rule collect_in [OF 2(3) 3(1) [OF 2(1,2) refl]])
    then show ?thesis using 2 cell_at_less by auto
  qed simp
next
  case (4 T h v)
  from 4(2) consider "as = []" | a kvs us cs where "v = GRef a" "cell_at h a = Some (CTab kvs)"
    "collect (map (read T h) (map snd kvs)) = Some (us, cs)" "as = a # cs" by (auto simp: read_dict_iff)
  then show ?case
  proof cases
    case 2
    have "set cs \<subseteq> {..<length h}"
    proof (rule collect_in [OF 2(3)])
      fix x t bs
      assume "x \<in> set (map snd kvs)" and x: "read T h x = Some (t, bs)"
      then obtain kv where "kv \<in> set kvs" "snd kv = x" by auto
      with x show "set bs \<subseteq> {..<length h}" using 4(1) [OF 2(1,2) refl, of kv] by simp
    qed
    then show ?thesis using 2 cell_at_less by auto
  qed simp
next
  case (7 f T fs h xs)
  from 7(3) obtain x ys t cs us ds where xs: "xs = (f, x) # ys" and x: "read T h x = Some (t, cs)"
    and ys: "read_fields fs h ys = Some (us, ds)" and eq: "bs = cs @ ds"
    by (auto simp: read_fields_Cons_iff)
  show ?case using 7(1) [OF xs refl _ x] 7(2) [OF xs refl _ x refl ys] by (simp add: eq)
qed (auto simp: read_rec_iff split: if_splits)

lemma read_append: "read T h v = Some r \<Longrightarrow> read T (h @ new) v = Some r"
  by (cases r) (auto intro: read_mono kept_append)

lemma read_fields_append: "read_fields fs h xs = Some r \<Longrightarrow> read_fields fs (h @ new) xs = Some r"
  by (cases r) (auto intro: read_fields_mono kept_append)

lemma collect_append:
  "collect (map (read T h) xs) = Some r \<Longrightarrow> collect (map (read T (h @ new)) xs) = Some r"
proof (cases r)
  case (Pair ts as)
  assume "collect (map (read T h) xs) = Some r"
  then show ?thesis unfolding Pair by (rule collect_mono) (simp_all add: kept_append read_append)
qed

section \<open>The contract of a deep copy\<close>

text \<open>
  The addresses of a copy are new and each is met once; the store keeps what it held and only grows; the
  copy says what the original says. \<open>copies_set\<close> is the contract for values that are not nil.
\<close>

named_theorems copies_rules \<open>the statements of the generated code copy deeply\<close>

definition fresh :: "'l store \<Rightarrow> 'l cell list \<Rightarrow> addr list \<Rightarrow> bool" where
  "fresh h new as \<longleftrightarrow> distinct as \<and> set as \<subseteq> {length h..<length h + length new}"

definition copied :: "gty \<Rightarrow> 'l copier \<Rightarrow> 'l store \<Rightarrow> 'l gval \<Rightarrow> 'l tree \<Rightarrow> bool" where
  "copied T c h v t \<longleftrightarrow>
     (\<exists>w new as. c v h = (Inr w, h @ new) \<and> read T (h @ new) w = Some (t, as) \<and> fresh h new as)"

definition copies :: "gty \<Rightarrow> 'l copier \<Rightarrow> bool" where
  "copies T c \<longleftrightarrow> (\<forall>h v t as. read T h v = Some (t, as) \<longrightarrow> copied T c h v t)"

definition copies_set :: "gty \<Rightarrow> 'l copier \<Rightarrow> bool" where
  "copies_set T c \<longleftrightarrow> (\<forall>h v t as. read T h v = Some (t, as) \<longrightarrow> v \<noteq> GNil \<longrightarrow> copied T c h v t)"

lemma fresh_Nil [simp]: "fresh h new []"
  by (simp add: fresh_def)

lemma fresh_append:
  assumes "fresh h new as" and "fresh (h @ new) new' bs"
  shows "fresh h (new @ new') (as @ bs)"
proof -
  have "set as \<inter> set bs = {}" using assms by (fastforce simp: fresh_def)
  then show ?thesis using assms by (auto simp: fresh_def)
qed

lemma fresh_Cons: "fresh (h @ [c]) new as \<Longrightarrow> fresh h (d # new) (length h # as)"
  by (auto simp: fresh_def)

lemma kept_fresh:
  assumes "fresh (h @ [c]) new as" and "a \<in> set as"
  shows "kept ((h @ [c]) @ new) (h @ d # new) a"
  using assms by (auto simp: fresh_def kept_def cell_at_def nth_append)

lemma copiesI: "(\<And>h v t as. read T h v = Some (t, as) \<Longrightarrow> copied T c h v t) \<Longrightarrow> copies T c"
  by (simp add: copies_def)

lemma copies_setI:
  "(\<And>h v t as. read T h v = Some (t, as) \<Longrightarrow> v \<noteq> GNil \<Longrightarrow> copied T c h v t) \<Longrightarrow> copies_set T c"
  by (simp add: copies_set_def)

lemma copiesD:
  assumes "copies T c" and "read T h v = Some (t, as)"
  obtains w new bs where "c v h = (Inr w, h @ new)" "read T (h @ new) w = Some (t, bs)" "fresh h new bs"
  using assms unfolding copies_def copied_def by blast

lemma copies_plain [copies_rules]: "copies TFlat plain"
  by (auto simp: copies_def copied_def plain_def split: if_splits intro!: exI [of _ "[]"])

lemma read_nil: "read T h GNil = Some (t, as) \<Longrightarrow> t = Null \<and> as = [] \<and> read T h' GNil = Some (t, as)"
  by (cases T) (auto simp: read_iffs)

lemma copied_nil: "read T h GNil = Some (t, as) \<Longrightarrow> c GNil h = (Inr GNil, h) \<Longrightarrow> copied T c h GNil t"
  unfolding copied_def by (intro exI [of _ GNil] exI [of _ "[]"]) (auto dest: read_nil)

lemma copies_nil_or_set:
  fixes c :: "'l copier"
  assumes "copies_set T c" and "c' GNil = retp GNil" and "\<And>v. v \<noteq> GNil \<Longrightarrow> c' v = c v"
  shows "copies T c'"
proof (rule copiesI)
  fix h :: "'l store" and v t as
  assume r: "read T h v = Some (t, as)"
  show "copied T c' h v t"
  proof (cases "v = GNil")
    case True
    with r assms(2) show ?thesis by (auto intro: copied_nil)
  next
    case False
    with r assms(1) have "copied T c h v t" by (simp add: copies_set_def)
    with False assms(3) show ?thesis by (simp add: copied_def)
  qed
qed

lemma copies_if_set [copies_rules]: "copies_set T c \<Longrightarrow> copies T (if_set c)"
  by (rule copies_nil_or_set) (simp_all add: if_set_def [abs_def])

lemma get_cell_ref: "cell_at h a = Some c \<Longrightarrow> get_cell (GRef a) h = (Inr c, h)"
  by (simp add: get_cell_def)

lemma new_cell_simp [simp]: "new_cell c h = (Inr (length h), h @ [c])"
  by (simp add: new_cell_def)

lemma put_new [simp]: "put_cell (length h) d (h @ c # new) = (Inr (), h @ d # new)"
  by (simp add: put_cell_def)

text \<open>The statements that allocate one cell, run the copier of what it holds, and fill the cell.\<close>

lemma copies_new_of [copies_rules]:
  fixes c :: "'l copier"
  assumes c: "copies T c"
  shows "copies_set (TPtr T) (new_of c)"
proof (rule copies_setI)
  fix h :: "'l store" and v t as
  assume "read (TPtr T) h v = Some (t, as)" "v \<noteq> GNil"
  then obtain a x u bs where v: "v = GRef a" "cell_at h a = Some (CVar x)" "read T h x = Some (u, bs)" "t = To u"
    by (auto simp: read_ptr_iff)
  from copiesD [OF c read_append [OF v(3)]] obtain y new cs where
    y: "c x (h @ [CVar x]) = (Inr y, (h @ [CVar x]) @ new)" "read T ((h @ [CVar x]) @ new) y = Some (u, cs)"
      "fresh (h @ [CVar x]) new cs" .
  have "read T (h @ CVar y # new) y = Some (u, cs)"
    by (rule read_mono [OF y(2)]) (blast intro: kept_fresh [OF y(3)])
  then have "read (TPtr T) (h @ CVar y # new) (GRef (length h)) = Some (t, length h # cs)"
    by (auto simp: read_ptr_iff cell_at_def v(4))
  moreover have "new_of c v h = (Inr (GRef (length h)), h @ CVar y # new)"
    using y(1) by (simp add: new_of_def v(1) get_cell_ref [OF v(2)])
  ultimately show "copied (TPtr T) (new_of c) h v t"
    unfolding copied_def using fresh_Cons [OF y(3)] by blast
qed

lemma copies_address_of [copies_rules]:
  fixes c :: "'l copier"
  assumes c: "copies T c"
  shows "copies_set (TPtr T) (address_of c)"
proof (rule copies_setI)
  fix h :: "'l store" and v t as
  assume "read (TPtr T) h v = Some (t, as)" "v \<noteq> GNil"
  then obtain a x u bs where v: "v = GRef a" "cell_at h a = Some (CVar x)" "read T h x = Some (u, bs)" "t = To u"
    by (auto simp: read_ptr_iff)
  from copiesD [OF c v(3)] obtain y new cs where
    y: "c x h = (Inr y, h @ new)" "read T (h @ new) y = Some (u, cs)" "fresh h new cs" .
  have "read (TPtr T) (h @ new @ [CVar y]) (GRef (length (h @ new))) = Some (t, length (h @ new) # cs)"
    using read_append [OF y(2), of "[CVar y]"] by (auto simp: read_ptr_iff cell_at_def v(4) nth_append)
  moreover have "address_of c v h = (Inr (GRef (length (h @ new))), h @ new @ [CVar y])"
    using y(1) by (simp add: address_of_def v(1) get_cell_ref [OF v(2)])
  moreover have "fresh h (new @ [CVar y]) (length (h @ new) # cs)"
    using y(3) by (auto simp: fresh_def)
  ultimately show "copied (TPtr T) (address_of c) h v t"
    unfolding copied_def by blast
qed

lemma copies_value_of_copy [copies_rules]:
  fixes c :: "'l copier"
  assumes c: "copies T c"
  shows "copies T (value_of_copy c)"
proof (rule copiesI)
  fix h :: "'l store" and v t as
  assume r: "read T h v = Some (t, as)"
  from copiesD [OF c read_append [OF r]] obtain y new cs where
    y: "c v (h @ [CVar v]) = (Inr y, (h @ [CVar v]) @ new)" "read T ((h @ [CVar v]) @ new) y = Some (t, cs)"
      "fresh (h @ [CVar v]) new cs" .
  have "read T (h @ CVar y # new) y = Some (t, cs)"
    by (rule read_mono [OF y(2)]) (blast intro: kept_fresh [OF y(3)])
  moreover have "value_of_copy c v h = (Inr y, h @ CVar y # new)"
    using y(1) by (simp add: value_of_copy_def)
  moreover have "fresh h (CVar y # new) cs" using fresh_Cons [OF y(3), of "CVar y"] by (simp add: fresh_def)
  ultimately show "copied T (value_of_copy c) h v t" unfolding copied_def by blast
qed

text \<open>Loops over the elements of a slice and the entries of a map.\<close>

lemma mapp_copies:
  fixes c :: "'l copier"
  assumes c: "copies T c" and r: "collect (map (read T h) xs) = Some (ts, as)"
  obtains ys new bs where "mapp c xs h = (Inr ys, h @ new)" "collect (map (read T (h @ new)) ys) = Some (ts, bs)"
    "fresh h new bs"
  using r
proof (induction xs arbitrary: h ts as thesis)
  case (Cons x xs)
  from Cons.prems(2) obtain t as' us cs where
    x: "read T h x = Some (t, as')" and xs: "collect (map (read T h) xs) = Some (us, cs)" and ts: "ts = t # us"
    by (auto simp: collect_Cons_iff)
  from copiesD [OF c x] obtain y n1 bs1 where
    y: "c x h = (Inr y, h @ n1)" "read T (h @ n1) y = Some (t, bs1)" "fresh h n1 bs1" .
  obtain ys n2 bs2 where ys: "mapp c xs (h @ n1) = (Inr ys, (h @ n1) @ n2)"
    "collect (map (read T ((h @ n1) @ n2)) ys) = Some (us, bs2)" "fresh (h @ n1) n2 bs2"
    by (rule Cons.IH [OF _ collect_append [OF xs, of n1]])
  have "mapp c (x # xs) h = (Inr (y # ys), h @ (n1 @ n2))" using y(1) ys(1) by simp
  moreover have "collect (map (read T (h @ n1 @ n2)) (y # ys)) = Some (ts, bs1 @ bs2)"
    using read_append [OF y(2), of n2] ys(2) by (simp add: ts)
  ultimately show ?case by (rule Cons.prems(1)) (rule fresh_append [OF y(3) ys(3)])
qed auto

lemma mapp_length: "mapp f xs h = (Inr ys, h') \<Longrightarrow> length ys = length xs"
proof (induction xs arbitrary: h ys)
  case (Cons x xs)
  then show ?case by (auto simp: bindp_eq_ok retp_def)
qed (simp add: retp_def)

lemma mapp_entries:
  assumes "mapp c (map snd kvs) h = (Inr ys, h')"
  shows "mapp (\<lambda>kv. bindp (c (snd kv)) (\<lambda>y. retp (fst kv, y))) kvs h = (Inr (zip (map fst kvs) ys), h')"
  using assms
proof (induction kvs arbitrary: h ys)
  case (Cons kv kvs)
  then obtain y h1 zs where "c (snd kv) h = (Inr y, h1)" "mapp c (map snd kvs) h1 = (Inr zs, h')" "ys = y # zs"
    by (auto simp: bindp_eq_ok retp_def)
  with Cons.IH show ?case by simp
qed simp

lemma kept_elements:
  assumes "collect (map (read T ((h @ [c]) @ new)) ys) = Some (ts, bs)" and "fresh (h @ [c]) new bs"
  shows "collect (map (read T (h @ d # new)) ys) = Some (ts, bs)"
  using assms(1)
proof (rule collect_mono)
  show "\<forall>a\<in>set bs. kept ((h @ [c]) @ new) (h @ d # new) a" using kept_fresh [OF assms(2)] by blast
qed (rule read_mono)

lemma copies_make_slice [copies_rules]:
  fixes c :: "'l copier"
  assumes c: "copies T c"
  shows "copies_set (TSlice T) (make_slice c)"
proof (rule copies_setI)
  fix h :: "'l store" and v t as
  assume "read (TSlice T) h v = Some (t, as)" "v \<noteq> GNil"
  then obtain a xs us bs where v: "v = GRef a" "cell_at h a = Some (CArr xs)"
    "collect (map (read T h) xs) = Some (us, bs)" "t = Elems us" by (auto simp: read_slice_iff)
  let ?z = "CArr (map (\<lambda>_. GNil) xs) :: 'l cell"
  from mapp_copies [OF c collect_append [OF v(3)]] obtain ys new cs where
    y: "mapp c xs (h @ [?z]) = (Inr ys, (h @ [?z]) @ new)"
      "collect (map (read T ((h @ [?z]) @ new)) ys) = Some (us, cs)" "fresh (h @ [?z]) new cs" .
  have "read (TSlice T) (h @ CArr ys # new) (GRef (length h)) = Some (t, length h # cs)"
    using kept_elements [OF y(2,3)] by (auto simp: read_slice_iff cell_at_def v(4))
  moreover have "make_slice c v h = (Inr (GRef (length h)), h @ CArr ys # new)"
    using y(1) by (simp add: make_slice_def v(1) get_cell_ref [OF v(2)])
  ultimately show "copied (TSlice T) (make_slice c) h v t"
    unfolding copied_def using fresh_Cons [OF y(3)] by blast
qed

lemma copies_make_map [copies_rules]:
  fixes c :: "'l copier"
  assumes c: "copies T c"
  shows "copies_set (TDict T) (make_map c)"
proof (rule copies_setI)
  fix h :: "'l store" and v t as
  assume "read (TDict T) h v = Some (t, as)" "v \<noteq> GNil"
  then obtain a kvs us bs where v: "v = GRef a" "cell_at h a = Some (CTab kvs)"
    "collect (map (read T h) (map snd kvs)) = Some (us, bs)" "t = Keyed (zip (map fst kvs) us)"
    by (auto simp: read_dict_iff)
  from mapp_copies [OF c collect_append [OF v(3)]] obtain ys new cs where
    y: "mapp c (map snd kvs) (h @ [CTab []]) = (Inr ys, (h @ [CTab []]) @ new)"
      "collect (map (read T ((h @ [CTab []]) @ new)) ys) = Some (us, cs)" "fresh (h @ [CTab []]) new cs" .
  let ?kws = "zip (map fst kvs) ys"
  have kws: "map fst ?kws = map fst kvs" "map snd ?kws = ys" using mapp_length [OF y(1)] by simp_all
  have "read (TDict T) (h @ CTab ?kws # new) (GRef (length h)) = Some (t, length h # cs)"
    using kept_elements [OF y(2,3)] kws by (auto simp: read_dict_iff cell_at_def v(4) simp del: map_map)
  moreover have "make_map c v h = (Inr (GRef (length h)), h @ CTab ?kws # new)"
    using mapp_entries [OF y(1)] by (simp add: make_map_def v(1) get_cell_ref [OF v(2)])
  ultimately show "copied (TDict T) (make_map c) h v t"
    unfolding copied_def using fresh_Cons [OF y(3)] by blast
qed

text \<open>
  A method covers a struct when it names, in the order of the struct, every field that is not flat, each
  with a copier of its type.
\<close>

fun covers :: "(string \<times> 'l copier) list \<Rightarrow> (string \<times> gty) list \<Rightarrow> bool" where
  "covers ups [] = (ups = [])"
| "covers [] ((f, T) # fs) = (T = TFlat \<and> covers [] fs)"
| "covers ((g, c) # ups) ((f, T) # fs) =
     (if g = f then copies T c \<and> covers ups fs else T = TFlat \<and> covers ((g, c) # ups) fs)"

lemma map_fresh_field: "f \<notin> fst ` set xs \<Longrightarrow> map (\<lambda>(g, x). (g, if g = f then y else x)) xs = xs"
  by (induction xs) auto

lemma read_fields_names: "read_fields fs h xs = Some (ts, as) \<Longrightarrow> map fst xs = map fst fs"
proof (induction fs arbitrary: xs ts as)
  case (Cons f fs)
  then show ?case by (cases f) (auto simp: read_fields_Cons_iff)
qed (simp split: if_splits)

abbreviation field_step :: "'l gval \<Rightarrow> string \<times> 'l copier \<Rightarrow> 'l gval \<Rightarrow> ('l store, 'l gval) proc" where
  "field_step v \<equiv> \<lambda>(f, c) out. bindp (liftp (get_field v f)) (\<lambda>x. bindp (c x) (\<lambda>y. retp (set_field out f y)))"

text \<open>The fields \<open>pre\<close> are done; the method goes through the rest.\<close>

lemma into_fields:
  fixes ups :: "(string \<times> 'l copier) list"
  assumes "covers ups fs" and "read_fields fs h xs = Some (ts, as)"
    and "distinct (map fst (pre @ xs))" and "\<And>f x. (f, x) \<in> set xs \<Longrightarrow> get_field v f = Inr x"
  obtains ys new bs where "foldp (field_step v) ups (GStruct (pre @ xs)) h = (Inr (GStruct (pre @ ys)), h @ new)"
    "read_fields fs (h @ new) ys = Some (ts, bs)" "fresh h new bs"
  using assms
proof (induction ups fs arbitrary: h xs ts as pre thesis rule: covers.induct)
  case (1 ups)
  from 1(3) have "xs = []" "ts = []" by (auto split: if_splits)
  with 1(2) show ?case by (intro 1(1) [of "[]" "[]" "[]"]) simp_all
next
  case (2 f T fs)
  from 2(4) obtain x zs t bs us cs where xs: "xs = (f, x) # zs" "read T h x = Some (t, bs)"
    "read_fields fs h zs = Some (us, cs)" "ts = (f, t) # us" by (auto simp: read_fields_Cons_iff)
  from 2(3) have T: "T = TFlat" "covers ([] :: (string \<times> 'l copier) list) fs" by simp_all
  obtain ys new ds where ys: "foldp (field_step v) [] (GStruct ((pre @ [(f, x)]) @ zs)) h = (Inr (GStruct ((pre @ [(f, x)]) @ ys)), h @ new)"
    "read_fields fs (h @ new) ys = Some (us, ds)" "fresh h new ds"
    by (rule 2(1) [OF _ T(2) xs(3), of "pre @ [(f, x)]"]) (use 2(5,6) xs(1) in auto)
  have "read_fields ((f, T) # fs) (h @ new) ((f, x) # ys) = Some (ts, ds)"
    using xs(2) ys(2) by (auto simp: read_fields_Cons_iff T xs(4) split: if_splits)
  with ys show ?case by (intro 2(2) [of "(f, x) # ys" new ds]) (simp_all add: xs(1))
next
  case (3 g c ups f T fs)
  from 3(5) obtain x zs t bs us cs where xs: "xs = (f, x) # zs" "read T h x = Some (t, bs)"
    "read_fields fs h zs = Some (us, cs)" "ts = (f, t) # us" by (auto simp: read_fields_Cons_iff)
  show ?case
  proof (cases "g = f")
    case False
    with 3(4) have T: "T = TFlat" "covers ((g, c) # ups) fs" by simp_all
    obtain ys new ds where ys: "foldp (field_step v) ((g, c) # ups) (GStruct ((pre @ [(f, x)]) @ zs)) h =
        (Inr (GStruct ((pre @ [(f, x)]) @ ys)), h @ new)"
      "read_fields fs (h @ new) ys = Some (us, ds)" "fresh h new ds"
      by (rule 3(2) [OF False _ T(2) xs(3), of "pre @ [(f, x)]"], erule that, assumption, assumption)
        (use 3(6,7) xs(1) in auto)
    have run: "foldp (field_step v) ((g, c) # ups) (GStruct (pre @ xs)) h = (Inr (GStruct (pre @ (f, x) # ys)), h @ new)"
      using ys(1) by (simp only: xs(1) append_assoc append_Cons append_Nil)
    have "read_fields ((f, T) # fs) (h @ new) ((f, x) # ys) = Some (ts, ds)"
      using xs(2) ys(2) by (auto simp: read_fields_Cons_iff T xs(4) split: if_splits)
    then show ?thesis by (rule 3(3) [OF run _ ys(3)])
  next
    case True
    with 3(4) have T: "copies T c" "covers ups fs" by simp_all
    from copiesD [OF T(1) xs(2)] obtain y n1 bs1 where
      y: "c x h = (Inr y, h @ n1)" "read T (h @ n1) y = Some (t, bs1)" "fresh h n1 bs1" .
    have "f \<notin> fst ` set pre" "f \<notin> fst ` set zs" using 3(6) by (auto simp: xs(1))
    then have set: "set_field (GStruct (pre @ (f, x) # zs)) f y = GStruct ((pre @ [(f, y)]) @ zs)"
      by (simp add: map_fresh_field)
    have get: "get_field v f = Inr x" using 3(7) by (simp add: xs(1))
    obtain ys n2 ds where ys: "foldp (field_step v) ups (GStruct ((pre @ [(f, y)]) @ zs)) (h @ n1) =
        (Inr (GStruct ((pre @ [(f, y)]) @ ys)), (h @ n1) @ n2)"
      "read_fields fs ((h @ n1) @ n2) ys = Some (us, ds)" "fresh (h @ n1) n2 ds"
      by (rule 3(1) [OF True _ T(2) read_fields_append [OF xs(3)], of "pre @ [(f, y)]" n1], erule that, assumption, assumption)
        (use 3(6,7) xs(1) in auto)
    have "read_fields ((f, T) # fs) (h @ n1 @ n2) ((f, y) # ys) = Some (ts, bs1 @ ds)"
      using read_append [OF y(2), of n2] ys(2) by (auto simp: read_fields_Cons_iff xs(4))
    moreover have "foldp (field_step v) ((g, c) # ups) (GStruct (pre @ xs)) h = (Inr (GStruct (pre @ (f, y) # ys)), h @ n1 @ n2)"
      using y(1) ys(1) set get by (simp add: True xs(1))
    moreover note fresh_append [OF y(3) ys(3)]
    ultimately show ?thesis by (metis 3(3))
  qed
qed

lemma copies_into [copies_rules]:
  fixes ups :: "(string \<times> 'l copier) list"
  assumes "distinct (map fst fs)" and "covers ups fs"
  shows "copies (TRec fs) (into ups)"
proof (rule copiesI)
  fix h :: "'l store" and v t as
  assume "read (TRec fs) h v = Some (t, as)"
  then obtain xs ts where v: "v = GStruct xs" "read_fields fs h xs = Some (ts, as)" "t = Fields ts"
    by (auto simp: read_rec_iff)
  have names: "distinct (map fst ([] @ xs))" using read_fields_names [OF v(2)] assms(1) by simp
  obtain ys new bs where "foldp (field_step v) ups (GStruct ([] @ xs)) h = (Inr (GStruct ([] @ ys)), h @ new)"
    "read_fields fs (h @ new) ys = Some (ts, bs)" "fresh h new bs"
    by (rule into_fields [OF assms(2) v(2) names, of v]) (use names in \<open>auto simp: v(1)\<close>)
  then show "copied (TRec fs) (into ups) h v t"
    by (auto simp: copied_def into_def v(1,3) read_rec_iff)
qed

lemma copies_deep_copy [copies_rules]: "copies T c \<Longrightarrow> copies (TPtr T) (deep_copy c)"
  by (rule copies_nil_or_set [OF copies_new_of]) (simp_all add: deep_copy_def [abs_def])

text \<open>
  What \<open>DeepCopyObject\<close> promises a caller: nothing for nil; otherwise an object of the type that
  says the same, met nowhere else, so that whatever is stored through the copy the original stays as it was.
\<close>

definition copies_object :: "gty \<Rightarrow> string \<Rightarrow> ('l gval \<Rightarrow> ('l store, (string \<times> 'l gval) option) proc) \<Rightarrow> bool" where
  "copies_object T ty f \<longleftrightarrow>
     (\<forall>h. f GNil h = (Inr None, h)) \<and>
     (\<forall>h v t as. read (TPtr T) h v = Some (t, as) \<longrightarrow> v \<noteq> GNil \<longrightarrow>
        (\<exists>w new bs. f v h = (Inr (Some (ty, w)), h @ new) \<and> read (TPtr T) (h @ new) w = Some (t, bs) \<and> distinct bs \<and>
           set bs \<inter> set as = {} \<and>
           (\<forall>a\<in>set bs. \<forall>cell. read (TPtr T) ((h @ new)[a := cell]) v = Some (t, as))))"

lemma copies_object_rule:
  fixes c :: "'l copier"
  assumes "copies (TPtr T) (deep_copy c)"
  shows "copies_object T ty (copy_object ty (deep_copy c))"
  unfolding copies_object_def
proof (intro conjI allI impI)
  show "copy_object ty (deep_copy c) GNil h = (Inr None, h)" for h by (simp add: copy_object_def deep_copy_def)
  fix h :: "'l store" and v t as
  assume r: "read (TPtr T) h v = Some (t, as)" and v: "v \<noteq> GNil"
  from copiesD [OF assms r] obtain w new bs where
    w: "deep_copy c v h = (Inr w, h @ new)" "read (TPtr T) (h @ new) w = Some (t, bs)" "fresh h new bs" .
  have "w \<noteq> GNil" using r v w(2) by (auto simp: read_ptr_iff)
  then have run: "copy_object ty (deep_copy c) v h = (Inr (Some (ty, w)), h @ new)"
    using w(1) by (simp add: copy_object_def)
  have same: "read (TPtr T) ((h @ new)[a := cell]) v = Some (t, as)" if "a \<in> set bs" for a cell
  proof (rule read_mono [OF r])
    have "length h \<le> a" using w(3) that by (auto simp: fresh_def)
    then show "\<forall>b\<in>set as. kept h ((h @ new)[a := cell]) b" by (simp add: kept_new)
  qed
  have "set bs \<inter> set as = {}" using read_in_use [OF r] w(3) by (fastforce simp: fresh_def)
  with run w(2,3) same show "\<exists>w new bs. copy_object ty (deep_copy c) v h = (Inr (Some (ty, w)), h @ new) \<and>
      read (TPtr T) (h @ new) w = Some (t, bs) \<and> distinct bs \<and> set bs \<inter> set as = {} \<and>
      (\<forall>a\<in>set bs. \<forall>cell. read (TPtr T) ((h @ new)[a := cell]) v = Some (t, as))"
    by (auto simp: fresh_def)
qed

end
