(* ===== verification/CopyMethods.thy ===== *)
theory CopyMethods
  imports DeepCopy
begin

text \<open>
  The methods of zz_generated.deepcopy.go, each as the list of the fields it copies with the statements
  the code has for them, over the store of DeepCopy. Beside each method stands the type of its struct
  (\<open>ty_\<close>), read off the declaration of the struct and not off the method: that the method covers
  every field that holds a reference is what its lemma shows.

  \<open>resource.Quantity\<close>, \<open>metav1.ObjectMeta\<close>, \<open>metav1.ListMeta\<close> and
  \<open>metav1.Condition\<close> come from other packages: their types and copies are parameters
  (\<open>foreign\<close>). \<open>metav1.TypeMeta\<close> and \<open>corev1.Port\<close> hold strings and a number, and
  the generated code copies them by assignment.
\<close>

section \<open>Types of other packages\<close>

record 'l foreign =
  ty_Quantity :: gty
  Quantity_DeepCopy :: "'l copier"
  ty_ObjectMeta :: gty
  ObjectMeta_DeepCopyInto :: "'l copier"
  ty_ListMeta :: gty
  ListMeta_DeepCopyInto :: "'l copier"
  ty_Condition :: gty
  Condition_DeepCopyInto :: "'l copier"

definition foreign_laws :: "'l foreign \<Rightarrow> bool" where
  "foreign_laws F \<longleftrightarrow> copies (ty_Quantity F) (Quantity_DeepCopy F) \<and> copies (ty_ObjectMeta F) (ObjectMeta_DeepCopyInto F) \<and>
     copies (ty_ListMeta F) (ListMeta_DeepCopyInto F) \<and> copies (ty_Condition F) (Condition_DeepCopyInto F)"

lemma foreign_copies [copies_rules]:
  assumes "foreign_laws F"
  shows "copies (ty_Quantity F) (Quantity_DeepCopy F)" and "copies (ty_ObjectMeta F) (ObjectMeta_DeepCopyInto F)"
    and "copies (ty_ListMeta F) (ListMeta_DeepCopyInto F)" and "copies (ty_Condition F) (Condition_DeepCopyInto F)"
  using assms by (simp_all add: foreign_laws_def)

section \<open>The methods\<close>

definition ty_Connector :: gty where
  "ty_Connector = TRec
     [(''NodeName'', TPtr TFlat),
      (''PortId'', TPtr TFlat),
      (''Addrs'', TSlice TFlat),
      (''Routes'', TSlice TFlat),
      (''Mac'', TPtr TFlat)]"

definition Connector_DeepCopyInto :: "'l copier" where
  "Connector_DeepCopyInto = into
     [(''NodeName'', if_set (new_of plain)),
      (''PortId'', if_set (new_of plain)),
      (''Addrs'', if_set (make_slice plain)),
      (''Routes'', if_set (make_slice plain)),
      (''Mac'', if_set (new_of plain))]"

definition Connector_DeepCopy :: "'l copier" where
  "Connector_DeepCopy = deep_copy Connector_DeepCopyInto"

definition ty_Link :: gty where
  "ty_Link = TRec
     [(''Connectors'', TSlice ty_Connector)]"

definition Link_DeepCopyInto :: "'l copier" where
  "Link_DeepCopyInto = into
     [(''Connectors'', if_set (make_slice Connector_DeepCopyInto))]"

definition Link_DeepCopy :: "'l copier" where
  "Link_DeepCopy = deep_copy Link_DeepCopyInto"

definition ty_XIOM :: gty where
  "ty_XIOM = TRec
     [(''Model'', TPtr TFlat),
      (''MDAs'', TSlice TFlat)]"

definition XIOM_DeepCopyInto :: "'l copier" where
  "XIOM_DeepCopyInto = into
     [(''Model'', if_set (new_of plain)),
      (''MDAs'', if_set (make_slice plain))]"

definition XIOM_DeepCopy :: "'l copier" where
  "XIOM_DeepCopy = deep_copy XIOM_DeepCopyInto"

definition ty_SRCard :: "'l foreign \<Rightarrow> gty" where
  "ty_SRCard F = TRec
     [(''Model'', TPtr TFlat),
      (''SysInfo'', TPtr TFlat),
      (''MDAs'', TPtr (TSlice TFlat)),
      (''XIOM'', TDict ty_XIOM),
      (''ReqMemory'', TPtr (ty_Quantity F)),
      (''ReqCPU'', TPtr (ty_Quantity F)),
      (''ListenPorts'', TPtr (TSlice TFlat))]"

definition SRCard_DeepCopyInto :: "'l foreign \<Rightarrow> 'l copier" where
  "SRCard_DeepCopyInto F = into
     [(''Model'', if_set (new_of plain)),
      (''SysInfo'', if_set (new_of plain)),
      (''MDAs'', if_set (new_of (if_set (make_slice plain)))),
      (''XIOM'', if_set (make_map (value_of_copy XIOM_DeepCopyInto))),
      (''ReqMemory'', if_set (address_of (Quantity_DeepCopy F))),
      (''ReqCPU'', if_set (address_of (Quantity_DeepCopy F))),
      (''ListenPorts'', if_set (new_of (if_set (make_slice plain))))]"

definition SRCard_DeepCopy :: "'l foreign \<Rightarrow> 'l copier" where
  "SRCard_DeepCopy F = deep_copy (SRCard_DeepCopyInto F)"

definition ty_SRChassis :: "'l foreign \<Rightarrow> gty" where
  "ty_SRChassis F = TRec
     [(''Type'', TPtr TFlat),
      (''Model'', TPtr TFlat),
      (''Cards'', TDict (TPtr (ty_SRCard F))),
      (''SFM'', TPtr TFlat),
      (''ChassisMAC'', TPtr TFlat)]"

definition SRChassis_DeepCopyInto :: "'l foreign \<Rightarrow> 'l copier" where
  "SRChassis_DeepCopyInto F = into
     [(''Type'', if_set (new_of plain)),
      (''Model'', if_set (new_of plain)),
      (''Cards'', if_set (make_map (if_set (new_of (SRCard_DeepCopyInto F))))),
      (''SFM'', if_set (new_of plain)),
      (''ChassisMAC'', if_set (new_of plain))]"

definition SRChassis_DeepCopy :: "'l foreign \<Rightarrow> 'l copier" where
  "SRChassis_DeepCopy F = deep_copy (SRChassis_DeepCopyInto F)"

definition ty_SRVM :: "'l foreign \<Rightarrow> gty" where
  "ty_SRVM F = TRec
     [(''Chassis'', TPtr (ty_SRChassis F)),
      (''Image'', TPtr TFlat),
      (''DiskSize'', TPtr (ty_Quantity F)),
      (''License'', TPtr TFlat),
      (''UUID'', TPtr TFlat),
      (''Dedicate'', TPtr TFlat)]"

definition SRVM_DeepCopyInto :: "'l foreign \<Rightarrow> 'l copier" where
  "SRVM_DeepCopyInto F = into
     [(''Chassis'', if_set (new_of (SRChassis_DeepCopyInto F))),
      (''Image'', if_set (new_of plain)),
      (''DiskSize'', if_set (address_of (Quantity_DeepCopy F))),
      (''License'', if_set (new_of plain)),
      (''UUID'', if_set (new_of plain)),
      (''Dedicate'', if_set (new_of plain))]"

definition SRVM_DeepCopy :: "'l foreign \<Rightarrow> 'l copier" where
  "SRVM_DeepCopy F = deep_copy (SRVM_DeepCopyInto F)"

definition ty_VSIM :: "'l foreign \<Rightarrow> gty" where
  "ty_VSIM F = ty_SRVM F"

definition VSIM_DeepCopyInto :: "'l foreign \<Rightarrow> 'l copier" where
  "VSIM_DeepCopyInto F = into
     [(''Chassis'', if_set (new_of (SRChassis_DeepCopyInto F))),
      (''Image'', if_set (new_of plain)),
      (''DiskSize'', if_set (address_of (Quantity_DeepCopy F))),
      (''License'', if_set (new_of plain)),
      (''UUID'', if_set (new_of plain)),
      (''Dedicate'', if_set (new_of plain))]"

definition VSIM_DeepCopy :: "'l foreign \<Rightarrow> 'l copier" where
  "VSIM_DeepCopy F = deep_copy (VSIM_DeepCopyInto F)"

definition ty_VSRI :: "'l foreign \<Rightarrow> gty" where
  "ty_VSRI F = ty_SRVM F"

definition VSRI_DeepCopyInto :: "'l foreign \<Rightarrow> 'l copier" where
  "VSRI_DeepCopyInto F = into
     [(''Chassis'', if_set (new_of (SRChassis_DeepCopyInto F))),
      (''Image'', if_set (new_of plain)),
      (''DiskSize'', if_set (address_of (Quantity_DeepCopy F))),
      (''License'', if_set (new_of plain)),
      (''UUID'', if_set (new_of plain)),
      (''Dedicate'', if_set (new_of plain))]"

definition VSRI_DeepCopy :: "'l foreign \<Rightarrow> 'l copier" where
  "VSRI_DeepCopy F = deep_copy (VSRI_DeepCopyInto F)"

definition ty_MAGC :: "'l foreign \<Rightarrow> gty" where
  "ty_MAGC F = ty_SRVM F"

definition MAGC_DeepCopyInto :: "'l foreign \<Rightarrow> 'l copier" where
  "MAGC_DeepCopyInto F = into
     [(''Chassis'', if_set (new_of (SRChassis_DeepCopyInto F))),
      (''Image'', if_set (new_of plain)),
      (''DiskSize'', if_set (address_of (Quantity_DeepCopy F))),
      (''License'', if_set (new_of plain)),
      (''UUID'', if_set (new_of plain)),
      (''Dedicate'', if_set (new_of plain))]"

definition MAGC_DeepCopy :: "'l foreign \<Rightarrow> 'l copier" where
  "MAGC_DeepCopy F = deep_copy (MAGC_DeepCopyInto F)"

definition ty_SRLinux :: "'l foreign \<Rightarrow> gty" where
  "ty_SRLinux F = TRec
     [(''Image'', TPtr TFlat),
      (''Chassis'', TPtr TFlat),
      (''LicSecret'', TPtr TFlat),
      (''ReqMemory'', TPtr (ty_Quantity F)),
      (''ReqCPU'', TPtr (ty_Quantity F))]"

definition SRLinux_DeepCopyInto :: "'l foreign \<Rightarrow> 'l copier" where
  "SRLinux_DeepCopyInto F = into
     [(''Image'', if_set (new_of plain)),
      (''Chassis'', if_set (new_of plain)),
      (''LicSecret'', if_set (new_of plain)),
      (''ReqMemory'', if_set (address_of (Quantity_DeepCopy F))),
      (''ReqCPU'', if_set (address_of (Quantity_DeepCopy F)))]"

definition SRLinux_DeepCopy :: "'l foreign \<Rightarrow> 'l copier" where
  "SRLinux_DeepCopy F = deep_copy (SRLinux_DeepCopyInto F)"

definition ty_SRSim :: "'l foreign \<Rightarrow> gty" where
  "ty_SRSim F = TRec
     [(''Image'', TPtr TFlat),
      (''Chassis'', TPtr (ty_SRChassis F)),
      (''LicSecret'', TPtr TFlat)]"

definition SRSim_DeepCopyInto :: "'l foreign \<Rightarrow> 'l copier" where
  "SRSim_DeepCopyInto F = into
     [(''Image'', if_set (new_of plain)),
      (''Chassis'', if_set (new_of (SRChassis_DeepCopyInto F))),
      (''LicSecret'', if_set (new_of plain))]"

definition SRSim_DeepCopy :: "'l foreign \<Rightarrow> 'l copier" where
  "SRSim_DeepCopy F = deep_copy (SRSim_DeepCopyInto F)"

definition ty_GeneralVM :: "'l foreign \<Rightarrow> gty" where
  "ty_GeneralVM F = TRec
     [(''ReqMemory'', TPtr (ty_Quantity F)),
      (''ReqCPU'', TPtr (ty_Quantity F)),
      (''DiskSize'', TPtr (ty_Quantity F)),
      (''PinCPU'', TPtr TFlat),
      (''HugePage'', TPtr TFlat),
      (''Image'', TPtr TFlat),
      (''InitMethod'', TPtr TFlat),
      (''Ports'', TPtr (TSlice TFlat)),
      (''Username'', TPtr TFlat),
      (''Password'', TPtr TFlat)]"

definition GeneralVM_DeepCopyInto :: "'l foreign \<Rightarrow> 'l copier" where
  "GeneralVM_DeepCopyInto F = into
     [(''ReqMemory'', if_set (address_of (Quantity_DeepCopy F))),
      (''ReqCPU'', if_set (address_of (Quantity_DeepCopy F))),
      (''DiskSize'', if_set (address_of (Quantity_DeepCopy F))),
      (''PinCPU'', if_set (new_of plain)),
      (''HugePage'', if_set (new_of plain)),
      (''Image'', if_set (new_of plain)),
      (''InitMethod'', if_set (new_of plain)),
      (''Ports'', if_set (new_of (if_set (make_slice plain)))),
      (''Username'', if_set (new_of plain)),
      (''Password'', if_set (new_of plain))]"

definition GeneralVM_DeepCopy :: "'l foreign \<Rightarrow> 'l copier" where
  "GeneralVM_DeepCopy F = deep_copy (GeneralVM_DeepCopyInto F)"

definition ty_GeneralPod :: "'l foreign \<Rightarrow> gty" where
  "ty_GeneralPod F = TRec
     [(''Image'', TPtr TFlat),
      (''Command'', TPtr TFlat),
      (''Privileged'', TPtr TFlat),
      (''PvcSize'', TPtr (ty_Quantity F)),
      (''ReqMemory'', TPtr (ty_Quantity F)),
      (''ReqCPU'', TPtr (ty_Quantity F))]"

definition GeneralPod_DeepCopyInto :: "'l foreign \<Rightarrow> 'l copier" where
  "GeneralPod_DeepCopyInto F = into
     [(''Image'', if_set (new_of plain)),
      (''Command'', if_set (new_of plain)),
      (''Privileged'', if_set (new_of plain)),
      (''PvcSize'', if_set (address_of (Quantity_DeepCopy F))),
      (''ReqMemory'', if_set (address_of (Quantity_DeepCopy F))),
      (''ReqCPU'', if_set (address_of (Quantity_DeepCopy F)))]"

definition GeneralPod_DeepCopy :: "'l foreign \<Rightarrow> 'l copier" where
  "GeneralPod_DeepCopy F = deep_copy (GeneralPod_DeepCopyInto F)"

definition ty_OneOfSystem :: "'l foreign \<Rightarrow> gty" where
  "ty_OneOfSystem F = TRec
     [(''VSIM'', TPtr (ty_VSIM F)),
      (''VSRI'', TPtr (ty_VSRI F)),
      (''MAGC'', TPtr (ty_MAGC F)),
      (''VM'', TPtr (ty_GeneralVM F)),
      (''SRL'', TPtr (ty_SRLinux F)),
      (''Pod'', TPtr (ty_GeneralPod F)),
      (''SRSIM'', TPtr (ty_SRSim F))]"

definition OneOfSystem_DeepCopyInto :: "'l foreign \<Rightarrow> 'l copier" where
  "OneOfSystem_DeepCopyInto F = into
     [(''VSIM'', if_set (new_of (VSIM_DeepCopyInto F))),
      (''VSRI'', if_set (new_of (VSRI_DeepCopyInto F))),
      (''MAGC'', if_set (new_of (MAGC_DeepCopyInto F))),
      (''VM'', if_set (new_of (GeneralVM_DeepCopyInto F))),
      (''SRL'', if_set (new_of (SRLinux_DeepCopyInto F))),
      (''Pod'', if_set (new_of (GeneralPod_DeepCopyInto F))),
      (''SRSIM'', if_set (new_of (SRSim_DeepCopyInto F)))]"

definition OneOfSystem_DeepCopy :: "'l foreign \<Rightarrow> 'l copier" where
  "OneOfSystem_DeepCopy F = deep_copy (OneOfSystem_DeepCopyInto F)"

definition ty_KNLConfigSpec :: "'l foreign \<Rightarrow> gty" where
  "ty_KNLConfigSpec F = TRec
     [(''SFTPSever'', TPtr TFlat),
      (''VXLANGrpAddr'', TPtr TFlat),
      (''VXLANDefaultDev'', TPtr TFlat),
      (''VxDevMap'', TDict TFlat),
      (''PVCStorageClass'', TPtr TFlat),
      (''SRCPMLoaderImage'', TPtr TFlat),
      (''SRIOMLoaderImage'', TPtr TFlat),
      (''SideCarHookImg'', TPtr TFlat),
      (''DefaultNode'', TPtr (ty_OneOfSystem F))]"

definition KNLConfigSpec_DeepCopyInto :: "'l foreign \<Rightarrow> 'l copier" where
  "KNLConfigSpec_DeepCopyInto F = into
     [(''SFTPSever'', if_set (new_of plain)),
      (''VXLANGrpAddr'', if_set (new_of plain)),
      (''VXLANDefaultDev'', if_set (new_of plain)),
      (''VxDevMap'', if_set (make_map plain)),
      (''PVCStorageClass'', if_set (new_of plain)),
      (''SRCPMLoaderImage'', if_set (new_of plain)),
      (''SRIOMLoaderImage'', if_set (new_of plain)),
      (''SideCarHookImg'', if_set (new_of plain)),
      (''DefaultNode'', if_set (new_of (OneOfSystem_DeepCopyInto F)))]"

definition KNLConfigSpec_DeepCopy :: "'l foreign \<Rightarrow> 'l copier" where
  "KNLConfigSpec_DeepCopy F = deep_copy (KNLConfigSpec_DeepCopyInto F)"

definition ty_KNLConfigStatus :: gty where
  "ty_KNLConfigStatus = TRec
     [(''ObservedGeneration'', TPtr TFlat)]"

definition KNLConfigStatus_DeepCopyInto :: "'l copier" where
  "KNLConfigStatus_DeepCopyInto = into
     [(''ObservedGeneration'', if_set (new_of plain))]"

definition KNLConfigStatus_DeepCopy :: "'l copier" where
  "KNLConfigStatus_DeepCopy = deep_copy KNLConfigStatus_DeepCopyInto"

definition ty_KNLConfig :: "'l foreign \<Rightarrow> gty" where
  "ty_KNLConfig F = TRec
     [(''TypeMeta'', TFlat),
      (''ObjectMeta'', ty_ObjectMeta F),
      (''Spec'', ty_KNLConfigSpec F),
      (''Status'', ty_KNLConfigStatus)]"

definition KNLConfig_DeepCopyInto :: "'l foreign \<Rightarrow> 'l copier" where
  "KNLConfig_DeepCopyInto F = into
     [(''TypeMeta'', plain),
      (''ObjectMeta'', ObjectMeta_DeepCopyInto F),
      (''Spec'', KNLConfigSpec_DeepCopyInto F),
      (''Status'', KNLConfigStatus_DeepCopyInto)]"

definition KNLConfig_DeepCopy :: "'l foreign \<Rightarrow> 'l copier" where
  "KNLConfig_DeepCopy F = deep_copy (KNLConfig_DeepCopyInto F)"

definition KNLConfig_DeepCopyObject :: "'l foreign \<Rightarrow> 'l gval \<Rightarrow> ('l store, (string \<times> 'l gval) option) proc" where
  "KNLConfig_DeepCopyObject F = copy_object ''*v1beta1.KNLConfig'' (KNLConfig_DeepCopy F)"

definition ty_KNLConfigList :: "'l foreign \<Rightarrow> gty" where
  "ty_KNLConfigList F = TRec
     [(''TypeMeta'', TFlat),
      (''ListMeta'', ty_ListMeta F),
      (''Items'', TSlice (ty_KNLConfig F))]"

definition KNLConfigList_DeepCopyInto :: "'l foreign \<Rightarrow> 'l copier" where
  "KNLConfigList_DeepCopyInto F = into
     [(''TypeMeta'', plain),
      (''ListMeta'', ListMeta_DeepCopyInto F),
      (''Items'', if_set (make_slice (KNLConfig_DeepCopyInto F)))]"

definition KNLConfigList_DeepCopy :: "'l foreign \<Rightarrow> 'l copier" where
  "KNLConfigList_DeepCopy F = deep_copy (KNLConfigList_DeepCopyInto F)"

definition KNLConfigList_DeepCopyObject :: "'l foreign \<Rightarrow> 'l gval \<Rightarrow> ('l store, (string \<times> 'l gval) option) proc" where
  "KNLConfigList_DeepCopyObject F = copy_object ''*v1beta1.KNLConfigList'' (KNLConfigList_DeepCopy F)"

definition ty_LabSpec :: "'l foreign \<Rightarrow> gty" where
  "ty_LabSpec F = TRec
     [(''NodeList'', TDict (TPtr (ty_OneOfSystem F))),
      (''LinkList'', TDict (TPtr ty_Link))]"

definition LabSpec_DeepCopyInto :: "'l foreign \<Rightarrow> 'l copier" where
  "LabSpec_DeepCopyInto F = into
     [(''NodeList'', if_set (make_map (if_set (new_of (OneOfSystem_DeepCopyInto F))))),
      (''LinkList'', if_set (make_map (if_set (new_of Link_DeepCopyInto))))]"

definition LabSpec_DeepCopy :: "'l foreign \<Rightarrow> 'l copier" where
  "LabSpec_DeepCopy F = deep_copy (LabSpec_DeepCopyInto F)"

definition ty_LabStatus :: "'l foreign \<Rightarrow> gty" where
  "ty_LabStatus F = TRec
     [(''Conditions'', TSlice (ty_Condition F))]"

definition LabStatus_DeepCopyInto :: "'l foreign \<Rightarrow> 'l copier" where
  "LabStatus_DeepCopyInto F = into
     [(''Conditions'', if_set (make_slice (Condition_DeepCopyInto F)))]"

definition LabStatus_DeepCopy :: "'l foreign \<Rightarrow> 'l copier" where
  "LabStatus_DeepCopy F = deep_copy (LabStatus_DeepCopyInto F)"

definition ty_Lab :: "'l foreign \<Rightarrow> gty" where
  "ty_Lab F = TRec
     [(''TypeMeta'', TFlat),
      (''ObjectMeta'', ty_ObjectMeta F),
      (''Spec'', ty_LabSpec F),
      (''Status'', ty_LabStatus F)]"

definition Lab_DeepCopyInto :: "'l foreign \<Rightarrow> 'l copier" where
  "Lab_DeepCopyInto F = into
     [(''TypeMeta'', plain),
      (''ObjectMeta'', ObjectMeta_DeepCopyInto F),
      (''Spec'', LabSpec_DeepCopyInto F),
      (''Status'', LabStatus_DeepCopyInto F)]"

definition Lab_DeepCopy :: "'l foreign \<Rightarrow> 'l copier" where
  "Lab_DeepCopy F = deep_copy (Lab_DeepCopyInto F)"

definition Lab_DeepCopyObject :: "'l foreign \<Rightarrow> 'l gval \<Rightarrow> ('l store, (string \<times> 'l gval) option) proc" where
  "Lab_DeepCopyObject F = copy_object ''*v1beta1.Lab'' (Lab_DeepCopy F)"

definition ty_LabList :: "'l foreign \<Rightarrow> gty" where
  "ty_LabList F = TRec
     [(''TypeMeta'', TFlat),
      (''ListMeta'', ty_ListMeta F),
      (''Items'', TSlice (ty_Lab F))]"

definition LabList_DeepCopyInto :: "'l foreign \<Rightarrow> 'l copier" where
  "LabList_DeepCopyInto F = into
     [(''TypeMeta'', plain),
      (''ListMeta'', ListMeta_DeepCopyInto F),
      (''Items'', if_set (make_slice (Lab_DeepCopyInto F)))]"

definition LabList_DeepCopy :: "'l foreign \<Rightarrow> 'l copier" where
  "LabList_DeepCopy F = deep_copy (LabList_DeepCopyInto F)"

definition LabList_DeepCopyObject :: "'l foreign \<Rightarrow> 'l gval \<Rightarrow> ('l store, (string \<times> 'l gval) option) proc" where
  "LabList_DeepCopyObject F = copy_object ''*v1beta1.LabList'' (LabList_DeepCopy F)"

definition ty_SRLChassis :: gty where
  "ty_SRLChassis = TRec
     [(''ChassisConfiguration'', TFlat),
      (''SlotConfig'', TDict TFlat)]"

definition SRLChassis_DeepCopyInto :: "'l copier" where
  "SRLChassis_DeepCopyInto = into
     [(''ChassisConfiguration'', plain),
      (''SlotConfig'', if_set (make_map plain))]"

definition SRLChassis_DeepCopy :: "'l copier" where
  "SRLChassis_DeepCopy = deep_copy SRLChassis_DeepCopyInto"

section \<open>Every method copies its struct\<close>

lemma copies_Connector [copies_rules]: "copies ty_Connector Connector_DeepCopyInto"
  by (simp add: ty_Connector_def Connector_DeepCopyInto_def copies_rules)

lemma copies_Link [copies_rules]: "copies ty_Link Link_DeepCopyInto"
  by (simp add: ty_Link_def Link_DeepCopyInto_def copies_rules)

lemma copies_XIOM [copies_rules]: "copies ty_XIOM XIOM_DeepCopyInto"
  by (simp add: ty_XIOM_def XIOM_DeepCopyInto_def copies_rules)

lemma copies_SRCard [copies_rules]: "foreign_laws F \<Longrightarrow> copies (ty_SRCard F) (SRCard_DeepCopyInto F)"
  by (simp add: ty_SRCard_def SRCard_DeepCopyInto_def copies_rules)

lemma copies_SRChassis [copies_rules]: "foreign_laws F \<Longrightarrow> copies (ty_SRChassis F) (SRChassis_DeepCopyInto F)"
  by (simp add: ty_SRChassis_def SRChassis_DeepCopyInto_def copies_rules)

lemma copies_SRVM [copies_rules]: "foreign_laws F \<Longrightarrow> copies (ty_SRVM F) (SRVM_DeepCopyInto F)"
  by (simp add: ty_SRVM_def SRVM_DeepCopyInto_def copies_rules)

lemma copies_VSIM [copies_rules]: "foreign_laws F \<Longrightarrow> copies (ty_VSIM F) (VSIM_DeepCopyInto F)"
  by (simp add: ty_SRVM_def ty_VSIM_def VSIM_DeepCopyInto_def copies_rules)

lemma copies_VSRI [copies_rules]: "foreign_laws F \<Longrightarrow> copies (ty_VSRI F) (VSRI_DeepCopyInto F)"
  by (simp add: ty_SRVM_def ty_VSRI_def VSRI_DeepCopyInto_def copies_rules)

lemma copies_MAGC [copies_rules]: "foreign_laws F \<Longrightarrow> copies (ty_MAGC F) (MAGC_DeepCopyInto F)"
  by (simp add: ty_SRVM_def ty_MAGC_def MAGC_DeepCopyInto_def copies_rules)

lemma copies_SRLinux [copies_rules]: "foreign_laws F \<Longrightarrow> copies (ty_SRLinux F) (SRLinux_DeepCopyInto F)"
  by (simp add: ty_SRLinux_def SRLinux_DeepCopyInto_def copies_rules)

lemma copies_SRSim [copies_rules]: "foreign_laws F \<Longrightarrow> copies (ty_SRSim F) (SRSim_DeepCopyInto F)"
  by (simp add: ty_SRSim_def SRSim_DeepCopyInto_def copies_rules)

lemma copies_GeneralVM [copies_rules]: "foreign_laws F \<Longrightarrow> copies (ty_GeneralVM F) (GeneralVM_DeepCopyInto F)"
  by (simp add: ty_GeneralVM_def GeneralVM_DeepCopyInto_def copies_rules)

lemma copies_GeneralPod [copies_rules]: "foreign_laws F \<Longrightarrow> copies (ty_GeneralPod F) (GeneralPod_DeepCopyInto F)"
  by (simp add: ty_GeneralPod_def GeneralPod_DeepCopyInto_def copies_rules)

lemma copies_OneOfSystem [copies_rules]: "foreign_laws F \<Longrightarrow> copies (ty_OneOfSystem F) (OneOfSystem_DeepCopyInto F)"
  by (simp add: ty_OneOfSystem_def OneOfSystem_DeepCopyInto_def copies_rules)

lemma copies_KNLConfigSpec [copies_rules]: "foreign_laws F \<Longrightarrow> copies (ty_KNLConfigSpec F) (KNLConfigSpec_DeepCopyInto F)"
  by (simp add: ty_KNLConfigSpec_def KNLConfigSpec_DeepCopyInto_def copies_rules)

lemma copies_KNLConfigStatus [copies_rules]: "copies ty_KNLConfigStatus KNLConfigStatus_DeepCopyInto"
  by (simp add: ty_KNLConfigStatus_def KNLConfigStatus_DeepCopyInto_def copies_rules)

lemma copies_KNLConfig [copies_rules]: "foreign_laws F \<Longrightarrow> copies (ty_KNLConfig F) (KNLConfig_DeepCopyInto F)"
  by (simp add: ty_KNLConfig_def KNLConfig_DeepCopyInto_def copies_rules)

lemma copies_KNLConfigList [copies_rules]: "foreign_laws F \<Longrightarrow> copies (ty_KNLConfigList F) (KNLConfigList_DeepCopyInto F)"
  by (simp add: ty_KNLConfigList_def KNLConfigList_DeepCopyInto_def copies_rules)

lemma copies_LabSpec [copies_rules]: "foreign_laws F \<Longrightarrow> copies (ty_LabSpec F) (LabSpec_DeepCopyInto F)"
  by (simp add: ty_LabSpec_def LabSpec_DeepCopyInto_def copies_rules)

lemma copies_LabStatus [copies_rules]: "foreign_laws F \<Longrightarrow> copies (ty_LabStatus F) (LabStatus_DeepCopyInto F)"
  by (simp add: ty_LabStatus_def LabStatus_DeepCopyInto_def copies_rules)

lemma copies_Lab [copies_rules]: "foreign_laws F \<Longrightarrow> copies (ty_Lab F) (Lab_DeepCopyInto F)"
  by (simp add: ty_Lab_def Lab_DeepCopyInto_def copies_rules)

lemma copies_LabList [copies_rules]: "foreign_laws F \<Longrightarrow> copies (ty_LabList F) (LabList_DeepCopyInto F)"
  by (simp add: ty_LabList_def LabList_DeepCopyInto_def copies_rules)

lemma copies_SRLChassis [copies_rules]: "copies ty_SRLChassis SRLChassis_DeepCopyInto"
  by (simp add: ty_SRLChassis_def SRLChassis_DeepCopyInto_def copies_rules)

end
