(* ===== verification/Props_Copy.thy ===== *)
theory Props_Copy
  imports CopyMethods
begin

text \<open>
  The property of the deep copies, with a lab of which two nodes share one node specification as the
  instance: its copy has two.
\<close>

text \<open>C13

  Deep copies share nothing with the original. For each of the four API objects (a lab, a configuration and
  the lists of them) \<open>DeepCopyObject\<close> of nil is an interface without a value; for any other well-formed
  object it does not panic, leaves every cell of the store as it was, and returns an object of the dynamic type
  that says the same as the original, in which each address is new and met once. So storing anything at any
  place of the copy leaves the original as it is: no field that holds a pointer, a slice or a map is left out of
  its \<open>DeepCopyInto\<close>, at any depth. The same holds for the copy of an SR Linux chassis, which no object
  contains. The types of other packages are copied by their own methods, which promise the same.
\<close>

theorem deep_copies_share_nothing:
  assumes "foreign_laws F"
  shows "copies_object (ty_Lab F) ''*v1beta1.Lab'' (Lab_DeepCopyObject F) \<and>
    copies_object (ty_LabList F) ''*v1beta1.LabList'' (LabList_DeepCopyObject F) \<and>
    copies_object (ty_KNLConfig F) ''*v1beta1.KNLConfig'' (KNLConfig_DeepCopyObject F) \<and>
    copies_object (ty_KNLConfigList F) ''*v1beta1.KNLConfigList'' (KNLConfigList_DeepCopyObject F) \<and>
    copies (TPtr ty_SRLChassis) SRLChassis_DeepCopy"
  unfolding Lab_DeepCopyObject_def LabList_DeepCopyObject_def KNLConfig_DeepCopyObject_def KNLConfigList_DeepCopyObject_def
    Lab_DeepCopy_def LabList_DeepCopy_def KNLConfig_DeepCopy_def KNLConfigList_DeepCopy_def SRLChassis_DeepCopy_def
  by (intro conjI copies_object_rule copies_deep_copy) (simp_all add: assms copies_rules)

definition sim_foreign :: "string foreign" where
  "sim_foreign = \<lparr>
     ty_Quantity = TRec [(''i'', TFlat), (''d'', TPtr TFlat)],
     Quantity_DeepCopy = into [(''d'', if_set (new_of plain))],
     ty_ObjectMeta = TRec [(''Name'', TFlat), (''Labels'', TDict TFlat), (''Finalizers'', TSlice TFlat)],
     ObjectMeta_DeepCopyInto = into [(''Labels'', if_set (make_map plain)), (''Finalizers'', if_set (make_slice plain))],
     ty_ListMeta = TFlat, ListMeta_DeepCopyInto = plain, ty_Condition = TFlat, Condition_DeepCopyInto = plain\<rparr>"

lemma sim_foreign_laws: "foreign_laws sim_foreign"
  by (simp add: foreign_laws_def sim_foreign_def copies_rules)

definition shared_lab :: "string store" where
  "shared_lab =
     [CVar (GStruct [
        (''TypeMeta'', GStruct [(''Kind'', GLeaf ''Lab'')]),
        (''ObjectMeta'', GStruct [(''Name'', GLeaf ''lab1''), (''Labels'', GNil), (''Finalizers'', GNil)]),
        (''Spec'', GStruct [(''NodeList'', GRef 1), (''LinkList'', GNil)]),
        (''Status'', GStruct [(''Conditions'', GNil)])]),
      CTab [(''a'', GRef 2), (''b'', GRef 2)],
      CVar (GStruct [(''VSIM'', GNil), (''VSRI'', GNil), (''MAGC'', GNil), (''VM'', GNil), (''SRL'', GNil),
        (''Pod'', GRef 3), (''SRSIM'', GNil)]),
      CVar (GStruct [(''Image'', GRef 4), (''Command'', GNil), (''Privileged'', GNil), (''PvcSize'', GRef 5),
        (''ReqMemory'', GNil), (''ReqCPU'', GNil)]),
      CVar (GLeaf ''debian''),
      CVar (GStruct [(''i'', GLeaf ''100Mi''), (''d'', GNil)])]"

lemma shared_lab_read:
  "\<exists>t. read (TPtr (ty_Lab sim_foreign)) shared_lab (GRef 0) = Some (t, [0, 1, 2, 3, 4, 5, 2, 3, 4, 5])"
  by (simp add: read.simps read_fields.simps cell_at_def shared_lab_def sim_foreign_def ty_Lab_def ty_LabSpec_def
      ty_LabStatus_def ty_OneOfSystem_def ty_VSIM_def ty_VSRI_def ty_MAGC_def ty_SRVM_def ty_GeneralVM_def ty_SRLinux_def
      ty_GeneralPod_def ty_SRSim_def)

theorem deep_copies_share_nothing_witness:
  "\<exists>t w new bs. read (TPtr (ty_Lab sim_foreign)) shared_lab (GRef 0) = Some (t, [0, 1, 2, 3, 4, 5, 2, 3, 4, 5]) \<and>
     Lab_DeepCopyObject sim_foreign (GRef 0) shared_lab = (Inr (Some (''*v1beta1.Lab'', w)), shared_lab @ new) \<and>
     read (TPtr (ty_Lab sim_foreign)) (shared_lab @ new) w = Some (t, bs) \<and> distinct bs"
proof -
  have "copies_object (ty_Lab sim_foreign) ''*v1beta1.Lab'' (Lab_DeepCopyObject sim_foreign)"
    using deep_copies_share_nothing [OF sim_foreign_laws] by blast
  moreover obtain t where "read (TPtr (ty_Lab sim_foreign)) shared_lab (GRef 0) = Some (t, [0, 1, 2, 3, 4, 5, 2, 3, 4, 5])"
    using shared_lab_read by blast
  ultimately show ?thesis unfolding copies_object_def by blast
qed

end
