(* ===== verification/Startup.thy ===== *)
theory Startup
  imports Cluster
begin

text \<open>
  The start of the manager: the namespace it works in (cfg.go), the set-up of the two controllers
  (lab_controller.go, knlconfig_controller.go) and webhooks (lab_webhook.go, knlconfig_webhook.go), and
  \<open>main\<close> (cmd/main.go). What the code asks of the controller framework is a list of calls
  (\<open>setup_call\<close>); how the framework answers is a parameter, which may depend on the calls made so far.
  The command line is parsed by the flag package: its result is the argument \<open>Flags\<close>.
\<close>

section \<open>The namespace of the operator\<close>

text \<open>The environment of the process, variables with their values.\<close>

type_synonym environ = "(string \<times> string) list"

definition Getenv :: "environ \<Rightarrow> string \<Rightarrow> string" where
  "Getenv e k = (case map_of e k of Some v \<Rightarrow> v | None \<Rightarrow> [])"

definition Environ :: "environ \<Rightarrow> string list" where
  "Environ e = map (\<lambda>(k, v). k @ ''='' @ v) e"

definition getWatchNamespace :: "environ \<Rightarrow> string result \<Rightarrow> string result" where
  "getWatchNamespace e readFile =
     (let ns = Getenv e ''WATCH_NAMESPACE''
      in if ns \<noteq> [] then Inr ns
         else bindr (wrapf ''WATCH_NAMESPACE not set and failed reading serviceaccount namespace: %w'' [] readFile)
           (\<lambda>b. Inr (TrimSpace b)))"

definition isRunningInsideManagerPod :: "environ \<Rightarrow> bool" where
  "isRunningInsideManagerPod e = list_ex (\<lambda>env. HasPrefix env ''KNL_'') (Environ e)"

text \<open>\<open>init\<close> of the package; \<open>readFile\<close> is what reading the file of the service account gives.\<close>

definition init_MYNAMESPACE :: "environ \<Rightarrow> string result \<Rightarrow> string result" where
  "init_MYNAMESPACE e readFile =
     (if isRunningInsideManagerPod e then must (getWatchNamespace e readFile) else Inr ''knl-system'')"

section \<open>Options of the manager\<close>

text \<open>A change of a \<open>tls.Config\<close>, of which only \<open>NextProtos\<close> is set by the code.\<close>

type_synonym TLSOpt = "string list \<Rightarrow> string list"

record Flags =
  metricsAddr :: string
  metricsCertPath :: string
  metricsCertName :: string
  metricsCertKey :: string
  webhookCertPath :: string
  webhookCertName :: string
  webhookCertKey :: string
  enableLeaderElection :: bool
  probeAddr :: string
  secureMetrics :: bool
  enableHTTP2 :: bool

text \<open>The flags of a command line without arguments.\<close>

definition default_Flags :: Flags where
  "default_Flags = \<lparr>metricsAddr = ''0'', metricsCertPath = [], metricsCertName = ''tls.crt'', metricsCertKey = ''tls.key'',
     webhookCertPath = [], webhookCertName = ''tls.crt'', webhookCertKey = ''tls.key'', enableLeaderElection = False,
     probeAddr = '':8081'', secureMetrics = True, enableHTTP2 = False\<rparr>"

record CertFiles =
  cf_CertDir :: string
  cf_CertName :: string
  cf_KeyName :: string

record WebhookOptions =
  wo_TLSOpts :: "TLSOpt list"
  wo_Certs :: "CertFiles option"

record MetricsOptions =
  mo_BindAddress :: string
  mo_SecureServing :: bool
  mo_TLSOpts :: "TLSOpt list"
  mo_FilterProvider :: bool
  mo_Certs :: "CertFiles option"

record ManagerOptions =
  mgr_Metrics :: MetricsOptions
  mgr_WebhookServer :: WebhookOptions
  mgr_HealthProbeBindAddress :: string
  mgr_LeaderElection :: bool
  mgr_LeaderElectionID :: string
  mgr_SecretNamespaces :: "string list"

definition disableHTTP2 :: TLSOpt where
  "disableHTTP2 c = [''http/1.1'']"

definition tls_options :: "Flags \<Rightarrow> TLSOpt list" where
  "tls_options F = (if \<not> enableHTTP2 F then [] @ [disableHTTP2] else [])"

definition webhook_options :: "Flags \<Rightarrow> WebhookOptions" where
  "webhook_options F = \<lparr>wo_TLSOpts = tls_options F,
     wo_Certs = (if length (webhookCertPath F) > 0
       then Some \<lparr>cf_CertDir = webhookCertPath F, cf_CertName = webhookCertName F, cf_KeyName = webhookCertKey F\<rparr> else None)\<rparr>"

definition metrics_options :: "Flags \<Rightarrow> MetricsOptions" where
  "metrics_options F = \<lparr>mo_BindAddress = metricsAddr F, mo_SecureServing = secureMetrics F, mo_TLSOpts = tls_options F,
     mo_FilterProvider = secureMetrics F,
     mo_Certs = (if length (metricsCertPath F) > 0
       then Some \<lparr>cf_CertDir = metricsCertPath F, cf_CertName = metricsCertName F, cf_KeyName = metricsCertKey F\<rparr> else None)\<rparr>"

definition manager_options :: "Flags \<Rightarrow> string \<Rightarrow> ManagerOptions" where
  "manager_options F MYNAMESPACE = \<lparr>mgr_Metrics = metrics_options F, mgr_WebhookServer = webhook_options F,
     mgr_HealthProbeBindAddress = probeAddr F, mgr_LeaderElection = enableLeaderElection F,
     mgr_LeaderElectionID = ''edd8af43.kubenetlab.net'', mgr_SecretNamespaces = [MYNAMESPACE]\<rparr>"

section \<open>Calls of the framework\<close>

datatype setup_call =
    AddToScheme string
  | GetConfigOrDie
  | NewManager ManagerOptions
  | IndexField string string
  | CompleteController string "string list" string
  | CompleteWebhook string string string
  | AddHealthzCheck string
  | AddReadyzCheck string
  | StartManager

type_synonym framework = "setup_call list \<Rightarrow> setup_call \<Rightarrow> unit result"
type_synonym 'a startup = "(setup_call list, 'a) proc"

definition ask :: "framework \<Rightarrow> setup_call \<Rightarrow> unit startup" where
  "ask fw c made = (fw made c, made @ [c])"

text \<open>The init function of cmd/main.go: \<open>utilruntime.Must\<close> panics on an error.\<close>

definition init_scheme :: "framework \<Rightarrow> unit startup" where
  "init_scheme fw = eachp (\<lambda>api. \<lambda>made. map_prod must id (ask fw (AddToScheme api) made))
     [''clientgoscheme'', ''kvv1'', ''ncv1'', ''knlv1beta1'', ''lanv1beta1'', ''cdiv1'']"

definition OwnerKey :: string where
  "OwnerKey = ''.metadata.controller''"

definition registrResource :: "framework \<Rightarrow> string \<Rightarrow> unit startup" where
  "registrResource fw T = ask fw (IndexField T OwnerKey)"

text \<open>The key of that index: the lab that owns an object; the owner is \<open>metav1.GetControllerOf\<close> of the object.\<close>

record OwnerRef =
  or_APIVersion :: string
  or_Kind :: string
  or_Name :: string

definition extractKey :: "string \<Rightarrow> OwnerRef option \<Rightarrow> string list" where
  "extractKey apiGVStr owner =
     (case owner of None \<Rightarrow> []
      | Some o' \<Rightarrow> if or_APIVersion o' \<noteq> apiGVStr \<or> or_Kind o' \<noteq> ''Lab'' then [] else [or_Name o'])"

definition Lab_SetupWithManager :: "framework \<Rightarrow> unit startup" where
  "Lab_SetupWithManager fw =
     bindp (MakeErr (registrResource fw ''Pod'')) (\<lambda>_.
     bindp (MakeErr (registrResource fw ''PersistentVolumeClaim'')) (\<lambda>_.
     bindp (MakeErr (registrResource fw ''VirtualMachineInstance'')) (\<lambda>_.
     bindp (MakeErr (registrResource fw ''LAN'')) (\<lambda>_.
     ask fw (CompleteController ''Lab''
       [''VirtualMachineInstance'', ''Pod'', ''LAN'', ''DataVolume'', ''NetworkAttachmentDefinition''] ''lab'')))))"

definition KNLConfig_SetupWithManager :: "framework \<Rightarrow> unit startup" where
  "KNLConfig_SetupWithManager fw = ask fw (CompleteController ''KNLConfig'' [] ''knlconfig'')"

definition SetupLabWebhookWithManager :: "framework \<Rightarrow> unit startup" where
  "SetupLabWebhookWithManager fw = ask fw (CompleteWebhook ''Lab'' ''LabCustomValidator'' ''LabCustomDefaulter'')"

definition SetupKNLConfigWebhookWithManager :: "framework \<Rightarrow> unit startup" where
  "SetupKNLConfigWebhookWithManager fw =
     ask fw (CompleteWebhook ''KNLConfig'' ''KNLConfigCustomValidator'' ''KNLConfigCustomDefaulter'')"

section \<open>main\<close>

text \<open>\<open>if err := ...; err != nil { os.Exit(1) }\<close>: the result of a process is its exit code.\<close>

definition or_exit :: "unit startup \<Rightarrow> nat startup \<Rightarrow> nat startup" where
  "or_exit m k = catchp m (\<lambda>_. retp 1) (\<lambda>_. k)"

definition manager_main :: "framework \<Rightarrow> Flags \<Rightarrow> environ \<Rightarrow> string \<Rightarrow> nat startup" where
  "manager_main fw F e MYNAMESPACE =
     or_exit (ask fw GetConfigOrDie) (
     or_exit (ask fw (NewManager (manager_options F MYNAMESPACE))) (
     or_exit (Lab_SetupWithManager fw) (
     or_exit (KNLConfig_SetupWithManager fw) (
     or_exit (if Getenv e ''ENABLE_WEBHOOKS'' \<noteq> ''false'' then SetupLabWebhookWithManager fw else retp ()) (
     or_exit (if Getenv e ''ENABLE_WEBHOOKS'' \<noteq> ''false'' then SetupKNLConfigWebhookWithManager fw else retp ()) (
     or_exit (ask fw (AddHealthzCheck ''healthz'')) (
     or_exit (ask fw (AddReadyzCheck ''readyz'')) (
     or_exit (ask fw StartManager) (
     retp 0)))))))))"

section \<open>The calls in their order\<close>

text \<open>Making the calls of a list until one fails; \<open>manager_main\<close> is that for its list of calls.\<close>

fun make_calls :: "framework \<Rightarrow> setup_call list \<Rightarrow> nat startup" where
  "make_calls fw [] = retp 0"
| "make_calls fw (c # cs) = or_exit (ask fw c) (make_calls fw cs)"

definition start_calls :: "Flags \<Rightarrow> environ \<Rightarrow> string \<Rightarrow> setup_call list" where
  "start_calls F e MYNAMESPACE =
     [GetConfigOrDie, NewManager (manager_options F MYNAMESPACE),
      IndexField ''Pod'' OwnerKey, IndexField ''PersistentVolumeClaim'' OwnerKey, IndexField ''VirtualMachineInstance'' OwnerKey,
      IndexField ''LAN'' OwnerKey,
      CompleteController ''Lab'' [''VirtualMachineInstance'', ''Pod'', ''LAN'', ''DataVolume'', ''NetworkAttachmentDefinition''] ''lab'',
      CompleteController ''KNLConfig'' [] ''knlconfig''] @
     (if Getenv e ''ENABLE_WEBHOOKS'' \<noteq> ''false''
      then [CompleteWebhook ''Lab'' ''LabCustomValidator'' ''LabCustomDefaulter'',
            CompleteWebhook ''KNLConfig'' ''KNLConfigCustomValidator'' ''KNLConfigCustomDefaulter''] else []) @
     [AddHealthzCheck ''healthz'', AddReadyzCheck ''readyz'', StartManager]"

lemma or_exit_bindp: "or_exit (bindp m (\<lambda>_. m')) k = or_exit m (or_exit m' k)"
  by (auto simp: fun_eq_iff or_exit_def catchp_def bindp_def split: prod.split sum.split fault.split)

lemma or_exit_MakeErr: "or_exit (MakeErr m) k = or_exit m k"
  by (auto simp: fun_eq_iff or_exit_def catchp_def MakeErr_def wrapp_def wrapf_def split: prod.split sum.split fault.split)

lemma or_exit_retp: "or_exit (retp ()) k = k"
  by (simp add: fun_eq_iff or_exit_def catchp_def)

lemma main_makes_calls: "manager_main fw F e ns = make_calls fw (start_calls F e ns)"
  by (simp add: manager_main_def start_calls_def Lab_SetupWithManager_def KNLConfig_SetupWithManager_def registrResource_def
      SetupLabWebhookWithManager_def SetupKNLConfigWebhookWithManager_def or_exit_bindp or_exit_MakeErr or_exit_retp)

lemma make_calls_run:
  assumes "make_calls fw cs made = (r, made')" and "\<And>tr c. \<not> panics (fw tr c)"
  obtains ds es where "made' = made @ ds" "cs = ds @ es"
    and "\<And>i. i + 1 < length ds \<Longrightarrow> ok (fw (made @ take i ds) (ds ! i))"
    and "if r = Inr 0 then es = [] \<and> (ds \<noteq> [] \<longrightarrow> ok (fw (made @ butlast ds) (last ds)))
         else r = Inr 1 \<and> ds \<noteq> [] \<and> \<not> ok (fw (made @ butlast ds) (last ds))"
  using assms(1)
proof (induction cs arbitrary: made thesis)
  case Nil
  then show ?case by (intro Nil(1) [of "[]" "[]"]) simp_all
next
  case (Cons c cs)
  show ?case
  proof (cases "fw made c")
    case (Inl e)
    then obtain err where e: "e = Err err" using assms(2) [of made c] by (cases e) auto
    with Inl Cons(3) have "r = Inr 1" "made' = made @ [c]" by (auto simp: or_exit_def catchp_def ask_def)
    then show ?thesis by (intro Cons(2) [of "[c]" cs]) (simp_all add: Inl)
  next
    case (Inr u)
    with Cons(3) have "make_calls fw cs (made @ [c]) = (r, made')" by (simp add: or_exit_def catchp_def ask_def)
    from Cons(1) [OF _ this] obtain ds es where run: "made' = (made @ [c]) @ ds" "cs = ds @ es"
      "\<And>i. i + 1 < length ds \<Longrightarrow> ok (fw ((made @ [c]) @ take i ds) (ds ! i))"
      "if r = Inr 0 then es = [] \<and> (ds \<noteq> [] \<longrightarrow> ok (fw ((made @ [c]) @ butlast ds) (last ds)))
         else r = Inr 1 \<and> ds \<noteq> [] \<and> \<not> ok (fw ((made @ [c]) @ butlast ds) (last ds))" by blast
    have "ok (fw (made @ take i (c # ds)) ((c # ds) ! i))" if "i + 1 < length (c # ds)" for i
      using run(3) [of "i - 1"] that Inr by (cases i) auto
    then show ?thesis
      using run(1,2,4) Inr by (intro Cons(2) [of "c # ds" es]) (auto split: if_splits)
  qed
qed

end
