(* ===== verification/Props_Start.thy ===== *)
theory Props_Start
  imports Startup
begin

text \<open>The property of the start of the manager, with a framework that refuses one webhook as the instance.\<close>

text \<open>C18

  The manager starts last and only when everything else is in place. Whatever the framework answers, as long as it
  does not panic, the calls \<open>main\<close> makes are a prefix of \<open>start_calls\<close>: the manager, the four
  indices by owner and the controller of labs, the controller of configurations, then both webhooks unless
  \<open>ENABLE_WEBHOOKS\<close> is \<open>false\<close>, the two health checks, and the start of the manager. Every call but the
  last has succeeded; the process ends with 0 when the last has succeeded as well, and then all calls were made,
  and with 1 otherwise. Without \<open>--enable-http2\<close> neither of the two servers offers more than HTTP/1.1,
  whatever protocols it would offer by itself.
\<close>

theorem manager_starts_last:
  assumes "manager_main fw F e MYNAMESPACE [] = (r, made)" and "\<And>tr c. \<not> panics (fw tr c)"
  shows "\<exists>rest. start_calls F e MYNAMESPACE = made @ rest \<and> made \<noteq> [] \<and>
    (\<forall>i. i + 1 < length made \<longrightarrow> ok (fw (take i made) (made ! i))) \<and>
    (if ok (fw (butlast made) (last made)) then r = Inr 0 \<and> rest = [] else r = Inr 1) \<and>
    (\<not> enableHTTP2 F \<longrightarrow>
       (\<forall>protos. \<forall>opts \<in> {wo_TLSOpts (webhook_options F), mo_TLSOpts (metrics_options F)}.
          fold (\<lambda>f. f) opts protos = [''http/1.1'']))"
proof -
  from make_calls_run [OF assms [unfolded main_makes_calls]] obtain ds es where run: "made = [] @ ds"
    "start_calls F e MYNAMESPACE = ds @ es" "\<And>i. i + 1 < length ds \<Longrightarrow> ok (fw ([] @ take i ds) (ds ! i))"
    "if r = Inr 0 then es = [] \<and> (ds \<noteq> [] \<longrightarrow> ok (fw ([] @ butlast ds) (last ds)))
         else r = Inr 1 \<and> ds \<noteq> [] \<and> \<not> ok (fw ([] @ butlast ds) (last ds))" by blast
  have "ds \<noteq> []"
  proof
    assume "ds = []"
    with run(4) have "es = []" by (auto split: if_splits)
    with run(2) \<open>ds = []\<close> show False by (simp add: start_calls_def)
  qed
  with run show ?thesis
    by (intro exI [of _ es]) (auto simp: webhook_options_def metrics_options_def tls_options_def disableHTTP2_def split: if_splits)
qed

definition refusing_framework :: framework where
  "refusing_framework tr c = (case c of
      CompleteWebhook kind _ _ \<Rightarrow> if kind = ''KNLConfig'' then errf ''webhook refused'' [] else Inr ()
    | _ \<Rightarrow> Inr ())"

lemma refused_run:
  "manager_main refusing_framework default_Flags [] ''knl-system'' [] = (Inr 1, take 10 (start_calls default_Flags [] ''knl-system''))"
  by (simp add: main_makes_calls start_calls_def or_exit_def catchp_def ask_def refusing_framework_def Getenv_def errf_def)

theorem manager_starts_last_witness:
  "\<exists>rest. start_calls default_Flags [] ''knl-system'' = take 10 (start_calls default_Flags [] ''knl-system'') @ rest \<and>
     \<not> ok (refusing_framework (take 9 (start_calls default_Flags [] ''knl-system''))
       (CompleteWebhook ''KNLConfig'' ''KNLConfigCustomValidator'' ''KNLConfigCustomDefaulter'')) \<and>
     StartManager \<notin> set (take 10 (start_calls default_Flags [] ''knl-system''))"
proof -
  have "\<not> panics (refusing_framework tr c)" for tr c
    by (simp add: refusing_framework_def errf_def split: setup_call.split)
  from manager_starts_last [OF refused_run this]
  show ?thesis by (auto simp: start_calls_def Getenv_def split: if_splits)
qed

text \<open>The namespace of the operator.\<close>

lemma namespace_outside: "\<not> isRunningInsideManagerPod e \<Longrightarrow> init_MYNAMESPACE e readFile = Inr ''knl-system''"
  by (simp add: init_MYNAMESPACE_def)

lemma namespace_panics:
  assumes "\<not> panics readFile"
  shows "panics (init_MYNAMESPACE e readFile) \<longleftrightarrow>
    isRunningInsideManagerPod e \<and> Getenv e ''WATCH_NAMESPACE'' = [] \<and> \<not> ok readFile"
  using assms
  by (auto simp: init_MYNAMESPACE_def getWatchNamespace_def Let_def must_def wrapf_def bindr_def
      split: sum.splits fault.splits)

end
