(* ===== verification/Spec2Isabelle.thy ===== *)
theory Spec2Isabelle
  imports Props_Default Props_Side Props_Calm Props_Copy Props_Start
begin

text \<open>
  KNL is a Kubernetes operator for network labs. A lab (\<open>Lab\<close>) has nodes of seven types (SR OS VMs
  vSIM, VSR-I and MAG-c, SR-SIM, SR Linux, general pods and VMs) and links between them. An admission
  webhook fills in and checks a lab, a controller creates the cluster objects that run it, and a
  second object, \<open>KNLConfig\<close>, holds the defaults. Beside every VM runs a hook that rewrites its libvirt
  domain. This development models the code under \<open>src/api/v1beta1\<close>, \<open>src/internal/webhook/v1beta1\<close>,
  \<open>src/internal/controller\<close> and \<open>src/kvirtsidecar\<close>.

  \<^bold>\<open>The theories.\<close>
  \<^item> \<open>KNL_Prelude\<close>: errors and panics as values, results, procedures over a state, loops that stop at
    the first error, Go maps as association lists; rewrite rules collected in \<open>result_simps\<close> and \<open>gomap_simps\<close>.
  \<^item> \<open>Go_Strings\<close>, \<open>Go_Regexp\<close>, \<open>Go_Net\<close>: what the code uses of the Go library: strings, strconv,
    regular expressions, net and net/netip.
  \<^item> \<open>KNL_Types\<close>: the structs of the API, one record each.
  \<^item> \<open>Merge\<close>, \<open>Fill_Records\<close>: the merge of defaults by reflection (common.go), first on untyped
    struct values, with the laws of the locale \<open>default_merge\<close>, then as record functions it refines.
  \<^item> \<open>Names\<close>, \<open>Mac\<close>: the names and addresses of cluster objects (common.go, link.go, srvm_common.go, system.go).
  \<^item> \<open>Chassis\<close>, \<open>SrlChassis\<close>, \<open>Systems\<close>, \<open>NodeDefaults\<close>: cards and chassis (sr.go, srl.go, srl_chassis.go),
    the seven node types behind the \<open>System\<close> interface (srvm.go, srsim.go, generalpod.go, vmpc.go, node.go),
    and the defaults of their cards over a store of shared card objects.
  \<^item> \<open>Config\<close>: the operator configuration (knlconfig_types.go, cfg.go, knlconfig_webhook.go,
    knlconfig_controller.go): what is accepted, and what a reconciliation of it puts into effect.
  \<^item> \<open>LabValidate\<close>, \<open>LabDefault\<close>, \<open>DefaultMacs\<close>, \<open>DefaultNodes\<close>: the webhook of a lab (lab_webhook.go,
    link.go, node.go, lab_types.go): validation over the locale \<open>node_interface\<close>, the seven stages of
    defaulting, and what they do to MAC addresses and to the set of nodes.
  \<^item> \<open>CloudInit\<close>: the addresses of a general VM (cloudinit.go, vmpc.go).
  \<^item> \<open>ClusterObjects\<close>, \<open>Cluster\<close>, \<open>Links\<close>, \<open>LabController\<close>: the Kubernetes objects, creating one object
    (k8s.go), parsed labs and the LANs of links (parsed_lab.go, link.go), and the controller (lab_controller.go).
  \<^item> \<open>Go_Encode\<close>, \<open>NodeEnv\<close>: percent and JSON encoding, the packages and services the node types call,
    and the loop over the spokes of a node that they share.
  \<^item> \<open>PodBuild\<close>, \<open>VMBuild\<close>: the objects of a node and the \<open>Ensure\<close> methods that create them, for pods
    (srl.go, srsim.go, generalpod.go) and VMs (srvm_ensure.go, vmpc.go, common.go).
  \<^item> \<open>NodeEnsure\<close>, \<open>NodePods\<close>, \<open>NodeNets\<close>, \<open>NodeVMs\<close>: \<open>System_Ensure\<close> over the seven node types (system.go): which
    keys of the cluster it touches (\<open>node_keys\<close>), that pods are only added, what is there when it succeeds,
    what the pod of a node has to have (\<open>lab_labels\<close>, \<open>pod_complete\<close>, \<open>node_containers\<close>), its network annotation, and how the
    links of a node are shared out over its VMs. \<open>node_pod\<close> names the pod that the code builds, so that the two theorems on
    pods speak of the same one; it is not a specification.
  \<^item> \<open>Go_Json\<close>, \<open>SideCar\<close>, \<open>SideFacts\<close>: reading JSON maps back, the hook (kvirtsidecar/main.go) from the annotations
    \<open>getVMI\<close> wrote to the new domain and the file server, and what it makes of a domain as one expression (\<open>sr_domain\<close>).
  \<^item> \<open>Terminal\<close>: \<open>Shell\<close> and \<open>Console\<close> of the node types (srvm.go, vmpc.go, srl.go, srsim.go, generalpod.go).
  \<^item> \<open>Calm\<close>: a logic for the absence of panics with an invariant of the state (\<open>safely\<close>), what a lab needs beyond
    validation (\<open>lab_ready\<close>), what the cluster does (\<open>all_numbered\<close>: every LAN has a VNI, the bridge indices in labels
    fit a bit set), and that its reconciliation then never panics and keeps the latter.
  \<^item> \<open>DeepCopy\<close>, \<open>CopyMethods\<close>: Go values with their sharing in a store, the statements of the generated copies
    with the contract \<open>copies\<close>, and the methods of zz_generated.deepcopy.go, which meet it.
  \<^item> \<open>Startup\<close>: the namespace of the operator (cfg.go) and the start of the manager (cmd/main.go and the
    \<open>SetupWithManager\<close> methods) as a sequence of calls of the framework.
  \<^item> \<open>Props_Data\<close>, \<open>Props_Lab\<close>, \<open>Props_Default\<close>, \<open>Props_Cluster\<close>, \<open>Props_Nodes\<close>, \<open>Props_Side\<close>, \<open>Props_Calm\<close>,
    \<open>Props_Copy\<close>, \<open>Props_Start\<close>: the properties, each named C1, C2, ... with
    a witness that applies it to a concrete input.

  \<^bold>\<open>Conventions.\<close> A pointer field is an option and dereferencing nil is a \<open>Panic\<close>; only the
  cards of defaulting and the deep copies, where sharing matters, have addresses in a store. A Go map is an
  association list with distinct keys (\<open>wfmap\<close>); its order is the order a \<open>range\<close> loop visits it in,
  so a theorem about all lists is about all orders; the webhook, which visits the same map in
  several loops, has one order per loop (\<open>ro\<close>). Strings are lists of bytes below 128. Machine
  integers are words where they wrap (\<open>DeriveMac\<close>, the hashes) and checked integers elsewhere. Loops are
  structural, so no fuel is needed, except the search of free numbers, which recurses on how many are asked for.

  \<^bold>\<open>What is assumed.\<close> Code outside the repository is an argument: the API client with the laws of
  \<open>client_laws\<close> (a call changes no object but its own, a created object is stored under its key with the owners sent, a
  nameless one never is), the owner reference with \<open>owner_laws\<close>, the bit set with \<open>bitset_laws\<close>, the image reference
  and shell parsers, the hash functions; for the objects of nodes, collected in the record \<open>Env\<close>, also the
  file system (a call on it changes no object) and the k8slan package (its attachments are in the namespace
  asked for). The body of a stored object is taken to be the one sent only for LANs, a custom resource without defaults;
  what the API server adds to pods, VMs and claims is left open, and \<open>pod_of_node\<close> speaks of the pod that is
  handed over. Reads are taken to be current, although the client of the manager has a cache: with a
  stale read a loop of the controller sees an older cluster, and nothing is claimed for it. The theorem on panics has
  further conditions (\<open>env_total\<close>): the calls return, a write stores the numbers it sends, and the options
  of the operator that the code dereferences are set. The decoder of a VMI and libvirtxml are the arguments of the hook (\<open>SideLib\<close>);
  the copies of Kubernetes types (\<open>foreign_laws\<close>) and the answers of the controller framework are parameters of their theories.
  \<open>mem_client\<close>, \<open>mem_bitset\<close> and \<open>mem_env\<close> show that the laws can be met.

  \<^bold>\<open>Not modelled.\<close> Log lines and other output; parsing of command lines; helpers of common.go that nothing calls
  (\<open>NewStructPointerFields\<close>, \<open>MakeErrviaStr\<close>, \<open>NewPortMACVTAPNAD\<close>). Fields of Kubernetes
  objects that are constants of the code and that no other code reads (API versions, the selector of the
  affinity, the shell and group of an ignition user) are left out of the records.
\<close>

end
